(* ===== verification/Prelude.thy ===== *)
theory Prelude
  imports Complex_Main "HOL-Library.AList" "HOL-Library.Char_ord"
begin

text \<open>
  What the component theories share: the numeric type that stands for Python's \<open>float\<close> and
  \<open>Decimal\<close>, the insertion-ordered dictionary, the JSON value type, the exceptions the modelled
  code can raise, and the generic lemmas and theorem collections the components use.

  Numbers. A Python \<open>float\<close> or \<open>Decimal\<close> that takes part in arithmetic is a rational
  (\<open>flt\<close>): the four operations and the comparisons are exact, so IEEE rounding and the
  28-digit Decimal context are not modelled. Where the code can meet an infinity or a NaN (text
  parsed from the environment, numbers in a JSON body) the value is a \<open>pyfloat\<close> and the
  branch that meets it is written out.
\<close>

named_theorems cost_simps "definitions of the cost and economics components"
named_theorems dict_simps "laws of the insertion-ordered dictionary"

type_synonym flt = rat

datatype pyfloat = Fin flt | PInf | NInf | NaN

text \<open>The exceptions the modelled code lets escape.\<close>

datatype py_error = ValueError | TypeError | KeyError | OverflowError | ValidationError
  | InvalidOperation | ZeroDivisionError

text \<open>Sequencing of calls that may raise: the first exception ends the computation.\<close>

fun res_bind :: "'e + 'a \<Rightarrow> ('a \<Rightarrow> 'e + 'b) \<Rightarrow> 'e + 'b" where
  "res_bind (Inl e) f = Inl e"
| "res_bind (Inr x) f = f x"

lemma res_bind_Inr_iff [simp]: "res_bind m f = Inr y \<longleftrightarrow> (\<exists>x. m = Inr x \<and> f x = Inr y)"
  by (cases m) auto

lemma res_bind_Inl_iff:
  "res_bind m f = Inl e \<longleftrightarrow> m = Inl e \<or> (\<exists>x. m = Inr x \<and> f x = Inl e)"
  by (cases m) auto

section \<open>Dictionaries\<close>

text \<open>
  A Python \<open>dict\<close> keeps its insertion order: assigning to a key that is present replaces the
  value in place, a new key goes to the end. That is \<^theory_text>\<open>AList.update\<close> on an
  association list with distinct keys.
\<close>

type_synonym ('k, 'v) dict = "('k \<times> 'v) list"

abbreviation dget :: "('k, 'v) dict \<Rightarrow> 'k \<Rightarrow> 'v option" where
  "dget d k \<equiv> map_of d k"

abbreviation dset :: "('k, 'v) dict \<Rightarrow> 'k \<Rightarrow> 'v \<Rightarrow> ('k, 'v) dict" where
  "dset d k v \<equiv> AList.update k v d"

abbreviation dpop :: "('k, 'v) dict \<Rightarrow> 'k \<Rightarrow> ('k, 'v) dict" where
  "dpop d k \<equiv> AList.delete k d"

abbreviation dkeys :: "('k, 'v) dict \<Rightarrow> 'k set" where
  "dkeys d \<equiv> fst ` set d"

lemma dget_dset [simp, dict_simps]: "dget (dset d k v) k' = (if k' = k then Some v else dget d k')"
  by (simp add: update_conv')

lemma dget_dpop [simp, dict_simps]: "dget (dpop d k) k' = (if k' = k then None else dget d k')"
  by (simp add: delete_conv')

lemma dkeys_dset [simp, dict_simps]: "dkeys (dset d k v) = insert k (dkeys d)"
  by (simp add: dom_update)

lemma dkeys_dpop [simp, dict_simps]: "dkeys (dpop d k) = dkeys d - {k}"
  by (auto simp: AList.delete_eq)

lemma distinct_dset [simp, intro]:
  "distinct (map fst d) \<Longrightarrow> distinct (map fst (dset d k v))"
  by (rule distinct_update)

lemma distinct_dpop [simp, intro]:
  "distinct (map fst d) \<Longrightarrow> distinct (map fst (dpop d k))"
  by (rule AList.distinct_delete)

lemma dget_None_iff [dict_simps]: "dget d k = None \<longleftrightarrow> k \<notin> dkeys d"
  by (rule map_of_eq_None_iff)

lemma dget_Some_iff:
  "distinct (map fst d) \<Longrightarrow> dget d k = Some v \<longleftrightarrow> (k, v) \<in> set d"
  by (rule map_of_eq_Some_iff)

lemma dget_SomeD: "dget d k = Some v \<Longrightarrow> (k, v) \<in> set d"
  by (rule map_of_SomeD)

lemma dset_fresh: "k \<notin> dkeys d \<Longrightarrow> dset d k v = d @ [(k, v)]"
  by (induction d) auto

text \<open>Every value of a dictionary with a property keeps it when a good value is assigned.\<close>

lemma set_dset_subset: "set (dset d k v) \<subseteq> insert (k, v) (set d)"
  by (induction d) auto

lemma set_dset_distinct:
  "distinct (map fst d) \<Longrightarrow> set (dset d k v) = insert (k, v) {p \<in> set d. fst p \<noteq> k}"
  by (induction d) (auto simp: image_iff)

section \<open>JSON values\<close>

text \<open>
  What \<open>json.loads\<close> produces. Python's decoder accepts \<open>NaN\<close> and \<open>Infinity\<close>, and a
  literal such as \<open>1e999\<close> decodes to an infinity, so a number with a fraction or an exponent
  is a \<open>pyfloat\<close>.
\<close>

datatype json = JNull | JBool bool | JInt int | JFloat pyfloat | JStr string
  | JArr "json list" | JObj "(string \<times> json) list"

fun json_field :: "string \<Rightarrow> (string \<times> json) list \<Rightarrow> json" where
  \<comment> \<open>\<open>mapping.get(key)\<close>: an absent key is \<open>None\<close>, like a JSON null.\<close>
  "json_field k kvs = (case dget kvs k of None \<Rightarrow> JNull | Some v \<Rightarrow> v)"

fun json_truthy :: "json \<Rightarrow> bool" where
  "json_truthy JNull = False"
| "json_truthy (JBool b) = b"
| "json_truthy (JInt i) = (i \<noteq> 0)"
| "json_truthy (JFloat x) = (x \<noteq> Fin 0)"
| "json_truthy (JStr s) = (s \<noteq> [])"
| "json_truthy (JArr xs) = (xs \<noteq> [])"
| "json_truthy (JObj kvs) = (kvs \<noteq> [])"

section \<open>Numbers\<close>

text \<open>Python's \<open>int(x)\<close> on a finite float truncates towards zero.\<close>

definition trunc_rat :: "rat \<Rightarrow> int" where
  "trunc_rat r = (if 0 \<le> r then \<lfloor>r\<rfloor> else \<lceil>r\<rceil>)"

text \<open>\<open>round(x, n)\<close>: to the nearest multiple of \<open>10 ^ -n\<close>, a tie to the even one.\<close>

definition round_half_even :: "rat \<Rightarrow> int" where
  "round_half_even r =
     (let f = \<lfloor>r\<rfloor>; d = r - of_int f in
      if d < 1 / 2 then f else if 1 / 2 < d then f + 1 else if even f then f else f + 1)"

definition round_to :: "nat \<Rightarrow> rat \<Rightarrow> rat" where
  "round_to n r = of_int (round_half_even (r * 10 ^ n)) / 10 ^ n"

lemma round_half_even_of_int [simp]: "round_half_even (of_int i) = i"
  by (simp add: round_half_even_def)

lemma round_half_even_mono: assumes "x \<le> y" shows "round_half_even x \<le> round_half_even y"
proof -
  have fl: "\<lfloor>x\<rfloor> \<le> \<lfloor>y\<rfloor>" using assms by (rule floor_mono)
  show ?thesis
  proof (cases "\<lfloor>x\<rfloor> = \<lfloor>y\<rfloor>")
    case True
    then show ?thesis using assms by (auto simp: round_half_even_def Let_def)
  next
    case False
    then have "\<lfloor>x\<rfloor> + 1 \<le> \<lfloor>y\<rfloor>" using fl by simp
    moreover have "round_half_even x \<le> \<lfloor>x\<rfloor> + 1" by (simp add: round_half_even_def Let_def)
    moreover have "\<lfloor>y\<rfloor> \<le> round_half_even y" by (simp add: round_half_even_def Let_def)
    ultimately show ?thesis by linarith
  qed
qed

lemma round_to_mono: "x \<le> y \<Longrightarrow> round_to n x \<le> round_to n y"
  by (auto simp: round_to_def intro!: divide_right_mono round_half_even_mono mult_right_mono)

lemma round_to_0 [simp]: "round_to n 0 = 0"
  by (simp add: round_to_def round_half_even_def)

lemma round_to_1 [simp]: "round_to n 1 = 1"
proof -
  have "round_half_even (10 ^ n) = 10 ^ n"
    using round_half_even_of_int [of "10 ^ n"] by simp
  then show ?thesis by (simp add: round_to_def)
qed

lemma round_to_bounds: "0 \<le> x \<Longrightarrow> x \<le> 1 \<Longrightarrow> 0 \<le> round_to n x \<and> round_to n x \<le> 1"
  using round_to_mono [of 0 x n] round_to_mono [of x 1 n] by simp

section \<open>Optional values\<close>

fun opt_or :: "'a option \<Rightarrow> 'a \<Rightarrow> 'a" where
  "opt_or None d = d"
| "opt_or (Some x) d = x"

lemma opt_or_conv: "opt_or x d = (case x of None \<Rightarrow> d | Some y \<Rightarrow> y)"
  by (cases x) auto

end
