(* ===== verification/PyText.thy ===== *)
theory PyText
  imports Prelude
begin

text \<open>
  The part of Python's \<open>str\<close>, \<open>int\<close>, \<open>float\<close>, \<open>Decimal\<close> and \<open>shlex\<close>
  that the code uses. A string is a list of code points below 256 (\<open>char list\<close>); text with
  code points from 256 on is outside the model. \<open>shlex_split\<close> is the state machine of
  \<open>shlex.split\<close> (POSIX mode, whitespace splitting, no comments); the numeric parsers follow the
  grammars of the constructors, digit grouping with underscores, infinities and NaN included.
\<close>

section \<open>Characters and slices\<close>

definition code :: "char \<Rightarrow> nat" where
  "code c = of_char c"

definition is_space :: "char \<Rightarrow> bool" where
  \<comment> \<open>\<open>str.isspace\<close> on one code point below 256; what \<open>strip()\<close> and \<open>split()\<close> use.\<close>
  "is_space c \<longleftrightarrow> code c \<in> {9, 10, 11, 12, 13, 28, 29, 30, 31, 32, 133, 160}"

definition is_digit :: "char \<Rightarrow> bool" where
  "is_digit c \<longleftrightarrow> 48 \<le> code c \<and> code c \<le> 57"

definition digit_val :: "char \<Rightarrow> int" where
  "digit_val c = int (code c) - 48"

definition lower_char :: "char \<Rightarrow> char" where
  "lower_char c =
     (if 65 \<le> code c \<and> code c \<le> 90 \<or> 192 \<le> code c \<and> code c \<le> 222 \<and> code c \<noteq> 215
      then char_of (code c + 32) else c)"

definition py_lower :: "string \<Rightarrow> string" where
  "py_lower s = map lower_char s"

definition lstrip :: "string \<Rightarrow> string" where
  "lstrip s = dropWhile is_space s"

definition rstrip_by :: "(char \<Rightarrow> bool) \<Rightarrow> string \<Rightarrow> string" where
  "rstrip_by p s = rev (dropWhile p (rev s))"

definition py_strip :: "string \<Rightarrow> string" where
  "py_strip s = rstrip_by is_space (lstrip s)"

definition starts_with :: "string \<Rightarrow> string \<Rightarrow> bool" where
  \<comment> \<open>\<open>s.startswith(p)\<close>\<close>
  "starts_with p s \<longleftrightarrow> take (length p) s = p"

lemma starts_with_append [simp]: "starts_with p (p @ s)"
  by (simp add: starts_with_def)

lemma starts_with_iff: "starts_with p s \<longleftrightarrow> (\<exists>t. s = p @ t)"
  unfolding starts_with_def by (metis append_eq_conv_conj append_take_drop_id)

section \<open>Splitting and joining\<close>

fun split_on_acc :: "char \<Rightarrow> string \<Rightarrow> string \<Rightarrow> string list" where
  "split_on_acc c acc [] = [rev acc]"
| "split_on_acc c acc (x # xs) =
     (if x = c then rev acc # split_on_acc c [] xs else split_on_acc c (x # acc) xs)"

definition split_on :: "char \<Rightarrow> string \<Rightarrow> string list" where
  \<comment> \<open>\<open>s.split(c)\<close>\<close>
  "split_on c s = split_on_acc c [] s"

fun split_ws_acc :: "string \<Rightarrow> string \<Rightarrow> string list" where
  "split_ws_acc acc [] = (if acc = [] then [] else [rev acc])"
| "split_ws_acc acc (x # xs) =
     (if is_space x then (if acc = [] then split_ws_acc [] xs else rev acc # split_ws_acc [] xs)
      else split_ws_acc (x # acc) xs)"

definition split_ws :: "string \<Rightarrow> string list" where
  \<comment> \<open>\<open>s.split()\<close>\<close>
  "split_ws s = split_ws_acc [] s"

fun py_join :: "string \<Rightarrow> string list \<Rightarrow> string" where
  "py_join sep [] = []"
| "py_join sep [x] = x"
| "py_join sep (x # y # ys) = x @ sep @ py_join sep (y # ys)"

lemma split_ws_acc_nonempty: "w \<in> set (split_ws_acc acc s) \<Longrightarrow> w \<noteq> []"
  by (induction acc s rule: split_ws_acc.induct) (auto split: if_splits)

lemma split_ws_nonempty: "w \<in> set (split_ws s) \<Longrightarrow> w \<noteq> []"
  by (auto simp: split_ws_def dest: split_ws_acc_nonempty)

section \<open>shlex.split\<close>

datatype shlex_state = SSpace | SWord | SQuote char | SEscape shlex_state

definition is_shlex_space :: "char \<Rightarrow> bool" where
  "is_shlex_space c \<longleftrightarrow> code c \<in> {32, 9, 13, 10}"

definition is_quote :: "char \<Rightarrow> bool" where
  "is_quote c \<longleftrightarrow> code c \<in> {39, 34}"

definition is_backslash :: "char \<Rightarrow> bool" where
  "is_backslash c \<longleftrightarrow> code c = 92"

text \<open>
  One character at a time: the state, the reversed token so far and whether a quote was seen in it.
  \<open>None\<close> is the \<open>ValueError\<close> of an unclosed quotation or a trailing backslash.
\<close>

fun shlex_go :: "shlex_state \<Rightarrow> string \<Rightarrow> bool \<Rightarrow> string \<Rightarrow> string list option" where
  "shlex_go SSpace tok q [] = Some (if tok \<noteq> [] \<or> q then [rev tok] else [])"
| "shlex_go SWord tok q [] = Some (if tok \<noteq> [] \<or> q then [rev tok] else [])"
| "shlex_go (SQuote c) tok q [] = None"
| "shlex_go (SEscape st) tok q [] = None"
| "shlex_go SSpace tok q (x # xs) =
     (if is_shlex_space x
      then (if tok \<noteq> [] \<or> q then map_option ((#) (rev tok)) (shlex_go SSpace [] False xs)
            else shlex_go SSpace tok q xs)
      else if is_backslash x then shlex_go (SEscape SWord) tok q xs
      else if is_quote x then shlex_go (SQuote x) tok q xs
      else shlex_go SWord [x] q xs)"
| "shlex_go SWord tok q (x # xs) =
     (if is_shlex_space x
      then (if tok \<noteq> [] \<or> q then map_option ((#) (rev tok)) (shlex_go SSpace [] False xs)
            else shlex_go SSpace tok q xs)
      else if is_quote x then shlex_go (SQuote x) tok q xs
      else if is_backslash x then shlex_go (SEscape SWord) tok q xs
      else shlex_go SWord (x # tok) q xs)"
| "shlex_go (SQuote c) tok q (x # xs) =
     (if x = c then shlex_go SWord tok True xs
      else if is_backslash x \<and> code c = 34 then shlex_go (SEscape (SQuote c)) tok True xs
      else shlex_go (SQuote c) (x # tok) True xs)"
| "shlex_go (SEscape st) tok q (x # xs) =
     (case st of
        SQuote c \<Rightarrow> shlex_go st (if \<not> is_backslash x \<and> x \<noteq> c then x # char_of (92::nat) # tok
                               else x # tok) q xs
      | _ \<Rightarrow> shlex_go st (x # tok) q xs)"

definition shlex_split :: "string \<Rightarrow> string list option" where
  "shlex_split s = shlex_go SSpace [] False s"

section \<open>Numbers in text\<close>

fun digits_val :: "int \<Rightarrow> string \<Rightarrow> int" where
  "digits_val n [] = n"
| "digits_val n (c # cs) = digits_val (10 * n + digit_val c) cs"

text \<open>Digit groups separated by single underscores, as \<open>int\<close> and \<open>float\<close> accept them.\<close>

fun digit_groups :: "string \<Rightarrow> string option" where
  "digit_groups [] = None"
| "digit_groups [c] = (if is_digit c then Some [c] else None)"
| "digit_groups (c # d # ds) =
     (if \<not> is_digit c then None
      else if code d = 95 then map_option ((#) c) (digit_groups ds)
      else map_option ((#) c) (digit_groups (d # ds)))"

fun split_sign :: "string \<Rightarrow> bool \<times> string" where
  "split_sign [] = (False, [])"
| "split_sign (c # cs) =
     (if code c = 45 then (True, cs) else if code c = 43 then (False, cs) else (False, c # cs))"

definition py_int_of_string :: "string \<Rightarrow> int option" where
  \<comment> \<open>\<open>int(s)\<close>; \<open>None\<close> is its \<open>ValueError\<close>, also past the 4300-digit limit.\<close>
  "py_int_of_string s =
     (let (neg, ds) = split_sign (py_strip s) in
      case digit_groups ds of
        None \<Rightarrow> None
      | Some g \<Rightarrow> if 4300 < length g then None
                  else Some (if neg then - digits_val 0 g else digits_val 0 g))"

fun span_at :: "(char \<Rightarrow> bool) \<Rightarrow> string \<Rightarrow> string \<times> string" where
  "span_at p [] = ([], [])"
| "span_at p (c # cs) = (if p c then let (a, b) = span_at p cs in (c # a, b) else ([], c # cs))"

definition is_dig_or_us :: "char \<Rightarrow> bool" where
  "is_dig_or_us c \<longleftrightarrow> is_digit c \<or> code c = 95"

definition opt_groups :: "string \<Rightarrow> string option" where
  "opt_groups s = (if s = [] then Some [] else digit_groups s)"

definition pow10 :: "int \<Rightarrow> rat" where
  "pow10 e = (if 0 \<le> e then 10 ^ nat e else 1 / 10 ^ nat (- e))"

definition parse_exponent :: "string \<Rightarrow> int option" where
  "parse_exponent s =
     (case s of
        [] \<Rightarrow> Some 0
      | c # cs \<Rightarrow>
          if code c \<in> {101, 69}
          then (let (neg, ds) = split_sign cs in
                map_option (\<lambda>g. if neg then - digits_val 0 g else digits_val 0 g) (digit_groups ds))
          else None)"

definition parse_unsigned :: "string \<Rightarrow> rat option" where
  "parse_unsigned s =
     (let (ip, r1) = span_at is_dig_or_us s;
          (fp, r2) = (case r1 of c # cs \<Rightarrow> if code c = 46 then span_at is_dig_or_us cs else ([], r1)
                               | [] \<Rightarrow> ([], []))
      in if ip = [] \<and> fp = [] then None
         else case (opt_groups ip, opt_groups fp, parse_exponent r2) of
                (Some a, Some b, Some e) \<Rightarrow>
                  Some (of_int (digits_val 0 (a @ b)) * pow10 (e - int (length b)))
              | _ \<Rightarrow> None)"

definition neg_float :: "pyfloat \<Rightarrow> pyfloat" where
  "neg_float x = (case x of Fin r \<Rightarrow> Fin (- r) | PInf \<Rightarrow> NInf | NInf \<Rightarrow> PInf | NaN \<Rightarrow> NaN)"

text \<open>The finite range of a double: past it a literal is an infinity.\<close>

definition to_float :: "rat \<Rightarrow> pyfloat" where
  "to_float r = (if 2 ^ 1024 - 2 ^ 970 \<le> r then PInf
                 else if r \<le> - (2 ^ 1024 - 2 ^ 970) then NInf else Fin r)"

definition py_float_of_string :: "string \<Rightarrow> pyfloat option" where
  \<comment> \<open>\<open>float(s)\<close>; \<open>None\<close> is its \<open>ValueError\<close>.\<close>
  "py_float_of_string s =
     (let (neg, u) = split_sign (py_strip s); w = py_lower u;
          v = (if w = ''inf'' \<or> w = ''infinity'' then Some PInf
               else if w = ''nan'' then Some NaN
               else map_option to_float (parse_unsigned u))
      in if neg then map_option neg_float v else v)"

text \<open>
  \<open>Decimal(s)\<close>: white space is stripped and every underscore dropped before the grammar is
  applied; \<open>nan\<close> and \<open>snan\<close> may carry a digit payload. \<open>None\<close> is the
  \<open>InvalidOperation\<close> (an \<open>ArithmeticError\<close>) of a malformed literal.
\<close>

definition py_decimal_of_string :: "string \<Rightarrow> pyfloat option" where
  "py_decimal_of_string s =
     (let (neg, u) = split_sign (filter (\<lambda>c. code c \<noteq> 95) (py_strip s)); w = py_lower u;
          v = (if w = ''inf'' \<or> w = ''infinity'' then Some PInf
               else if starts_with ''nan'' w \<and> list_all is_digit (drop 3 w) then Some NaN
               else if starts_with ''snan'' w \<and> list_all is_digit (drop 4 w) then Some NaN
               else map_option Fin (parse_unsigned u))
      in if neg then map_option neg_float v else v)"

text \<open>Decimal digits of an integer, as \<open>str(n)\<close> and an f-string print it.\<close>

function nat_str_acc :: "nat \<Rightarrow> string \<Rightarrow> string" where
  "nat_str_acc n acc =
     (if n < 10 then char_of (48 + n) # acc
      else nat_str_acc (n div 10) (char_of (48 + n mod 10) # acc))"
  by pat_completeness auto
termination by (relation "measure fst") auto

declare nat_str_acc.simps [simp del]

definition nat_str :: "nat \<Rightarrow> string" where
  "nat_str n = nat_str_acc n []"

definition int_str :: "int \<Rightarrow> string" where
  "int_str i = (if i < 0 then CHR ''-'' # nat_str (nat (- i)) else nat_str (nat i))"

section \<open>Decimal text\<close>

lemma nat_str_acc_append: "nat_str_acc n acc = nat_str n @ acc"
proof (induction n arbitrary: acc rule: less_induct)
  case (less n)
  show ?case
  proof (cases "n < 10")
    case True
    then show ?thesis by (simp add: nat_str_def nat_str_acc.simps [of n])
  next
    case False
    then have d: "n div 10 < n" by simp
    show ?thesis
      using False less.IH [OF d, of "char_of (48 + n mod 10) # acc"] less.IH [OF d, of "[char_of (48 + n mod 10)]"]
      by (simp add: nat_str_def nat_str_acc.simps [of n])
  qed
qed

lemma nat_str_rec:
  "nat_str n = (if n < 10 then [char_of (48 + n)] else nat_str (n div 10) @ [char_of (48 + n mod 10)])"
  unfolding nat_str_def [of n] nat_str_acc.simps [of n "[]"] by (simp add: nat_str_acc_append)

lemma digit_of_nat: "n < 10 \<Longrightarrow> is_digit (char_of (48 + n)) \<and> digit_val (char_of (48 + n)) = int n"
  by (simp add: is_digit_def digit_val_def code_def)

lemma nat_str_digits: "list_all is_digit (nat_str n) \<and> nat_str n \<noteq> []"
proof (induction n rule: less_induct)
  case (less n)
  then show ?case
    using digit_of_nat [of n] digit_of_nat [of "n mod 10"] by (cases "n < 10") (simp_all add: nat_str_rec [of n])
qed

lemma digits_val_snoc: "digits_val a (xs @ [c]) = 10 * digits_val a xs + digit_val c"
  by (induction xs arbitrary: a) auto

lemma digits_val_nat_str: "digits_val 0 (nat_str n) = int n"
proof (induction n rule: less_induct)
  case (less n)
  have "10 * int (n div 10) + int (n mod 10) = int n" by presburger
  then show ?case
    using less digit_of_nat [of n] digit_of_nat [of "n mod 10"]
    by (cases "n < 10") (simp_all add: nat_str_rec [of n] digits_val_snoc)
qed

lemma digit_groups_digits: "list_all is_digit s \<Longrightarrow> s \<noteq> [] \<Longrightarrow> digit_groups s = Some s"
  by (induction s rule: digit_groups.induct) (auto simp: is_digit_def)

lemma digit_not_space: "is_digit c \<Longrightarrow> \<not> is_space c"
  by (auto simp: is_digit_def is_space_def)

lemma strip_digits: "list_all is_digit s \<Longrightarrow> py_strip s = s"
proof -
  assume d: "list_all is_digit s"
  have "dropWhile is_space t = t" if "list_all is_digit t" for t
    using that digit_not_space by (cases t) auto
  then show ?thesis using d by (simp add: py_strip_def lstrip_def rstrip_by_def list_all_rev)
qed

lemma int_of_nat_str: "length (nat_str n) \<le> 4300 \<Longrightarrow> py_int_of_string (nat_str n) = Some (int n)"
proof -
  assume l: "length (nat_str n) \<le> 4300"
  have d: "list_all is_digit (nat_str n)" "nat_str n \<noteq> []" using nat_str_digits by auto
  then have "split_sign (nat_str n) = (False, nat_str n)"
    by (cases "nat_str n") (auto simp: is_digit_def)
  then show ?thesis
    using l d by (simp add: py_int_of_string_def strip_digits digit_groups_digits digits_val_nat_str)
qed

lemma length_nat_str: "n < 10 ^ k \<Longrightarrow> 0 < k \<Longrightarrow> length (nat_str n) \<le> k"
proof (induction k arbitrary: n)
  case (Suc k)
  show ?case
  proof (cases "n < 10")
    case False
    then have "n div 10 < 10 ^ k" "0 < k" using Suc.prems by (auto intro: gr0I)
    then show ?thesis using Suc.IH [of "n div 10"] False by (simp add: nat_str_rec [of n])
  qed (simp add: nat_str_rec [of n])
qed simp

section \<open>Fixed-width numbers\<close>

definition zero_fill :: "nat \<Rightarrow> string \<Rightarrow> string" where
  \<comment> \<open>\<open>f"{n:0wd}"\<close> on the digits of a number that is not negative.\<close>
  "zero_fill n s = replicate (n - length s) (CHR ''0'') @ s"

lemma digits_val_append: "digits_val n (a @ b) = digits_val n a * 10 ^ length b + digits_val 0 b"
proof (induction b rule: rev_induct)
  case (snoc c b)
  then show ?case by (simp add: digits_val_snoc digits_val_snoc [of _ "a @ b", simplified] algebra_simps)
qed simp

lemma digits_val_zeros: "digits_val 0 (replicate k (CHR ''0'')) = 0"
  by (induction k) (simp_all add: digit_val_def code_def)

lemma zero_fill_facts:
  assumes "m < 10 ^ n" and "0 < n"
  shows "length (zero_fill n (nat_str m)) = n" and "list_all is_digit (zero_fill n (nat_str m))"
    and "digits_val 0 (zero_fill n (nat_str m)) = int m"
proof -
  have "length (nat_str m) \<le> n" by (rule length_nat_str [OF assms])
  then show "length (zero_fill n (nat_str m)) = n" by (simp add: zero_fill_def)
  show "list_all is_digit (zero_fill n (nat_str m))"
    using nat_str_digits [of m] by (auto simp: zero_fill_def list_all_iff is_digit_def code_def)
  show "digits_val 0 (zero_fill n (nat_str m)) = int m"
    by (simp add: zero_fill_def digits_val_append digits_val_zeros digits_val_nat_str)
qed

end
