(* ===== verification/Usage.thy ===== *)
theory Usage
  imports PyText
begin

text \<open>
  Token usage normalisation, \<open>cachepilot_core/usage.py\<close>: the canonical record, its
  non-negativity validator, the tolerant scalar conversions and \<open>UsageNormalizer.normalize\<close> for
  the Anthropic and the OpenAI-compatible dialects. The lemmas say what a normalised record can
  hold and exactly which payloads make the normaliser raise.
\<close>

record token_usage =
  prompt_tokens :: int
  completion_tokens :: int
  cache_read_tokens :: int
  cache_write_tokens :: int
  cost :: "flt option"

definition empty_usage :: token_usage where
  "empty_usage = \<lparr>prompt_tokens = 0, completion_tokens = 0, cache_read_tokens = 0,
     cache_write_tokens = 0, cost = None\<rparr>"

text \<open>
  The constructor with its validators: a negative count is rejected by \<open>_non_negative\<close>; a
  \<open>Decimal\<close> field accepts finite values only.
\<close>

definition non_negative :: "int \<Rightarrow> py_error + int" where
  "non_negative value = (if value < 0 then Inl ValidationError else Inr value)"

definition finite_cost :: "pyfloat option \<Rightarrow> py_error + flt option" where
  "finite_cost c = (case c of None \<Rightarrow> Inr None | Some (Fin r) \<Rightarrow> Inr (Some r)
                    | Some _ \<Rightarrow> Inl ValidationError)"

definition mk_usage :: "int \<Rightarrow> int \<Rightarrow> int \<Rightarrow> int \<Rightarrow> pyfloat option \<Rightarrow> py_error + token_usage" where
  "mk_usage p c r w cst =
     res_bind (non_negative p) (\<lambda>p. res_bind (non_negative c) (\<lambda>c.
     res_bind (non_negative r) (\<lambda>r. res_bind (non_negative w) (\<lambda>w.
     res_bind (finite_cost cst) (\<lambda>cst.
       Inr \<lparr>prompt_tokens = p, completion_tokens = c, cache_read_tokens = r,
            cache_write_tokens = w, cost = cst\<rparr>)))))"

section \<open>Scalar conversions\<close>

text \<open>
  \<open>_to_int\<close> catches \<open>TypeError\<close> and \<open>ValueError\<close>; the \<open>OverflowError\<close> of
  \<open>int(inf)\<close> is neither.
\<close>

fun to_int :: "json \<Rightarrow> py_error + int" where
  "to_int JNull = Inr 0"
| "to_int (JBool b) = Inr (if b then 1 else 0)"
| "to_int (JInt i) = Inr i"
| "to_int (JFloat (Fin r)) = Inr (trunc_rat r)"
| "to_int (JFloat PInf) = Inl OverflowError"
| "to_int (JFloat NInf) = Inl OverflowError"
| "to_int (JFloat NaN) = Inr 0"
| "to_int (JStr s) = Inr (opt_or (py_int_of_string s) 0)"
| "to_int (JArr xs) = Inr 0"
| "to_int (JObj kvs) = Inr 0"

fun to_decimal :: "json \<Rightarrow> pyfloat option" where
  "to_decimal JNull = None"
| "to_decimal (JBool b) = None"
| "to_decimal (JInt i) = Some (Fin (of_int i))"
| "to_decimal (JFloat x) = Some x"
| "to_decimal (JStr s) = py_decimal_of_string s"
| "to_decimal (JArr xs) = None"
| "to_decimal (JObj kvs) = None"

section \<open>The normaliser\<close>

definition normalize_anthropic :: "(string \<times> json) list \<Rightarrow> py_error + token_usage" where
  "normalize_anthropic usage =
     res_bind (to_int (json_field ''cache_read_input_tokens'' usage)) (\<lambda>read.
     res_bind (to_int (json_field ''cache_creation_input_tokens'' usage)) (\<lambda>write.
     res_bind (to_int (json_field ''input_tokens'' usage)) (\<lambda>inp.
     res_bind (to_int (json_field ''output_tokens'' usage)) (\<lambda>out.
       mk_usage (inp + read + write) out read write
         (to_decimal (json_field ''cost'' usage))))))"

definition details_cached :: "(string \<times> json) list \<Rightarrow> py_error + int" where
  "details_cached usage =
     (case json_field ''prompt_tokens_details'' usage of
        JObj details \<Rightarrow> to_int (json_field ''cached_tokens'' details)
      | _ \<Rightarrow> Inr 0)"

definition normalize_openai :: "(string \<times> json) list \<Rightarrow> py_error + token_usage" where
  "normalize_openai usage =
     res_bind (details_cached usage) (\<lambda>cached0.
     res_bind (if cached0 = 0 then to_int (json_field ''cache_read_input_tokens'' usage)
               else Inr cached0) (\<lambda>cached.
     res_bind (to_int (json_field ''cache_creation_input_tokens'' usage)) (\<lambda>write.
     res_bind (to_int (json_field ''prompt_tokens'' usage)) (\<lambda>p.
     res_bind (to_int (json_field ''completion_tokens'' usage)) (\<lambda>c.
       mk_usage p c cached write (to_decimal (json_field ''cost'' usage)))))))"

definition usage_of_payload :: "(string \<times> json) list \<Rightarrow> json" where
  \<comment> \<open>\<open>payload.get("usage", payload)\<close>: the default only applies when the key is absent.\<close>
  "usage_of_payload kvs = (case dget kvs ''usage'' of None \<Rightarrow> JObj kvs | Some v \<Rightarrow> v)"

definition normalize :: "json \<Rightarrow> string option \<Rightarrow> py_error + token_usage" where
  "normalize payload provider =
     (case payload of
        JObj kvs \<Rightarrow>
          (case usage_of_payload kvs of
             JObj usage \<Rightarrow>
               if py_lower (opt_or provider []) = ''anthropic'' then normalize_anthropic usage
               else normalize_openai usage
           | _ \<Rightarrow> Inr empty_usage)
      | _ \<Rightarrow> Inr empty_usage)"

section \<open>What a normalised record holds\<close>

definition wf_usage :: "token_usage \<Rightarrow> bool" where
  "wf_usage u \<longleftrightarrow> 0 \<le> prompt_tokens u \<and> 0 \<le> completion_tokens u \<and>
     0 \<le> cache_read_tokens u \<and> 0 \<le> cache_write_tokens u"

lemma non_negative_Inr [simp]: "non_negative v = Inr x \<longleftrightarrow> x = v \<and> 0 \<le> v"
  by (auto simp: non_negative_def)

lemma mk_usage_wf: "mk_usage p c r w cst = Inr u \<Longrightarrow> wf_usage u"
  by (auto simp: mk_usage_def wf_usage_def)

lemma mk_usage_fields:
  "mk_usage p c r w cst = Inr u \<Longrightarrow>
     prompt_tokens u = p \<and> completion_tokens u = c \<and> cache_read_tokens u = r \<and>
     cache_write_tokens u = w"
  by (auto simp: mk_usage_def)

lemma wf_empty_usage [simp]: "wf_usage empty_usage"
  by (simp add: wf_usage_def empty_usage_def)

lemma normalize_wf:
  assumes "normalize payload provider = Inr u"
  shows "wf_usage u"
proof -
  have "\<And>us. normalize_anthropic us = Inr u \<Longrightarrow> wf_usage u"
    by (auto simp: normalize_anthropic_def dest: mk_usage_wf)
  moreover have "\<And>us. normalize_openai us = Inr u \<Longrightarrow> wf_usage u"
    by (auto simp: normalize_openai_def dest: mk_usage_wf)
  ultimately show ?thesis
    using assms unfolding normalize_def by (auto split: json.splits if_splits)
qed

text \<open>
  The Anthropic dialect reports the uncached input apart, so the canonical prompt count is at least
  the cached portions it contains.
\<close>

lemma normalize_anthropic_covers_cached:
  assumes "normalize_anthropic us = Inr u"
    and "to_int (json_field ''input_tokens'' us) = Inr i" and "0 \<le> i"
  shows "cache_read_tokens u + cache_write_tokens u \<le> prompt_tokens u"
proof -
  from assms obtain rd wr out where
    "mk_usage (i + rd + wr) out rd wr (to_decimal (json_field ''cost'' us)) = Inr u"
    unfolding normalize_anthropic_def by auto
  from mk_usage_fields [OF this] assms(3) show ?thesis by simp
qed

text \<open>
  When does the normaliser raise? Not on a missing or badly typed field, but on a negative count, an
  infinite count and a cost that is not finite.
\<close>

definition count_ok :: "json \<Rightarrow> bool" where
  "count_ok v \<longleftrightarrow> (\<exists>n. to_int v = Inr n \<and> 0 \<le> n)"

definition cost_ok :: "json \<Rightarrow> bool" where
  "cost_ok v \<longleftrightarrow> (case to_decimal v of None \<Rightarrow> True | Some (Fin r) \<Rightarrow> True | Some _ \<Rightarrow> False)"

lemma finite_cost_Inr: "(\<exists>c. finite_cost (to_decimal v) = Inr c) \<longleftrightarrow> cost_ok v"
  by (auto simp: finite_cost_def cost_ok_def split: option.splits pyfloat.splits)

lemma normalize_anthropic_total:
  assumes "count_ok (json_field ''cache_read_input_tokens'' us)"
    and "count_ok (json_field ''cache_creation_input_tokens'' us)"
    and "count_ok (json_field ''input_tokens'' us)" and "count_ok (json_field ''output_tokens'' us)"
    and "cost_ok (json_field ''cost'' us)"
  shows "\<exists>u. normalize_anthropic us = Inr u"
proof -
  obtain c where "finite_cost (to_decimal (json_field ''cost'' us)) = Inr c"
    using assms(5) finite_cost_Inr by blast
  then show ?thesis
    using assms(1-4) unfolding count_ok_def normalize_anthropic_def mk_usage_def by auto
qed

lemma normalize_openai_iff:
  assumes "dget us ''prompt_tokens_details'' = None"
  shows "(\<exists>u. normalize_openai us = Inr u) \<longleftrightarrow>
    count_ok (json_field ''cache_read_input_tokens'' us) \<and>
    count_ok (json_field ''cache_creation_input_tokens'' us) \<and>
    count_ok (json_field ''prompt_tokens'' us) \<and> count_ok (json_field ''completion_tokens'' us) \<and>
    cost_ok (json_field ''cost'' us)"
proof -
  have d: "details_cached us = Inr 0" using assms by (simp add: details_cached_def)
  show ?thesis
    unfolding normalize_openai_def d mk_usage_def count_ok_def finite_cost_Inr [symmetric]
    by auto
qed

end
