(* ===== verification/Telemetry.thy ===== *)
theory Telemetry
  imports Usage
begin

text \<open>
  Outcome classification and the health aggregate, \<open>cachepilot_core/telemetry.py\<close>. A response is
  a confirmed hit only with provider evidence; the lemmas state that evidence, the exact partition
  of the outcomes and that the aggregate counts every observation once.
\<close>

datatype outcome = CONFIRMED_HIT | MISS_REBUILT | SUCCESS_UNVERIFIED | FAILED

definition TELEMETRY_KEYS :: "string list" where
  "TELEMETRY_KEYS = [''cache_read_tokens'', ''cache_read_input_tokens'',
     ''cache_creation_input_tokens'']"

definition TELEMETRY_DETAILS_KEYS :: "string list" where
  "TELEMETRY_DETAILS_KEYS = [''cached_tokens'']"

definition has_key :: "(string \<times> json) list \<Rightarrow> string \<Rightarrow> bool" where
  "has_key kvs k \<longleftrightarrow> dget kvs k \<noteq> None"

definition usage_has_cache_telemetry :: "json \<Rightarrow> bool" where
  "usage_has_cache_telemetry usage =
     (case usage of
        JObj kvs \<Rightarrow>
          if list_ex (has_key kvs) TELEMETRY_KEYS then True
          else (case json_field ''prompt_tokens_details'' kvs of
                  JObj details \<Rightarrow> list_ex (has_key details) TELEMETRY_DETAILS_KEYS
                | _ \<Rightarrow> False)
      | _ \<Rightarrow> False)"

definition classify_outcome :: "int \<Rightarrow> bool \<Rightarrow> int \<Rightarrow> outcome" where
  "classify_outcome status_code telemetry_present cache_read =
     (if \<not> (200 \<le> status_code \<and> status_code < 300) then FAILED
      else if telemetry_present then (if 0 < cache_read then CONFIRMED_HIT else MISS_REBUILT)
      else SUCCESS_UNVERIFIED)"

section \<open>Health aggregate\<close>

record health_stats =
  total :: nat
  confirmed_hits :: nat
  misses :: nat
  unverified :: nat
  failed :: nat
  churn_events :: nat
  route_changes :: nat

definition empty_stats :: health_stats where
  "empty_stats = \<lparr>total = 0, confirmed_hits = 0, misses = 0, unverified = 0, failed = 0,
     churn_events = 0, route_changes = 0\<rparr>"

definition telemetry_observed :: "health_stats \<Rightarrow> nat" where
  "telemetry_observed s = confirmed_hits s + misses s"

definition hit_rate :: "health_stats \<Rightarrow> flt option" where
  "hit_rate s = (let observed = telemetry_observed s in
     if observed \<le> 0 then None else Some (of_nat (confirmed_hits s) / of_nat observed))"

fun stats_record :: "health_stats \<Rightarrow> outcome \<Rightarrow> health_stats" where
  "stats_record s CONFIRMED_HIT = s\<lparr>total := total s + 1, confirmed_hits := confirmed_hits s + 1\<rparr>"
| "stats_record s MISS_REBUILT = s\<lparr>total := total s + 1, misses := misses s + 1\<rparr>"
| "stats_record s SUCCESS_UNVERIFIED = s\<lparr>total := total s + 1, unverified := unverified s + 1\<rparr>"
| "stats_record s FAILED = s\<lparr>total := total s + 1, failed := failed s + 1\<rparr>"

definition from_outcomes :: "outcome list \<Rightarrow> health_stats" where
  "from_outcomes os = foldl stats_record empty_stats os"

section \<open>Lemmas\<close>

lemma classify_outcome_hit_iff:
  "classify_outcome st tel r = CONFIRMED_HIT \<longleftrightarrow> 200 \<le> st \<and> st < 300 \<and> tel \<and> 0 < r"
  by (auto simp: classify_outcome_def)

lemma classify_outcome_failed_iff:
  "classify_outcome st tel r = FAILED \<longleftrightarrow> st < 200 \<or> 300 \<le> st"
  by (auto simp: classify_outcome_def)

lemma classify_outcome_unverified_iff:
  "classify_outcome st tel r = SUCCESS_UNVERIFIED \<longleftrightarrow> 200 \<le> st \<and> st < 300 \<and> \<not> tel"
  by (auto simp: classify_outcome_def)

lemma foldl_stats:
  fixes os s
  defines "t \<equiv> foldl stats_record s os"
  shows "total t = total s + length os"
    and "confirmed_hits t = confirmed_hits s + count_list os CONFIRMED_HIT"
    and "misses t = misses s + count_list os MISS_REBUILT"
    and "unverified t = unverified s + count_list os SUCCESS_UNVERIFIED"
    and "failed t = failed s + count_list os FAILED"
proof -
  have "total (foldl stats_record s os) = total s + length os \<and>
    confirmed_hits (foldl stats_record s os) = confirmed_hits s + count_list os CONFIRMED_HIT \<and>
    misses (foldl stats_record s os) = misses s + count_list os MISS_REBUILT \<and>
    unverified (foldl stats_record s os) = unverified s + count_list os SUCCESS_UNVERIFIED \<and>
    failed (foldl stats_record s os) = failed s + count_list os FAILED"
  proof (induction os arbitrary: s)
    case (Cons a os)
    then show ?case by (cases a) simp_all
  qed simp
  then show "total t = total s + length os"
    "confirmed_hits t = confirmed_hits s + count_list os CONFIRMED_HIT"
    "misses t = misses s + count_list os MISS_REBUILT"
    "unverified t = unverified s + count_list os SUCCESS_UNVERIFIED"
    "failed t = failed s + count_list os FAILED"
    by (simp_all add: t_def)
qed

lemma outcome_counts_length:
  "count_list os CONFIRMED_HIT + count_list os MISS_REBUILT + count_list os SUCCESS_UNVERIFIED
     + count_list os FAILED = length os"
proof (induction os)
  case (Cons a os)
  then show ?case by (cases a) simp_all
qed simp

text \<open>
  The health aggregate counts every observed outcome exactly once, and the hit rate is the
  fraction of confirmed hits among the outcomes that carried telemetry, a number between 0 and 1
  that is absent exactly when no outcome carried telemetry.
\<close>

theorem health_stats_partition:
  "total (from_outcomes os) = length os \<and>
   confirmed_hits (from_outcomes os) + misses (from_outcomes os) + unverified (from_outcomes os)
     + failed (from_outcomes os) = length os \<and>
   (case hit_rate (from_outcomes os) of
      None \<Rightarrow> set os \<inter> {CONFIRMED_HIT, MISS_REBUILT} = {}
    | Some r \<Rightarrow> set os \<inter> {CONFIRMED_HIT, MISS_REBUILT} \<noteq> {} \<and> 0 \<le> r \<and> r \<le> 1)"
proof -
  have f: "total (from_outcomes os) = length os"
    "confirmed_hits (from_outcomes os) = count_list os CONFIRMED_HIT"
    "misses (from_outcomes os) = count_list os MISS_REBUILT"
    "unverified (from_outcomes os) = count_list os SUCCESS_UNVERIFIED"
    "failed (from_outcomes os) = count_list os FAILED"
    by (simp_all add: from_outcomes_def foldl_stats empty_stats_def)
  have frac: "of_nat a / (of_nat a + of_nat b) \<le> (1::rat)" for a b :: nat
    by (simp add: divide_le_eq)
  show ?thesis
    using outcome_counts_length [of os] frac
    by (auto simp: f hit_rate_def telemetry_observed_def Let_def count_list_0_iff
        split: if_splits)
qed

end
