(* ===== verification/Pricing.thy ===== *)
theory Pricing
  imports Usage
begin

text \<open>
  Cost estimation and cost resolution, \<open>cachepilot_core/pricing.py\<close>. The lemmas give the cost of a
  cold and of a cached resume in closed form, the avoidable loss between them, and the priority order
  of the cost sources.
\<close>

record pricing_table =
  input_per_mtok :: flt
  output_per_mtok :: flt
  cache_read_per_mtok :: flt
  cache_write_per_mtok :: flt

definition valid_pricing :: "pricing_table \<Rightarrow> bool" where
  \<comment> \<open>The \<open>ge=0\<close> constraints every constructed table satisfies.\<close>
  "valid_pricing p \<longleftrightarrow> 0 \<le> input_per_mtok p \<and> 0 \<le> output_per_mtok p \<and>
     0 \<le> cache_read_per_mtok p \<and> 0 \<le> cache_write_per_mtok p"

definition PER_MTK :: flt where
  "PER_MTK = 1000000"

definition estimate_cost :: "token_usage \<Rightarrow> pricing_table \<Rightarrow> flt" where
  "estimate_cost usage pricing =
     (let uncached = max (prompt_tokens usage - cache_read_tokens usage - cache_write_tokens usage) 0;
          raw = of_int uncached * input_per_mtok pricing
              + of_int (cache_read_tokens usage) * cache_read_per_mtok pricing
              + of_int (cache_write_tokens usage) * cache_write_per_mtok pricing
              + of_int (completion_tokens usage) * output_per_mtok pricing
      in raw / PER_MTK)"

definition estimate_resume_costs :: "int \<Rightarrow> pricing_table \<Rightarrow> int \<Rightarrow> py_error + flt \<times> flt" where
  "estimate_resume_costs prefix pricing completion =
     res_bind (if 0 < cache_write_per_mtok pricing then mk_usage prefix completion 0 prefix None
               else mk_usage prefix completion 0 0 None) (\<lambda>cold.
     res_bind (mk_usage prefix completion prefix 0 None) (\<lambda>cached.
       Inr (estimate_cost cold pricing, estimate_cost cached pricing)))"

section \<open>Cost resolution\<close>

datatype cost_source = PROVIDER_RETURNED | LIVE_PRICING | CONFIG_OVERRIDE | UNKNOWN

record cost_resolution =
  amount :: "flt option"
  source :: cost_source

definition is_known :: "cost_resolution \<Rightarrow> bool" where
  "is_known r \<longleftrightarrow> amount r \<noteq> None \<and> source r \<noteq> UNKNOWN"

definition resolve_cost ::
  "token_usage \<Rightarrow> pricing_table option \<Rightarrow> flt option \<Rightarrow> cost_resolution" where
  "resolve_cost usage pricing override =
     (case cost usage of
        Some c \<Rightarrow> \<lparr>amount = Some c, source = PROVIDER_RETURNED\<rparr>
      | None \<Rightarrow>
          (case pricing of
             Some p \<Rightarrow> \<lparr>amount = Some (estimate_cost usage p), source = LIVE_PRICING\<rparr>
           | None \<Rightarrow>
               (case override of
                  Some c \<Rightarrow> \<lparr>amount = Some c, source = CONFIG_OVERRIDE\<rparr>
                | None \<Rightarrow> \<lparr>amount = None, source = UNKNOWN\<rparr>)))"

declare estimate_cost_def [cost_simps] estimate_resume_costs_def [cost_simps] PER_MTK_def [cost_simps]
  mk_usage_def [cost_simps] non_negative_def [cost_simps] finite_cost_def [cost_simps]

section \<open>Lemmas\<close>

lemma estimate_cost_nonneg:
  "wf_usage u \<Longrightarrow> valid_pricing p \<Longrightarrow> 0 \<le> estimate_cost u p"
  by (auto simp: estimate_cost_def wf_usage_def valid_pricing_def PER_MTK_def Let_def
      intro!: divide_nonneg_nonneg add_nonneg_nonneg mult_nonneg_nonneg)

lemma estimate_resume_costs_error_iff:
  "(\<exists>e. estimate_resume_costs n p c = Inl e) \<longleftrightarrow> n < 0 \<or> c < 0"
  by (auto simp: cost_simps)

lemma estimate_resume_costs_eq:
  assumes "0 \<le> n" and "0 \<le> c"
  shows "estimate_resume_costs n p c =
    Inr ((of_int n * (if 0 < cache_write_per_mtok p then cache_write_per_mtok p
                      else input_per_mtok p) + of_int c * output_per_mtok p) / PER_MTK,
         (of_int n * cache_read_per_mtok p + of_int c * output_per_mtok p) / PER_MTK)"
  using assms by (simp add: cost_simps Let_def)

text \<open>The avoidable loss does not depend on the completion: its cost is on both sides.\<close>

lemma avoidable_loss_eq:
  assumes "estimate_resume_costs n p c = Inr (cold, cached)"
  shows "cold - cached = of_int n * ((if 0 < cache_write_per_mtok p then cache_write_per_mtok p
           else input_per_mtok p) - cache_read_per_mtok p) / PER_MTK"
proof -
  have nn: "\<not> (n < 0 \<or> c < 0)" using assms estimate_resume_costs_error_iff by (metis Inr_not_Inl)
  from assms estimate_resume_costs_eq [of n c p] nn show ?thesis
    by (auto simp: PER_MTK_def field_simps)
qed

text \<open>
  Resolving the cost of a prefix never fails for non-negative token counts, and a cold resume is
  priced strictly above a cached one exactly when the rate that a cold prefix pays (the cache-write
  rate, or the plain input rate when writes are free) exceeds the cache-read rate. So a provider
  with free cache writes still yields a positive avoidable loss.
\<close>

theorem resume_costs_avoidable_loss:
  assumes "0 < n" and "0 \<le> c"
  shows "\<exists>cold cached. estimate_resume_costs n p c = Inr (cold, cached) \<and>
    (cached < cold \<longleftrightarrow>
       cache_read_per_mtok p <
         (if 0 < cache_write_per_mtok p then cache_write_per_mtok p else input_per_mtok p))"
proof -
  obtain cold cached where e: "estimate_resume_costs n p c = Inr (cold, cached)"
    using estimate_resume_costs_eq [of n c p] assms by auto
  have "cached < cold \<longleftrightarrow> 0 < cold - cached" by simp
  also have "\<dots> \<longleftrightarrow> 0 < (if 0 < cache_write_per_mtok p then cache_write_per_mtok p
           else input_per_mtok p) - cache_read_per_mtok p"
    unfolding avoidable_loss_eq [OF e] using assms(1) by (simp add: PER_MTK_def zero_less_mult_iff)
  finally show ?thesis using e by auto
qed

definition free_writes_pricing :: pricing_table where
  "free_writes_pricing = \<lparr>input_per_mtok = 3, output_per_mtok = 15, cache_read_per_mtok = 3 / 10,
     cache_write_per_mtok = 0\<rparr>"

theorem resume_costs_avoidable_loss_witness:
  "\<exists>cold cached. estimate_resume_costs 1000 free_writes_pricing 0 = Inr (cold, cached) \<and> cached < cold"
  using resume_costs_avoidable_loss [of 1000 0 free_writes_pricing]
  by (auto simp: free_writes_pricing_def)

lemma resolve_cost_known_iff:
  "is_known (resolve_cost u p ov) \<longleftrightarrow> cost u \<noteq> None \<or> p \<noteq> None \<or> ov \<noteq> None"
  by (auto simp: resolve_cost_def is_known_def split: option.splits)

lemma resolve_cost_provider_first: "cost u = Some c \<Longrightarrow> amount (resolve_cost u p ov) = Some c"
  by (simp add: resolve_cost_def)

end
