(* ===== verification/Economics.thy ===== *)
theory Economics
  imports Pricing
begin

text \<open>
  The economic controller, \<open>cachepilot_core/economics.py\<close>: one warm decision with its explainable
  breakdown. The lemmas characterise each action by the code's guards and bound what repeated warming
  can spend. The reason texts of the source are the constructors of \<open>warm_reason\<close>.
\<close>

datatype warm_action = WARM | ECONOMIC_STOP | SKIP_UNKNOWN_PRICING | SKIP_NO_CONTINUATION
  | SKIP_NOT_ECONOMIC

datatype warm_reason = Pricing_unknown | Zero_continuation | No_avoidable_loss
  | Loss_below_next_cost | Budget_exhausted | Savings_below_minimum | Due_and_positive

record economic_config =
  enabled :: bool
  budget_ratio :: flt
  safety_margin :: flt
  minimum_expected_savings :: flt

definition valid_economic_config :: "economic_config \<Rightarrow> bool" where
  "valid_economic_config c \<longleftrightarrow> 0 < budget_ratio c \<and> budget_ratio c \<le> 1 \<and> 0 \<le> safety_margin c \<and>
     0 \<le> minimum_expected_savings c"

definition default_economic_config :: economic_config where
  "default_economic_config = \<lparr>enabled = True, budget_ratio = 7 / 10, safety_margin = 0,
     minimum_expected_savings = 0\<rparr>"

record warm_decision =
  action :: warm_action
  reason :: warm_reason
  d_resume_probability :: flt
  expected_avoidable_loss :: flt
  expected_value :: flt
  d_next_warm_cost :: flt
  d_cumulative_warm_cost :: flt
  max_warm_budget :: flt
  remaining_budget :: flt
  d_safety_margin :: flt

definition should_warm :: "warm_decision \<Rightarrow> bool" where
  "should_warm d \<longleftrightarrow> action d = WARM"

definition decision ::
  "economic_config \<Rightarrow> warm_action \<Rightarrow> warm_reason \<Rightarrow> flt \<Rightarrow> flt \<Rightarrow> flt \<Rightarrow> flt \<Rightarrow> flt \<Rightarrow> flt \<Rightarrow> warm_decision"
where
  "decision cfg act rsn prob avoidable expected nxt cumulative margin =
     (let max_budget = expected * budget_ratio cfg in
      \<lparr>action = act, reason = rsn, d_resume_probability = prob,
       expected_avoidable_loss = avoidable, expected_value = expected, d_next_warm_cost = nxt,
       d_cumulative_warm_cost = cumulative, max_warm_budget = max_budget,
       remaining_budget = max_budget - cumulative, d_safety_margin = margin\<rparr>)"

definition evaluate ::
  "economic_config \<Rightarrow> flt \<Rightarrow> flt \<Rightarrow> flt \<Rightarrow> flt \<Rightarrow> flt \<Rightarrow> bool \<Rightarrow> warm_decision" where
  "evaluate cfg cold_resume_cost cached_resume_cost next_cost cumulative prob pricing_known =
     (let margin = safety_margin cfg in
      if \<not> pricing_known then
        decision cfg SKIP_UNKNOWN_PRICING Pricing_unknown prob 0 0 next_cost cumulative margin
      else if prob \<le> 0 then
        decision cfg SKIP_NO_CONTINUATION Zero_continuation prob 0 0 next_cost cumulative margin
      else
        let avoidable = cold_resume_cost - cached_resume_cost in
        if avoidable \<le> 0 then
          decision cfg SKIP_NOT_ECONOMIC No_avoidable_loss prob avoidable 0 next_cost cumulative margin
        else
          let expected = prob * avoidable;
              max_budget = expected * budget_ratio cfg;
              remaining = max_budget - cumulative in
          if expected \<le> next_cost + safety_margin cfg then
            decision cfg SKIP_NOT_ECONOMIC Loss_below_next_cost prob avoidable expected next_cost
              cumulative margin
          else if remaining \<le> next_cost then
            decision cfg ECONOMIC_STOP Budget_exhausted prob avoidable expected next_cost cumulative
              margin
          else
            let net_savings = expected - (cumulative + next_cost) in
            if net_savings < minimum_expected_savings cfg then
              decision cfg SKIP_NOT_ECONOMIC Savings_below_minimum prob avoidable expected next_cost
                cumulative margin
            else
              decision cfg WARM Due_and_positive prob avoidable expected next_cost cumulative margin)"

definition evaluate_resume ::
  "economic_config \<Rightarrow> int \<Rightarrow> pricing_table \<Rightarrow> flt \<Rightarrow> flt \<Rightarrow> flt \<Rightarrow> int \<Rightarrow> bool \<Rightarrow> py_error + warm_decision"
where
  "evaluate_resume cfg prefix pricing prob next_cost cumulative completion pricing_known =
     res_bind (estimate_resume_costs prefix pricing completion) (\<lambda>(cold, cached).
       Inr (evaluate cfg cold cached next_cost cumulative prob pricing_known))"

declare evaluate_def [cost_simps] decision_def [cost_simps] should_warm_def [cost_simps]

section \<open>What each action means\<close>

lemma evaluate_warm_iff:
  "should_warm (evaluate cfg cold cached nxt cum prob known) \<longleftrightarrow>
     known \<and> 0 < prob \<and> cached < cold \<and>
     nxt + safety_margin cfg < prob * (cold - cached) \<and>
     cum + nxt < prob * (cold - cached) * budget_ratio cfg \<and>
     minimum_expected_savings cfg \<le> prob * (cold - cached) - (cum + nxt)"
  by (auto simp: cost_simps Let_def algebra_simps)

lemma evaluate_stop_iff:
  "action (evaluate cfg cold cached nxt cum prob known) = ECONOMIC_STOP \<longleftrightarrow>
     known \<and> 0 < prob \<and> cached < cold \<and>
     nxt + safety_margin cfg < prob * (cold - cached) \<and>
     prob * (cold - cached) * budget_ratio cfg - cum \<le> nxt"
  by (auto simp: cost_simps Let_def)

lemma evaluate_breakdown:
  fixes cfg cold cached nxt cum prob known
  defines "d \<equiv> evaluate cfg cold cached nxt cum prob known"
  shows "max_warm_budget d = expected_value d * budget_ratio cfg"
    and "remaining_budget d = max_warm_budget d - d_cumulative_warm_cost d"
    and "d_cumulative_warm_cost d = cum" and "d_next_warm_cost d = nxt"
    and "d_safety_margin d = safety_margin cfg"
  by (simp_all add: d_def cost_simps Let_def)


section \<open>Repeated warming is bounded\<close>

text \<open>
  The scheduler warms again and again while the decision is WARM; each warm adds its cost to the
  cumulative cost. \<open>warm_loop\<close> runs the decisions over the costs the warms really had and returns
  the warms it allowed and the cumulative cost at the end.
\<close>

fun warm_loop ::
  "economic_config \<Rightarrow> flt \<Rightarrow> flt \<Rightarrow> flt \<Rightarrow> flt \<Rightarrow> bool \<Rightarrow> flt \<Rightarrow> flt list \<Rightarrow> nat \<times> flt" where
  "warm_loop cfg cold cached nxt prob known cum [] = (0, cum)"
| "warm_loop cfg cold cached nxt prob known cum (paid # costs) =
     (if should_warm (evaluate cfg cold cached nxt cum prob known)
      then let (n, c) = warm_loop cfg cold cached nxt prob known (cum + paid) costs in (Suc n, c)
      else (0, cum))"

lemma warm_loop_budget:
  assumes "\<forall>paid \<in> set costs. paid \<le> nxt"
    and "warm_loop cfg cold cached nxt prob known cum costs = (n, c)"
  shows "c \<le> max cum (prob * (cold - cached) * budget_ratio cfg)"
  using assms
proof (induction costs arbitrary: cum n c)
  case (Cons paid costs)
  show ?case
  proof (cases "should_warm (evaluate cfg cold cached nxt cum prob known)")
    case True
    obtain n' c' where r: "warm_loop cfg cold cached nxt prob known (cum + paid) costs = (n', c')"
      by fastforce
    have "cum + paid \<le> prob * (cold - cached) * budget_ratio cfg"
      using True Cons.prems(1) by (simp add: evaluate_warm_iff)
    moreover have "c' \<le> max (cum + paid) (prob * (cold - cached) * budget_ratio cfg)"
      using Cons.IH [OF _ r] Cons.prems(1) by simp
    ultimately show ?thesis using r Cons.prems(2) True by auto
  qed (use Cons.prems in auto)
qed simp

lemma warm_loop_spent:
  assumes "\<forall>paid \<in> set costs. floor_cost \<le> paid"
    and "warm_loop cfg cold cached nxt prob known cum costs = (n, c)"
  shows "cum + of_nat n * floor_cost \<le> c"
  using assms
proof (induction costs arbitrary: cum n c)
  case (Cons paid costs)
  show ?case
  proof (cases "should_warm (evaluate cfg cold cached nxt cum prob known)")
    case True
    obtain n' c' where r: "warm_loop cfg cold cached nxt prob known (cum + paid) costs = (n', c')"
      by fastforce
    have "cum + paid + of_nat n' * floor_cost \<le> c'"
      using Cons.IH [OF _ r] Cons.prems(1) by simp
    then show ?thesis using r Cons.prems True by (auto simp: algebra_simps)
  qed (use Cons.prems in auto)
qed simp



end
