(* ===== verification/RouteAffinity.thy ===== *)
theory RouteAffinity
  imports Pricing
begin

text \<open>
  Economic route affinity, \<open>cachepilot_core/route_affinity.py\<close>: the pinning gate and the
  lease-scoped registry. The clock is an argument. The lemmas say when a pin is allowed and that a
  registry entry is temporary, is dropped on a generation reset and is reversible.
\<close>

record affinity_config =
  aff_enabled :: bool
  aff_safety_margin :: flt

record affinity_decision =
  apply_pin :: bool
  expected_savings :: flt
  extra_route_cost :: flt
  net_benefit :: flt
  aff_margin :: flt

definition affinity_evaluate ::
  "affinity_config \<Rightarrow> flt \<Rightarrow> flt \<Rightarrow> flt \<Rightarrow> flt option \<Rightarrow> affinity_decision" where
  "affinity_evaluate cfg savings extra prob margin_opt =
     (let expected = savings * max 0 (min 1 prob);
          margin = opt_or margin_opt (aff_safety_margin cfg)
      in \<lparr>apply_pin = extra + margin < expected, expected_savings = expected,
          extra_route_cost = extra, net_benefit = expected - extra, aff_margin = margin\<rparr>)"

definition affinity_evaluate_resume ::
  "affinity_config \<Rightarrow> int \<Rightarrow> pricing_table \<Rightarrow> flt \<Rightarrow> flt \<Rightarrow> int \<Rightarrow> flt option \<Rightarrow>
     py_error + affinity_decision" where
  "affinity_evaluate_resume cfg prefix pricing extra prob completion margin_opt =
     res_bind (estimate_resume_costs prefix pricing completion) (\<lambda>(cold, cached).
       Inr (affinity_evaluate cfg (cold - cached) extra prob margin_opt))"

section \<open>The registry\<close>

record affinity_entry =
  aff_lease_id :: string
  aff_route :: string
  expires_at :: flt
  aff_generation :: int

type_synonym affinity_registry = "(string, affinity_entry) dict"

definition aff_set ::
  "affinity_registry \<Rightarrow> string \<Rightarrow> string \<Rightarrow> flt \<Rightarrow> int \<Rightarrow> affinity_registry" where
  "aff_set reg lid route expires gen =
     dset reg lid \<lparr>aff_lease_id = lid, aff_route = route, expires_at = expires,
                     aff_generation = gen\<rparr>"

definition active_route_for ::
  "affinity_registry \<Rightarrow> flt \<Rightarrow> string \<Rightarrow> int \<Rightarrow> affinity_registry \<times> string option" where
  "active_route_for reg now lid gen =
     (case dget reg lid of
        None \<Rightarrow> (reg, None)
      | Some entry \<Rightarrow>
          if expires_at entry \<le> now \<or> gen < aff_generation entry then (dpop reg lid, None)
          else (reg, Some (aff_route entry)))"

definition generation_for :: "affinity_registry \<Rightarrow> string \<Rightarrow> int option" where
  "generation_for reg lid = map_option aff_generation (dget reg lid)"

definition aff_clear :: "affinity_registry \<Rightarrow> string \<Rightarrow> affinity_registry" where
  "aff_clear reg lid = dpop reg lid"

definition aff_prune :: "affinity_registry \<Rightarrow> string set \<Rightarrow> affinity_registry" where
  "aff_prune reg known = foldl (\<lambda>r lid. if lid \<notin> known then dpop r lid else r) reg (map fst reg)"

section \<open>Lemmas\<close>

lemma affinity_apply_iff:
  "apply_pin (affinity_evaluate cfg savings extra prob m) \<longleftrightarrow>
     extra + opt_or m (aff_safety_margin cfg) < savings * max 0 (min 1 prob)"
  by (simp add: affinity_evaluate_def Let_def)

lemma affinity_never_without_continuation:
  assumes "prob \<le> 0" and "0 \<le> extra" and "0 \<le> aff_safety_margin cfg"
  shows "\<not> apply_pin (affinity_evaluate cfg savings extra prob None)"
  using assms by (simp add: affinity_apply_iff max_def min_def)

lemma active_route_for_set [simp]:
  "active_route_for (aff_set reg lid route expires gen) now lid g =
     (if expires \<le> now \<or> g < gen then (dpop (aff_set reg lid route expires gen) lid, None)
      else (aff_set reg lid route expires gen, Some route))"
  by (simp add: active_route_for_def aff_set_def)

lemma active_route_for_other:
  assumes "active_route_for reg now lid g = (reg', r)" and "lid' \<noteq> lid"
  shows "dget reg' lid' = dget reg lid'"
  using assms by (auto simp: active_route_for_def split: option.splits if_splits)

lemma foldl_prune_dget:
  "dget (foldl (\<lambda>r l. if l \<notin> known then dpop r l else r) reg ls) lid =
     (if lid \<in> set ls \<and> lid \<notin> known then None else dget reg lid)"
  by (induction ls arbitrary: reg) auto

lemma aff_prune_dget:
  "dget (aff_prune reg known) lid = (if lid \<in> known then dget reg lid else None)"
  by (auto simp: aff_prune_def foldl_prune_dget dget_None_iff)

text \<open>
  A pin is temporary and reversible. Whatever the registry held, after a pin was set the lookup
  gives it back only before its expiry and at a generation not below the pin's; a failed lookup,
  a clear and a prune without the lease each remove the entry, and none of them touches another
  lease's entry.
\<close>

theorem affinity_temporary_reversible:
  fixes reg lid route expires gen now g known
  defines "reg1 \<equiv> aff_set reg lid route expires gen"
  shows "snd (active_route_for reg1 now lid g) = (if now < expires \<and> gen \<le> g then Some route else None) \<and>
    (now < expires \<and> gen \<le> g \<or> generation_for (fst (active_route_for reg1 now lid g)) lid = None) \<and>
    generation_for (aff_clear reg1 lid) lid = None \<and>
    generation_for (aff_prune reg1 known) lid = (if lid \<in> known then Some gen else None) \<and>
    (lid' = lid \<or>
      dget (fst (active_route_for reg1 now lid g)) lid' = dget reg lid' \<and>
      dget (aff_clear reg1 lid) lid' = dget reg lid')"
  unfolding reg1_def
  by (auto simp: generation_for_def aff_clear_def aff_prune_dget aff_set_def active_route_for_def)

end
