(* ===== verification/Hashing.thy ===== *)
theory Hashing
  imports PyText "HOL-Library.Word" "HOL-Library.List_Lexorder"
begin

unbundle bit_operations_syntax

text \<open>
  What the code uses of \<open>str.encode\<close>, \<open>hashlib\<close> and \<open>json.dumps\<close>: UTF-8 for code points
  below 256, SHA-256 (FIPS 180-4, executable on 32-bit words) with its hexadecimal digest, and the
  canonical serialisation with sorted keys and compact separators. Collision resistance is not
  assumed anywhere: a statement that needs it names the colliding pair instead.
\<close>

type_synonym byte = "8 word"
type_synonym w32 = "32 word"

section \<open>SHA-256\<close>

definition sha_k :: "w32 list" where
  "sha_k = [
     1116352408, 1899447441, 3049323471, 3921009573, 961987163, 1508970993, 2453635748,
     2870763221, 3624381080, 310598401, 607225278, 1426881987, 1925078388, 2162078206, 2614888103,
     3248222580, 3835390401, 4022224774, 264347078, 604807628, 770255983, 1249150122, 1555081692,
     1996064986, 2554220882, 2821834349, 2952996808, 3210313671, 3336571891, 3584528711,
     113926993, 338241895, 666307205, 773529912, 1294757372, 1396182291, 1695183700, 1986661051,
     2177026350, 2456956037, 2730485921, 2820302411, 3259730800, 3345764771, 3516065817,
     3600352804, 4094571909, 275423344, 430227734, 506948616, 659060556, 883997877, 958139571,
     1322822218, 1537002063, 1747873779, 1955562222, 2024104815, 2227730452, 2361852424,
     2428436474, 2756734187, 3204031479, 3329325298]"

definition sha_h0 :: "w32 list" where
  "sha_h0 = [
     1779033703, 3144134277, 1013904242, 2773480762, 1359893119, 2600822924, 528734635, 1541459225]"

definition be32 :: "byte list \<Rightarrow> w32" where
  "be32 bs = foldl (\<lambda>acc b. push_bit 8 acc OR ucast b) 0 bs"

definition unbe32 :: "w32 \<Rightarrow> byte list" where
  "unbe32 w = [ucast (drop_bit 24 w), ucast (drop_bit 16 w), ucast (drop_bit 8 w), ucast w]"

definition be64_len :: "nat \<Rightarrow> byte list" where
  "be64_len n = map (\<lambda>i. word_of_int (int n div 256 ^ i)) [7, 6, 5, 4, 3, 2, 1, 0]"

definition sha_pad :: "byte list \<Rightarrow> byte list" where
  "sha_pad m = m @ [0x80] @ replicate ((119 - length m mod 64) mod 64) 0 @ be64_len (8 * length m)"

fun chunks :: "nat \<Rightarrow> nat \<Rightarrow> 'a list \<Rightarrow> 'a list list" where
  "chunks 0 n xs = []"
| "chunks (Suc k) n xs = take n xs # chunks k n (drop n xs)"

definition rotr :: "nat \<Rightarrow> w32 \<Rightarrow> w32" where
  "rotr n x = drop_bit n x OR push_bit (32 - n) x"

definition ssig0 :: "w32 \<Rightarrow> w32" where
  "ssig0 x = rotr 7 x XOR rotr 18 x XOR drop_bit 3 x"

definition ssig1 :: "w32 \<Rightarrow> w32" where
  "ssig1 x = rotr 17 x XOR rotr 19 x XOR drop_bit 10 x"

definition bsig0 :: "w32 \<Rightarrow> w32" where
  "bsig0 x = rotr 2 x XOR rotr 13 x XOR rotr 22 x"

definition bsig1 :: "w32 \<Rightarrow> w32" where
  "bsig1 x = rotr 6 x XOR rotr 11 x XOR rotr 25 x"

fun sha_extend :: "nat \<Rightarrow> w32 list \<Rightarrow> w32 list" where
  \<comment> \<open>The schedule is kept newest first.\<close>
  "sha_extend 0 w = w"
| "sha_extend (Suc k) w =
     sha_extend k ((ssig1 (w ! 1) + w ! 6 + ssig0 (w ! 14) + w ! 15) # w)"

definition sha_schedule :: "byte list \<Rightarrow> w32 list" where
  "sha_schedule block = rev (sha_extend 48 (rev (map be32 (chunks 16 4 block))))"

fun sha_round :: "w32 list \<Rightarrow> w32 \<times> w32 \<Rightarrow> w32 list" where
  "sha_round [a, b, c, d, e, f, g, h] (k, w) =
     (let t1 = h + bsig1 e + ((e AND f) XOR (NOT e AND g)) + k + w;
          t2 = bsig0 a + ((a AND b) XOR (a AND c) XOR (b AND c))
      in [t1 + t2, a, b, c, d + t1, e, f, g])"
| "sha_round st kw = st"

definition sha_compress :: "w32 list \<Rightarrow> byte list \<Rightarrow> w32 list" where
  "sha_compress st block = map2 (+) st (foldl sha_round st (zip sha_k (sha_schedule block)))"

definition sha256 :: "byte list \<Rightarrow> byte list" where
  "sha256 m = (let p = sha_pad m in
     concat (map unbe32 (foldl sha_compress sha_h0 (chunks (length p div 64) 64 p))))"

section \<open>Text to bytes and back to hexadecimal text\<close>

definition utf8_char :: "char \<Rightarrow> byte list" where
  "utf8_char c = (let n = code c in
     if n < 128 then [word_of_nat n] else [word_of_nat (192 + n div 64), word_of_nat (128 + n mod 64)])"

definition utf8 :: "string \<Rightarrow> byte list" where
  "utf8 s = concat (map utf8_char s)"

definition hex_digit :: "nat \<Rightarrow> char" where
  "hex_digit n = char_of (if n < 10 then 48 + n else 87 + n)"

definition hex_byte :: "byte \<Rightarrow> string" where
  "hex_byte b = [hex_digit (unat b div 16), hex_digit (unat b mod 16)]"

definition hexdigest :: "byte list \<Rightarrow> string" where
  "hexdigest bs = concat (map hex_byte bs)"

definition sha256_hex :: "string \<Rightarrow> string" where
  \<comment> \<open>\<open>hashlib.sha256(s.encode("utf-8")).hexdigest()\<close>\<close>
  "sha256_hex s = hexdigest (sha256 (utf8 s))"

section \<open>json.dumps\<close>

text \<open>
  String escapes of \<open>json.dumps\<close> with \<open>ensure_ascii\<close> (the default): the two-character
  escapes, and \<open>\u00XX\<close> for the other control characters and for code points from 127 on.
  The serialisation of a float is its \<open>repr\<close>, a parameter \<open>frepr\<close> of the functions here.
\<close>

definition json_escape_char :: "char \<Rightarrow> string" where
  "json_escape_char c = (let n = code c in
     if n = 34 \<or> n = 92 then [char_of (92::nat), c]
     else if n = 10 then [char_of (92::nat), CHR ''n'']
     else if n = 13 then [char_of (92::nat), CHR ''r'']
     else if n = 9 then [char_of (92::nat), CHR ''t'']
     else if n = 12 then [char_of (92::nat), CHR ''f'']
     else if n = 8 then [char_of (92::nat), CHR ''b'']
     else if n < 32 \<or> 126 < n
     then [char_of (92::nat), CHR ''u'', CHR ''0'', CHR ''0'', hex_digit (n div 16), hex_digit (n mod 16)]
     else [c])"

definition json_string :: "string \<Rightarrow> string" where
  "json_string s = [char_of (34::nat)] @ concat (map json_escape_char s) @ [char_of (34::nat)]"

definition sort_keys :: "(string \<times> 'a) list \<Rightarrow> (string \<times> 'a) list" where
  "sort_keys kvs = sort_key fst kvs"

fun canonical_json :: "(pyfloat \<Rightarrow> string) \<Rightarrow> json \<Rightarrow> string" where
  "canonical_json frepr JNull = ''null''"
| "canonical_json frepr (JBool b) = (if b then ''true'' else ''false'')"
| "canonical_json frepr (JInt i) = int_str i"
| "canonical_json frepr (JFloat x) = frepr x"
| "canonical_json frepr (JStr s) = json_string s"
| "canonical_json frepr (JArr xs) = ''['' @ py_join '','' (map (canonical_json frepr) xs) @ '']''"
| "canonical_json frepr (JObj kvs) =
     ''{'' @ py_join '','' (map (\<lambda>(k, t). json_string k @ '':'' @ t)
        (sort_keys (map (\<lambda>(k, v). (k, canonical_json frepr v)) kvs))) @ ''}''"

section \<open>Shape of a digest\<close>

definition is_hex :: "char \<Rightarrow> bool" where
  "is_hex c \<longleftrightarrow> 48 \<le> code c \<and> code c \<le> 57 \<or> 97 \<le> code c \<and> code c \<le> 102"

lemma code_char_of [simp]: "n < 256 \<Longrightarrow> code (char_of n) = n"
  by (simp add: code_def)

lemma is_hex_digit: "n < 16 \<Longrightarrow> is_hex (hex_digit n)"
  by (auto simp: hex_digit_def is_hex_def)

lemma hexdigest_is_hex: "list_all is_hex (hexdigest bs)"
proof -
  have "is_hex c" if "c \<in> set (hex_byte b)" for b c
  proof -
    have "unat b < 256" using unsigned_less [of b] by simp
    then have "unat b div 16 < 16" by (simp add: less_mult_imp_div_less)
    then show ?thesis using that by (auto simp: hex_byte_def intro: is_hex_digit)
  qed
  then show ?thesis by (auto simp: hexdigest_def list_all_iff)
qed

lemma sha256_hex_is_hex: "list_all is_hex (sha256_hex s)"
  by (simp add: sha256_hex_def hexdigest_is_hex)

lemma length_hexdigest: "length (hexdigest bs) = 2 * length bs"
  by (induction bs) (simp_all add: hexdigest_def hex_byte_def)

lemma length_sha_extend [simp]: "length (sha_extend k w) = k + length w"
  by (induction k arbitrary: w) auto

lemma length_sha_round [simp]: "length (sha_round st kw) = length st"
  by (induction st kw rule: sha_round.induct) (auto simp: Let_def)

lemma length_foldl_round [simp]: "length (foldl sha_round st kws) = length st"
  by (induction kws arbitrary: st) auto

lemma length_sha_compress [simp]: "length (sha_compress st b) = length st"
  by (simp add: sha_compress_def)

lemma length_foldl_compress [simp]: "length (foldl sha_compress st bs) = length st"
  by (induction bs arbitrary: st) auto

lemma length_unbe32 [simp]: "length (unbe32 w) = 4"
  by (simp add: unbe32_def)

lemma length_sha256 [simp]: "length (sha256 m) = 32"
proof -
  have "length (concat (map unbe32 ws)) = 4 * length ws" for ws :: "w32 list"
    by (induction ws) auto
  then show ?thesis by (simp add: sha256_def Let_def sha_h0_def)
qed

lemma length_sha256_hex [simp]: "length (sha256_hex s) = 64"
  by (simp add: sha256_hex_def length_hexdigest)

lemma sha256_hex_nonempty [simp]: "sha256_hex s \<noteq> []"
  using length_sha256_hex [of s] by (metis length_0_conv zero_neq_numeral)

text \<open>No character of a digest is the separator of the composite keys.\<close>

lemma sha256_hex_no_bar: "CHR ''|'' \<notin> set (sha256_hex s)"
  using sha256_hex_is_hex [of s] by (auto simp: list_all_iff is_hex_def code_def)

end
