(* ===== verification/Ttl.thy ===== *)
theory Ttl
  imports Hashing Telemetry
begin

text \<open>
  Route-aware TTL learning, \<open>cachepilot_core/ttl.py\<close>: the profile with its confidence dynamics, the
  learner over an abstract store and the resolver. The store protocol is the locale \<open>ttl_store\<close>;
  the learner's lemmas are proved in it and the database model interprets it. A timestamp is the
  number of microseconds since the epoch (the precision of a \<open>datetime\<close>).
\<close>

type_synonym timestamp = int

definition total_seconds :: "timestamp \<Rightarrow> flt" where
  "total_seconds d = of_int d / 1000000"

definition HIGH_CONFIDENCE_THRESHOLD :: flt where "HIGH_CONFIDENCE_THRESHOLD = 7 / 10"
definition DEFAULT_MINIMUM_SAMPLES :: int where "DEFAULT_MINIMUM_SAMPLES = 3"
definition CONFIDENCE_FLOOR :: flt where "CONFIDENCE_FLOOR = 5 / 100"
definition CONFIDENCE_CEIL :: flt where "CONFIDENCE_CEIL = 95 / 100"
definition HIT_DELTA :: flt where "HIT_DELTA = 5 / 100"
definition MISS_DELTA :: flt where "MISS_DELTA = 2 / 100"
definition UNVERIFIED_DELTA :: flt where "UNVERIFIED_DELTA = - 5 / 100"
definition INCONSISTENT_DELTA :: flt where "INCONSISTENT_DELTA = - 5 / 100"
definition ESTIMATE_INTERVAL_FRACTION :: flt where "ESTIMATE_INTERVAL_FRACTION = 35 / 100"

named_theorems ttl_consts "the numeric constants of TTL learning"

declare HIGH_CONFIDENCE_THRESHOLD_def [ttl_consts] DEFAULT_MINIMUM_SAMPLES_def [ttl_consts]
  CONFIDENCE_FLOOR_def [ttl_consts] CONFIDENCE_CEIL_def [ttl_consts] HIT_DELTA_def [ttl_consts]
  MISS_DELTA_def [ttl_consts] UNVERIFIED_DELTA_def [ttl_consts] INCONSISTENT_DELTA_def [ttl_consts]
  ESTIMATE_INTERVAL_FRACTION_def [ttl_consts]

section \<open>Profile keys\<close>

definition endpoint_hash :: "string \<Rightarrow> string" where
  "endpoint_hash endpoint = sha256_hex endpoint"

definition join_key :: "string \<Rightarrow> string \<Rightarrow> string \<Rightarrow> string \<Rightarrow> string option \<Rightarrow> string" where
  "join_key provider model api_mode eh route =
     py_join ''|'' [provider, model, api_mode, eh, opt_or route []]"

definition build_profile_key ::
  "string \<Rightarrow> string \<Rightarrow> string \<Rightarrow> string \<Rightarrow> string option \<Rightarrow> string" where
  "build_profile_key provider model api_mode endpoint route =
     join_key provider model api_mode (endpoint_hash endpoint) route"

section \<open>Profiles\<close>

record ttl_hint =
  hint_ttl_s :: flt
  hint_confidence :: flt
  hint_source :: string

record ttl_profile =
  tp_provider :: string
  tp_model :: string
  tp_api_mode :: string
  tp_endpoint_hash :: string
  tp_route_hash :: "string option"
  lower_bound_s :: "flt option"
  upper_bound_s :: "flt option"
  tp_estimated_ttl_s :: "flt option"
  confidence :: flt
  sample_count :: int
  tp_updated_at :: "timestamp option"

definition profile_key :: "ttl_profile \<Rightarrow> string" where
  "profile_key p = join_key (tp_provider p) (tp_model p) (tp_api_mode p) (tp_endpoint_hash p)
     (tp_route_hash p)"

definition new_profile ::
  "string \<Rightarrow> string \<Rightarrow> string \<Rightarrow> string \<Rightarrow> string option \<Rightarrow> py_error + ttl_profile" where
  \<comment> \<open>The constructor: the four identity strings have \<open>min_length=1\<close>.\<close>
  "new_profile provider model api_mode eh route =
     (if provider = [] \<or> model = [] \<or> api_mode = [] \<or> eh = [] then Inl ValidationError
      else Inr \<lparr>tp_provider = provider, tp_model = model, tp_api_mode = api_mode,
             tp_endpoint_hash = eh, tp_route_hash = route, lower_bound_s = None,
             upper_bound_s = None, tp_estimated_ttl_s = None, confidence = 1 / 2,
             sample_count = 0, tp_updated_at = None\<rparr>)"

definition estimate :: "ttl_profile \<Rightarrow> flt option \<Rightarrow> flt option" where
  "estimate p adapter_hint =
     (case upper_bound_s p of
        Some upper \<Rightarrow>
          let lower = opt_or (lower_bound_s p) 0
          in Some (lower + (upper - lower) * ESTIMATE_INTERVAL_FRACTION)
      | None \<Rightarrow>
          if adapter_hint = None \<and> lower_bound_s p = None then None
          else Some (max (opt_or adapter_hint 0) (opt_or (lower_bound_s p) 0)))"

definition adjust_confidence :: "ttl_profile \<Rightarrow> flt \<Rightarrow> ttl_profile" where
  "adjust_confidence p delta =
     p\<lparr>confidence := min CONFIDENCE_CEIL (max CONFIDENCE_FLOOR (confidence p + delta))\<rparr>"

definition observe_hit :: "ttl_profile \<Rightarrow> flt \<Rightarrow> ttl_profile" where
  "observe_hit p idle_age =
     (let new_lower = max (opt_or (lower_bound_s p) 0) idle_age;
          p = p\<lparr>sample_count := sample_count p + 1, lower_bound_s := Some new_lower\<rparr>;
          consistent = (case upper_bound_s p of None \<Rightarrow> True | Some u \<Rightarrow> new_lower \<le> u)
      in adjust_confidence p (if consistent then HIT_DELTA else INCONSISTENT_DELTA))"

definition observe_miss :: "ttl_profile \<Rightarrow> flt \<Rightarrow> ttl_profile" where
  "observe_miss p idle_age =
     (let new_upper = (case upper_bound_s p of None \<Rightarrow> idle_age | Some u \<Rightarrow> min u idle_age);
          p = p\<lparr>sample_count := sample_count p + 1, upper_bound_s := Some new_upper\<rparr>;
          consistent = (case lower_bound_s p of None \<Rightarrow> True | Some l \<Rightarrow> l \<le> new_upper)
      in adjust_confidence p (if consistent then MISS_DELTA else INCONSISTENT_DELTA))"

definition re_estimate :: "ttl_profile \<Rightarrow> ttl_profile" where
  "re_estimate p = p\<lparr>tp_estimated_ttl_s := estimate p None\<rparr>"

definition observe :: "ttl_profile \<Rightarrow> outcome \<Rightarrow> flt option \<Rightarrow> ttl_profile" where
  "observe p outc idle =
     (case outc of
        FAILED \<Rightarrow> p
      | SUCCESS_UNVERIFIED \<Rightarrow> re_estimate (adjust_confidence p UNVERIFIED_DELTA)
      | CONFIRMED_HIT \<Rightarrow>
          (case idle of Some a \<Rightarrow> re_estimate (if 0 \<le> a then observe_hit p a else p)
                      | None \<Rightarrow> re_estimate p)
      | MISS_REBUILT \<Rightarrow>
          (case idle of Some a \<Rightarrow> re_estimate (if 0 \<le> a then observe_miss p a else p)
                      | None \<Rightarrow> re_estimate p))"

section \<open>The learner\<close>

record ttl_observation =
  o_outcome :: outcome
  o_cache_fingerprint :: string
  o_route_hash :: "string option"
  o_provider :: string
  o_model :: string
  o_api_mode :: string
  o_endpoint :: string
  o_timestamp :: timestamp

record stored_ttl_observation =
  s_id :: int
  s_timestamp :: timestamp
  s_cache_fingerprint :: string
  s_route_hash :: "string option"
  s_idle_age_s :: "flt option"
  s_outcome :: outcome
  s_clean :: bool
  s_provider :: "string option"
  s_model :: "string option"
  s_api_mode :: "string option"
  s_endpoint_hash :: "string option"

text \<open>
  The learner's view of one observation: the idle age since the previous observation of the same cache
  fingerprint and whether the pair is clean.
\<close>

definition pair_age ::
  "('s \<Rightarrow> string \<Rightarrow> timestamp \<Rightarrow> timestamp \<Rightarrow> bool) \<Rightarrow> 's \<Rightarrow> stored_ttl_observation option \<Rightarrow>
     ttl_observation \<Rightarrow> flt option \<times> bool" where
  "pair_age churn_between s previous obs =
     (case previous of
        None \<Rightarrow> (None, False)
      | Some prev \<Rightarrow>
          let delta = total_seconds (o_timestamp obs - s_timestamp prev) in
          if 0 < delta
          then (Some delta,
                s_route_hash prev = o_route_hash obs \<and>
                \<not> churn_between s (o_cache_fingerprint obs) (s_timestamp prev) (o_timestamp obs))
          else (None, False))"

definition observation_row :: "ttl_observation \<Rightarrow> flt option \<Rightarrow> bool \<Rightarrow> stored_ttl_observation" where
  \<comment> \<open>The row \<open>record_ttl_observation\<close> is given; the store assigns the id.\<close>
  "observation_row obs idle clean =
     \<lparr>s_id = 0, s_timestamp = o_timestamp obs, s_cache_fingerprint = o_cache_fingerprint obs,
      s_route_hash = o_route_hash obs, s_idle_age_s = idle, s_outcome = o_outcome obs,
      s_clean = clean, s_provider = Some (o_provider obs), s_model = Some (o_model obs),
      s_api_mode = Some (o_api_mode obs), s_endpoint_hash = Some (endpoint_hash (o_endpoint obs))\<rparr>"

definition obs_key :: "ttl_observation \<Rightarrow> string" where
  "obs_key obs = build_profile_key (o_provider obs) (o_model obs) (o_api_mode obs) (o_endpoint obs)
     (o_route_hash obs)"

definition learn ::
  "('s \<Rightarrow> string \<Rightarrow> ttl_profile option) \<Rightarrow> ('s \<Rightarrow> ttl_profile \<Rightarrow> 's) \<Rightarrow>
   ('s \<Rightarrow> string \<Rightarrow> stored_ttl_observation option) \<Rightarrow> ('s \<Rightarrow> stored_ttl_observation \<Rightarrow> 's) \<Rightarrow>
   ('s \<Rightarrow> string \<Rightarrow> timestamp \<Rightarrow> timestamp \<Rightarrow> bool) \<Rightarrow>
   's \<Rightarrow> ttl_observation \<Rightarrow> 's \<times> (py_error + ttl_profile option)" where
  "learn profile_for upsert_profile last_obs record_obs churn_between s obs =
     (let previous = last_obs s (o_cache_fingerprint obs);
          (idle, clean) = pair_age churn_between s previous obs;
          s = record_obs s (observation_row obs idle clean);
          profile = profile_for s (obs_key obs)
      in if clean \<and> idle \<noteq> None then
           (case (case profile of
                    Some p \<Rightarrow> Inr p
                  | None \<Rightarrow> new_profile (o_provider obs) (o_model obs) (o_api_mode obs)
                             (endpoint_hash (o_endpoint obs)) (o_route_hash obs)) of
              Inl e \<Rightarrow> (s, Inl e)
            | Inr p \<Rightarrow>
                let p = (observe p (o_outcome obs) idle)\<lparr>tp_updated_at := Some (o_timestamp obs)\<rparr>
                in (upsert_profile s p, Inr (Some p)))
         else
           (case (previous, profile) of
              (Some prev, Some p) \<Rightarrow>
                if s_route_hash prev \<noteq> o_route_hash obs
                then let p = p\<lparr>confidence := 1 / 2, tp_updated_at := Some (o_timestamp obs)\<rparr>
                     in (upsert_profile s p, Inr (Some p))
                else (s, Inr profile)
            | _ \<Rightarrow> (s, Inr profile)))"

section \<open>The resolver\<close>

datatype ttl_source = Src_force | Src_learned | Src_adapter_hint | Src_default

record ttl_resolution =
  res_ttl_s :: flt
  res_confidence :: flt
  res_source :: ttl_source

record ttl_resolver =
  profile_lookup :: "(string \<Rightarrow> ttl_profile option) option"
  force_seconds :: "flt option"
  r_default_ttl_s :: flt
  minimum_samples :: int

definition lookup_profile :: "ttl_resolver \<Rightarrow> string \<Rightarrow> ttl_profile option" where
  "lookup_profile r key = (case profile_lookup r of None \<Rightarrow> None | Some f \<Rightarrow> f key)"

definition learned_tier :: "ttl_resolver \<Rightarrow> ttl_profile option \<Rightarrow> ttl_hint option \<Rightarrow> ttl_resolution option"
where
  "learned_tier r profile hint =
     (case profile of
        None \<Rightarrow> None
      | Some p \<Rightarrow>
          (case estimate p (map_option hint_ttl_s hint) of
             None \<Rightarrow> None
           | Some e \<Rightarrow>
               if HIGH_CONFIDENCE_THRESHOLD \<le> confidence p \<and> minimum_samples r \<le> sample_count p
               then Some \<lparr>res_ttl_s = e, res_confidence = confidence p, res_source = Src_learned\<rparr>
               else None))"

definition resolve ::
  "ttl_resolver \<Rightarrow> string \<Rightarrow> string \<Rightarrow> string \<Rightarrow> string \<Rightarrow> string option \<Rightarrow> ttl_hint option \<Rightarrow>
     ttl_resolution" where
  "resolve r provider model api_mode endpoint route hint =
     (case force_seconds r of
        Some f \<Rightarrow> \<lparr>res_ttl_s = f, res_confidence = 1, res_source = Src_force\<rparr>
      | None \<Rightarrow>
          (case learned_tier r
                  (lookup_profile r (build_profile_key provider model api_mode endpoint route)) hint of
             Some res \<Rightarrow> res
           | None \<Rightarrow>
               (case hint of
                  Some h \<Rightarrow>
                    if 0 < hint_ttl_s h
                    then \<lparr>res_ttl_s = hint_ttl_s h, res_confidence = hint_confidence h,
                          res_source = Src_adapter_hint\<rparr>
                    else \<lparr>res_ttl_s = r_default_ttl_s r, res_confidence = 1 / 2,
                          res_source = Src_default\<rparr>
                | None \<Rightarrow> \<lparr>res_ttl_s = r_default_ttl_s r, res_confidence = 1 / 2,
                          res_source = Src_default\<rparr>)))"

section \<open>Lemmas on one profile\<close>

definition wf_profile :: "ttl_profile \<Rightarrow> bool" where
  "wf_profile p \<longleftrightarrow> CONFIDENCE_FLOOR \<le> confidence p \<and> confidence p \<le> CONFIDENCE_CEIL \<and>
     0 \<le> sample_count p \<and> (\<forall>l. lower_bound_s p = Some l \<longrightarrow> 0 \<le> l) \<and>
     (\<forall>u. upper_bound_s p = Some u \<longrightarrow> 0 \<le> u)"

text \<open>The bounds agree with a cache that really lives \<open>T\<close> seconds.\<close>

definition sound_for :: "flt \<Rightarrow> ttl_profile \<Rightarrow> bool" where
  "sound_for T p \<longleftrightarrow> (\<forall>l. lower_bound_s p = Some l \<longrightarrow> l \<le> T) \<and>
     (\<forall>u. upper_bound_s p = Some u \<longrightarrow> T \<le> u)"

definition evidence_for :: "flt \<Rightarrow> outcome \<Rightarrow> flt option \<Rightarrow> bool" where
  "evidence_for T outc idle \<longleftrightarrow> (\<forall>a. idle = Some a \<longrightarrow>
     (outc = CONFIRMED_HIT \<longrightarrow> a \<le> T) \<and> (outc = MISS_REBUILT \<longrightarrow> T \<le> a))"

lemmas observe_defs = observe_def observe_hit_def observe_miss_def re_estimate_def
  adjust_confidence_def Let_def

lemma clamp_confidence:
  "CONFIDENCE_FLOOR \<le> min CONFIDENCE_CEIL (max CONFIDENCE_FLOOR x)"
  "min CONFIDENCE_CEIL (max CONFIDENCE_FLOOR x) \<le> CONFIDENCE_CEIL"
  by (auto simp: ttl_consts)

lemma wf_observe: "wf_profile p \<Longrightarrow> wf_profile (observe p outc idle)"
  by (auto simp: observe_defs wf_profile_def clamp_confidence
      split: outcome.splits option.splits)

lemma sound_observe:
  "sound_for T p \<Longrightarrow> 0 \<le> T \<Longrightarrow> evidence_for T outc idle \<Longrightarrow> sound_for T (observe p outc idle)"
  by (auto simp: observe_defs sound_for_def evidence_for_def opt_or_conv
      split: outcome.splits option.splits)

lemma observe_identity:
  "profile_key (observe p outc idle) = profile_key p"
  by (auto simp: observe_defs profile_key_def split: outcome.splits option.splits)

lemma profile_key_update [simp]:
  "profile_key (p\<lparr>tp_updated_at := t\<rparr>) = profile_key p"
  "profile_key (p\<lparr>confidence := c\<rparr>) = profile_key p"
  by (simp_all add: profile_key_def)

lemma observe_lower_mono:
  "wf_profile p \<Longrightarrow> lower_bound_s p = Some l \<Longrightarrow>
     \<exists>l'. lower_bound_s (observe p outc idle) = Some l' \<and> l \<le> l'"
  by (auto simp: observe_defs split: outcome.splits option.splits)

lemma observe_upper_mono:
  "upper_bound_s p = Some u \<Longrightarrow> \<exists>u'. upper_bound_s (observe p outc idle) = Some u' \<and> u' \<le> u"
  by (auto simp: observe_defs split: outcome.splits option.splits)

lemma observe_failed [simp]: "observe p FAILED idle = p"
  by (simp add: observe_def)

lemma observe_unverified:
  "lower_bound_s (observe p SUCCESS_UNVERIFIED idle) = lower_bound_s p"
  "upper_bound_s (observe p SUCCESS_UNVERIFIED idle) = upper_bound_s p"
  "sample_count (observe p SUCCESS_UNVERIFIED idle) = sample_count p"
  by (simp_all add: observe_defs)

text \<open>The estimate lies in the interval, in its lower part.\<close>

lemma estimate_in_interval:
  assumes "upper_bound_s p = Some u" and "opt_or (lower_bound_s p) 0 \<le> u"
  shows "\<exists>e. estimate p hint = Some e \<and> opt_or (lower_bound_s p) 0 \<le> e \<and> e \<le> u \<and>
    e \<le> (opt_or (lower_bound_s p) 0 + u) / 2"
proof -
  define l where "l = opt_or (lower_bound_s p) 0"
  have "l \<le> l + (u - l) * (35 / 100) \<and> l + (u - l) * (35 / 100) \<le> u \<and>
    l + (u - l) * (35 / 100) \<le> (l + u) / 2"
    using assms(2) by (simp add: l_def [symmetric] field_simps)
  then show ?thesis using assms(1) by (auto simp: estimate_def l_def Let_def ttl_consts)
qed

section \<open>Runs of observations\<close>

definition observe_all :: "ttl_profile \<Rightarrow> (outcome \<times> flt option) list \<Rightarrow> ttl_profile" where
  "observe_all p os = foldl (\<lambda>p (outc, idle). observe p outc idle) p os"

lemma observe_all_invariant:
  assumes "\<And>p outc idle. P p \<Longrightarrow> (outc, idle) \<in> set os \<Longrightarrow> P (observe p outc idle)" and "P p"
  shows "P (observe_all p os)"
  using assms by (induction os arbitrary: p) (fastforce simp: observe_all_def)+

text \<open>
  C12: learning is sound. If the provider's cache really lives T seconds and every verified observation
  reports it faithfully (a hit at an age not above T, a miss at an age not below T), then after any
  number of observations the learned lower bound is at most T, the upper bound at least T, the
  confidence is within its clamp, and as soon as a miss was seen the estimate lies between the two
  bounds, in the lower half of the interval.
\<close>

theorem ttl_learning_sound:
  assumes "wf_profile p" and "sound_for T p" and "0 \<le> T"
    and "\<forall>(outc, idle) \<in> set os. evidence_for T outc idle"
  shows "wf_profile (observe_all p os) \<and> sound_for T (observe_all p os) \<and>
    (\<forall>u. upper_bound_s (observe_all p os) = Some u \<longrightarrow>
       (\<exists>e. estimate (observe_all p os) None = Some e \<and>
          opt_or (lower_bound_s (observe_all p os)) 0 \<le> e \<and> e \<le> u \<and>
          e \<le> (opt_or (lower_bound_s (observe_all p os)) 0 + u) / 2))"
proof -
  have inv: "wf_profile (observe_all p os) \<and> sound_for T (observe_all p os)"
    by (rule observe_all_invariant) (use assms in \<open>auto intro: wf_observe sound_observe\<close>)
  have "opt_or (lower_bound_s (observe_all p os)) 0 \<le> u"
    if "upper_bound_s (observe_all p os) = Some u" for u
    using inv that assms(3)
    by (cases "lower_bound_s (observe_all p os)") (auto simp: sound_for_def)
  then show ?thesis using inv estimate_in_interval by blast
qed

definition fresh_profile :: ttl_profile where
  "fresh_profile = \<lparr>tp_provider = ''openai'', tp_model = ''m'', tp_api_mode = ''chat'',
     tp_endpoint_hash = ''e'', tp_route_hash = None, lower_bound_s = None, upper_bound_s = None,
     tp_estimated_ttl_s = None, confidence = 1 / 2, sample_count = 0, tp_updated_at = None\<rparr>"

theorem ttl_learning_sound_witness:
  "sound_for 300 (observe_all fresh_profile [(CONFIRMED_HIT, Some 120), (MISS_REBUILT, Some 400)])"
  using ttl_learning_sound [of fresh_profile 300
      "[(CONFIRMED_HIT, Some 120), (MISS_REBUILT, Some 400)]"]
  by (simp add: fresh_profile_def wf_profile_def sound_for_def evidence_for_def ttl_consts)

text \<open>Confidence is earned by verified samples only.\<close>

lemma observe_confidence_bound:
  assumes "confidence p \<le> 1 / 2 + HIT_DELTA * of_int (sample_count p)" and "0 \<le> sample_count p"
  shows "confidence (observe p outc idle) \<le>
      1 / 2 + HIT_DELTA * of_int (sample_count (observe p outc idle)) \<and>
    0 \<le> sample_count (observe p outc idle)"
proof -
  let ?n = "of_int (sample_count p) :: flt"
  have n: "0 \<le> ?n" using assms(2) by simp
  have clamp: "min CONFIDENCE_CEIL (max CONFIDENCE_FLOOR x) \<le> B" if "x \<le> B" "1 / 2 \<le> B" for x B
    using that by (auto simp: ttl_consts)
  have up: "confidence (adjust_confidence q d) \<le> 1 / 2 + HIT_DELTA * (?n + 1)"
    if "confidence q = confidence p" and "d \<le> HIT_DELTA" for q d
  proof -
    have "confidence q + d \<le> 1 / 2 + HIT_DELTA * (?n + 1)"
      using assms(1) that by (simp add: ttl_consts field_simps)
    moreover have "1 / 2 \<le> 1 / 2 + HIT_DELTA * (?n + 1)" using n by (simp add: ttl_consts)
    ultimately show ?thesis unfolding adjust_confidence_def by (simp add: clamp)
  qed
  have down: "confidence (adjust_confidence p UNVERIFIED_DELTA) \<le> 1 / 2 + HIT_DELTA * ?n"
  proof -
    have "confidence p + UNVERIFIED_DELTA \<le> 1 / 2 + HIT_DELTA * ?n"
      using assms(1) by (simp add: ttl_consts)
    moreover have "1 / 2 \<le> 1 / 2 + HIT_DELTA * ?n" using n by (simp add: ttl_consts)
    ultimately show ?thesis unfolding adjust_confidence_def by (simp add: clamp)
  qed
  have re: "confidence (re_estimate q) = confidence q" "sample_count (re_estimate q) = sample_count q"
    "sample_count (adjust_confidence q d) = sample_count q" for q d
    by (simp_all add: re_estimate_def adjust_confidence_def)
  have d: "MISS_DELTA \<le> HIT_DELTA" "INCONSISTENT_DELTA \<le> HIT_DELTA" by (simp_all add: ttl_consts)
  have hit: "confidence (observe_hit p a) \<le> 1 / 2 + HIT_DELTA * (?n + 1)"
    "sample_count (observe_hit p a) = sample_count p + 1" for a
    unfolding observe_hit_def Let_def re using d by (auto intro!: up)
  have miss: "confidence (observe_miss p a) \<le> 1 / 2 + HIT_DELTA * (?n + 1)"
    "sample_count (observe_miss p a) = sample_count p + 1" for a
    unfolding observe_miss_def Let_def re using d by (auto intro!: up)
  show ?thesis
    using assms hit miss down unfolding observe_def
    by (auto simp: re split: outcome.splits option.splits)
qed

lemma learned_confidence_samples:
  assumes "confidence p = 1 / 2" and "sample_count p = 0"
    and "HIGH_CONFIDENCE_THRESHOLD \<le> confidence (observe_all p os)"
  shows "4 \<le> sample_count (observe_all p os)"
proof -
  let ?P = "\<lambda>q. confidence q \<le> 1 / 2 + HIT_DELTA * of_int (sample_count q) \<and> 0 \<le> sample_count q"
  have "?P (observe_all p os)"
    by (rule observe_all_invariant) (use assms observe_confidence_bound in \<open>auto simp: ttl_consts\<close>)
  then have "(7 / 10 :: flt) \<le> 1 / 2 + 5 / 100 * of_int (sample_count (observe_all p os))"
    using assms(3) by (simp add: ttl_consts)
  then have "(4 :: flt) \<le> of_int (sample_count (observe_all p os))" by (simp add: field_simps)
  then show ?thesis by linarith
qed

section \<open>The resolver's hierarchy\<close>

lemma learned_tier_iff:
  "learned_tier r profile hint = Some res \<longleftrightarrow>
     (\<exists>p e. profile = Some p \<and> estimate p (map_option hint_ttl_s hint) = Some e \<and>
        HIGH_CONFIDENCE_THRESHOLD \<le> confidence p \<and> minimum_samples r \<le> sample_count p \<and>
        res = \<lparr>res_ttl_s = e, res_confidence = confidence p, res_source = Src_learned\<rparr>)"
  by (auto simp: learned_tier_def split: option.splits)

text \<open>
  the override hierarchy. A forced TTL always wins; otherwise the learned tier answers exactly when
  a profile for the route's key has an estimate, a confidence of at least 0.7 and enough samples;
  otherwise a positive adapter hint; otherwise the configured default. So an unknown TTL is never
  guessed.
\<close>

theorem resolve_hierarchy:
  fixes r prov mdl mode ep route hint
  defines "res \<equiv> resolve r prov mdl mode ep route hint"
  shows "(res_source res = Src_force \<longleftrightarrow> force_seconds r \<noteq> None) \<and>
    (res_source res = Src_learned \<longleftrightarrow> force_seconds r = None \<and>
       (\<exists>p e. lookup_profile r (build_profile_key prov mdl mode ep route) = Some p \<and>
          estimate p (map_option hint_ttl_s hint) = Some e \<and> res_ttl_s res = e \<and>
          7 / 10 \<le> confidence p \<and> minimum_samples r \<le> sample_count p)) \<and>
    (case res_source res of
       Src_force \<Rightarrow> force_seconds r = Some (res_ttl_s res) \<and> res_confidence res = 1
     | Src_learned \<Rightarrow> True
     | Src_adapter_hint \<Rightarrow> map_option hint_ttl_s hint = Some (res_ttl_s res) \<and> 0 < res_ttl_s res
     | Src_default \<Rightarrow> res_ttl_s res = r_default_ttl_s r)"
proof (cases "force_seconds r")
  case (Some f)
  then show ?thesis by (simp add: res_def resolve_def)
next
  case None
  let ?t = "learned_tier r (lookup_profile r (build_profile_key prov mdl mode ep route)) hint"
  show ?thesis
  proof (cases ?t)
    case lt: (Some res')
    then have "res = res'" by (simp add: res_def resolve_def None)
    then show ?thesis using lt None
      by (auto simp: learned_tier_iff ttl_consts)
  next
    case lt: None
    then have no: "\<not> (\<exists>p e. lookup_profile r (build_profile_key prov mdl mode ep route) = Some p \<and>
        estimate p (map_option hint_ttl_s hint) = Some e \<and>
        7 / 10 \<le> confidence p \<and> minimum_samples r \<le> sample_count p)"
      by (auto simp: learned_tier_def ttl_consts)
    show ?thesis
      using no lt None unfolding res_def resolve_def
      by (auto split: option.splits)
  qed
qed

section \<open>Keys\<close>

lemma bar_split:
  assumes "CHR ''|'' \<notin> set a" and "CHR ''|'' \<notin> set b" and "a @ CHR ''|'' # x = b @ CHR ''|'' # y"
  shows "a = b \<and> x = y"
  using assms
proof (induction a arbitrary: b)
  case Nil
  then show ?case by (cases b) auto
next
  case (Cons c cs)
  then show ?case by (cases b) auto
qed

text \<open>
  profile keys identify a route. When no identity component contains the separator, two keys are
  equal only if provider, model, API mode and endpoint hash are equal and the routes agree up to
  reading an absent route as the empty one.
\<close>

theorem join_key_injective:
  assumes "\<forall>s \<in> {p, m, a, e, p', m', a', e'}. CHR ''|'' \<notin> set s"
    and "join_key p m a e r = join_key p' m' a' e' r'"
  shows "p = p' \<and> m = m' \<and> a = a' \<and> e = e' \<and> opt_or r [] = opt_or r' []"
proof -
  have eq: "p @ CHR ''|'' # m @ CHR ''|'' # a @ CHR ''|'' # e @ CHR ''|'' # opt_or r [] =
      p' @ CHR ''|'' # m' @ CHR ''|'' # a' @ CHR ''|'' # e' @ CHR ''|'' # opt_or r' []"
    using assms(2) by (simp add: join_key_def)
  have 1: "p = p'" and r1: "m @ CHR ''|'' # a @ CHR ''|'' # e @ CHR ''|'' # opt_or r [] =
      m' @ CHR ''|'' # a' @ CHR ''|'' # e' @ CHR ''|'' # opt_or r' []"
    using bar_split [OF _ _ eq] assms(1) by auto
  have 2: "m = m'" and r2: "a @ CHR ''|'' # e @ CHR ''|'' # opt_or r [] =
      a' @ CHR ''|'' # e' @ CHR ''|'' # opt_or r' []"
    using bar_split [OF _ _ r1] assms(1) by auto
  have 3: "a = a'" and r3: "e @ CHR ''|'' # opt_or r [] = e' @ CHR ''|'' # opt_or r' []"
    using bar_split [OF _ _ r2] assms(1) by auto
  show ?thesis using bar_split [OF _ _ r3] assms(1) 1 2 3 by auto
qed

theorem join_key_injective_witness:
  "join_key ''openai'' ''m'' ''chat'' ''e'' None = join_key ''openai'' ''m'' ''chat'' ''e'' (Some []) \<and>
   opt_or None [] = opt_or (Some ([]::string)) []"
  using join_key_injective [of "''openai''" "''m''" "''chat''" "''e''" "''openai''" "''m''" "''chat''"
      "''e''" None "Some []"]
  by (simp add: join_key_def)

end
