(* ===== verification/TtlLearner.thy ===== *)
theory TtlLearner
  imports Ttl
begin

text \<open>
  The store protocol of the TTL learner (\<open>TTLStore\<close> of \<open>cachepilot_core/ttl.py\<close>) as a
  locale: what a profile lookup gives after an upsert, what the last observation is after a record,
  and the store invariant both keep. The lemmas describe \<open>TTLLearner.learn\<close> over any such store;
  the telemetry database interprets the locale.
\<close>

definition learned_cols ::
  "ttl_profile \<Rightarrow> flt option \<times> flt option \<times> flt option \<times> flt \<times> int \<times> timestamp option" where
  "learned_cols p = (lower_bound_s p, upper_bound_s p, tp_estimated_ttl_s p, confidence p,
     sample_count p, tp_updated_at p)"

definition bounds_of :: "ttl_profile \<Rightarrow> flt option \<times> flt option \<times> int" where
  "bounds_of p = (lower_bound_s p, upper_bound_s p, sample_count p)"

lemma bounds_of_learned: "learned_cols q = learned_cols p \<Longrightarrow> bounds_of q = bounds_of p"
  by (simp add: learned_cols_def bounds_of_def)

lemma new_profile_key:
  "new_profile (o_provider obs) (o_model obs) (o_api_mode obs) (endpoint_hash (o_endpoint obs))
     (o_route_hash obs) = Inr p \<Longrightarrow> profile_key p = obs_key obs"
  by (auto simp: new_profile_def profile_key_def obs_key_def build_profile_key_def split: if_splits)

definition same_row :: "stored_ttl_observation \<Rightarrow> stored_ttl_observation \<Rightarrow> bool" where
  \<comment> \<open>Equal up to the row id the store assigns.\<close>
  "same_row a b \<longleftrightarrow> a\<lparr>s_id := 0\<rparr> = b\<lparr>s_id := 0\<rparr>"

lemma same_row_fields:
  assumes "same_row a b"
  shows "s_timestamp a = s_timestamp b" "s_route_hash a = s_route_hash b"
    "s_outcome a = s_outcome b" "s_clean a = s_clean b" "s_idle_age_s a = s_idle_age_s b"
    "s_cache_fingerprint a = s_cache_fingerprint b"
  using assms by (cases a; cases b; simp add: same_row_def)+

locale ttl_store =
  fixes profile_for :: "'s \<Rightarrow> string \<Rightarrow> ttl_profile option"
    and upsert_profile :: "'s \<Rightarrow> ttl_profile \<Rightarrow> 's"
    and last_obs :: "'s \<Rightarrow> string \<Rightarrow> stored_ttl_observation option"
    and record_obs :: "'s \<Rightarrow> stored_ttl_observation \<Rightarrow> 's"
    and churn_between :: "'s \<Rightarrow> string \<Rightarrow> timestamp \<Rightarrow> timestamp \<Rightarrow> bool"
    and invar :: "'s \<Rightarrow> bool"
  assumes profile_record: "profile_for (record_obs s r) k = profile_for s k"
    and profile_other: "k \<noteq> profile_key p \<Longrightarrow> profile_for (upsert_profile s p) k = profile_for s k"
    and profile_same: "invar s \<Longrightarrow> tp_updated_at p \<noteq> None \<Longrightarrow>
      \<exists>q. profile_for (upsert_profile s p) (profile_key p) = Some q \<and> learned_cols q = learned_cols p"
    and profile_keyed: "invar s \<Longrightarrow> profile_for s k = Some p \<Longrightarrow> profile_key p = k"
    and last_record: "\<exists>r'. last_obs (record_obs s r) (s_cache_fingerprint r) = Some r' \<and> same_row r' r"
    and last_record_other:
      "f \<noteq> s_cache_fingerprint r \<Longrightarrow> last_obs (record_obs s r) f = last_obs s f"
    and last_upsert: "last_obs (upsert_profile s p) f = last_obs s f"
    and invar_record: "invar s \<Longrightarrow> invar (record_obs s r)"
    and invar_upsert: "invar s \<Longrightarrow> invar (upsert_profile s p)"
begin

abbreviation learn_here :: "'s \<Rightarrow> ttl_observation \<Rightarrow> 's \<times> (py_error + ttl_profile option)" where
  "learn_here \<equiv> learn profile_for upsert_profile last_obs record_obs churn_between"

abbreviation age_here :: "'s \<Rightarrow> ttl_observation \<Rightarrow> flt option \<times> bool" where
  "age_here s obs \<equiv> pair_age churn_between s (last_obs s (o_cache_fingerprint obs)) obs"

abbreviation after_record :: "'s \<Rightarrow> ttl_observation \<Rightarrow> 's" where
  "after_record s obs \<equiv>
     record_obs s (observation_row obs (fst (age_here s obs)) (snd (age_here s obs)))"

text \<open>The three ways a step can change the store.\<close>

lemma learn_cases:
  assumes "invar s"
  obtains (recorded) "fst (learn_here s obs) = after_record s obs"
  | (refined) p0 idle where "snd (age_here s obs)" "fst (age_here s obs) = Some idle"
      "profile_for s (obs_key obs) = Some p0 \<or> profile_for s (obs_key obs) = None \<and>
         new_profile (o_provider obs) (o_model obs) (o_api_mode obs) (endpoint_hash (o_endpoint obs))
           (o_route_hash obs) = Inr p0"
      "profile_key p0 = obs_key obs"
      "fst (learn_here s obs) = upsert_profile (after_record s obs)
         ((observe p0 (o_outcome obs) (Some idle))\<lparr>tp_updated_at := Some (o_timestamp obs)\<rparr>)"
  | (restarted) p0 where "\<not> snd (age_here s obs)" "profile_for s (obs_key obs) = Some p0"
      "profile_key p0 = obs_key obs"
      "fst (learn_here s obs) = upsert_profile (after_record s obs)
         (p0\<lparr>confidence := 1 / 2, tp_updated_at := Some (o_timestamp obs)\<rparr>)"
proof -
  obtain idle clean where ic: "age_here s obs = (idle, clean)" by fastforce
  have clean_idle: "clean \<Longrightarrow> idle \<noteq> None"
    using ic by (auto simp: pair_age_def Let_def split: option.splits if_splits)
  note old_key = profile_keyed [OF assms]
  show thesis
  proof (cases clean)
    case True
    with clean_idle obtain a where a: "idle = Some a" by blast
    show ?thesis
    proof (cases "profile_for s (obs_key obs)")
      case None
      show ?thesis
      proof (cases "new_profile (o_provider obs) (o_model obs) (o_api_mode obs)
          (endpoint_hash (o_endpoint obs)) (o_route_hash obs)")
        case (Inl e)
        show ?thesis
          by (rule recorded) (simp add: learn_def ic a True None Inl profile_record Let_def)
      next
        case (Inr p)
        show ?thesis
          by (rule refined [of a p])
            (simp_all add: learn_def ic a True None Inr profile_record Let_def new_profile_key)
      qed
    next
      case (Some p)
      show ?thesis
        by (rule refined [of a p])
          (simp_all add: learn_def ic a True Some profile_record Let_def old_key)
    qed
  next
    case False
    show ?thesis
    proof (cases "profile_for s (obs_key obs)")
      case None
      show ?thesis
        by (rule recorded)
          (simp add: learn_def ic False None profile_record Let_def split: option.splits)
    next
      case (Some p)
      show ?thesis
      proof (cases "\<exists>prev. last_obs s (o_cache_fingerprint obs) = Some prev \<and>
          s_route_hash prev \<noteq> o_route_hash obs")
        case True
        show ?thesis
          by (rule restarted [of p])
            (use True in \<open>auto simp: learn_def ic False Some profile_record Let_def old_key\<close>)
      next
        case nochange: False
        show ?thesis
          by (rule recorded)
            (use nochange in \<open>auto simp: learn_def ic False Some profile_record Let_def
              split: option.splits\<close>)
      qed
    qed
  qed
qed

lemma learn_invar: "invar s \<Longrightarrow> invar (fst (learn_here s obs))"
  by (rule learn_cases [of s obs]) (auto intro: invar_record invar_upsert)

text \<open>Every observation is recorded, and it is what the next one of the fingerprint is paired with.\<close>

lemma learn_last_obs:
  assumes "invar s"
  shows "\<exists>r. last_obs (fst (learn_here s obs)) (o_cache_fingerprint obs) = Some r \<and>
    s_timestamp r = o_timestamp obs \<and> s_route_hash r = o_route_hash obs \<and>
    s_outcome r = o_outcome obs"
proof -
  define row where "row = observation_row obs (fst (age_here s obs)) (snd (age_here s obs))"
  have fp: "s_cache_fingerprint row = o_cache_fingerprint obs"
    by (simp add: row_def observation_row_def)
  obtain r where r: "last_obs (record_obs s row) (o_cache_fingerprint obs) = Some r" "same_row r row"
    using last_record [of s row] fp by auto
  have r': "last_obs (after_record s obs) (o_cache_fingerprint obs) = Some r"
    using r(1) by (simp add: row_def)
  have "last_obs (fst (learn_here s obs)) (o_cache_fingerprint obs) = Some r"
    using assms
  proof (cases rule: learn_cases [of s obs])
    case recorded
    show ?thesis unfolding recorded by (rule r')
  next
    case (refined p0 idle)
    show ?thesis unfolding refined(5) last_upsert by (rule r')
  next
    case (restarted p0)
    show ?thesis unfolding restarted(4) last_upsert by (rule r')
  qed
  then show ?thesis
    using same_row_fields [OF r(2)] by (simp add: row_def observation_row_def)
qed

text \<open>Only the observation's own route key is ever touched.\<close>

lemma learn_frame:
  assumes "invar s" and "k \<noteq> obs_key obs"
  shows "profile_for (fst (learn_here s obs)) k = profile_for s k"
  using assms(1)
proof (cases rule: learn_cases [of s obs])
  case recorded
  then show ?thesis by (simp add: profile_record)
next
  case (refined p0 idle)
  have "profile_key ((observe p0 (o_outcome obs) (Some idle))\<lparr>tp_updated_at := Some (o_timestamp obs)\<rparr>)
      = obs_key obs"
    using refined(4) by (simp add: observe_identity)
  then show ?thesis using refined(5) assms(2) by (simp add: profile_other profile_record)
next
  case (restarted p0)
  have "profile_key (p0\<lparr>confidence := 1 / 2, tp_updated_at := Some (o_timestamp obs)\<rparr>) = obs_key obs"
    using restarted(3) by simp
  then show ?thesis unfolding restarted(4) using assms(2) by (simp add: profile_other profile_record)
qed

text \<open>A pair that is not clean moves no bound and no sample count, of any route.\<close>

lemma learn_unclean_bounds:
  assumes "invar s" and "\<not> snd (age_here s obs)"
  shows "map_option bounds_of (profile_for (fst (learn_here s obs)) k)
    = map_option bounds_of (profile_for s k)"
proof (cases "k = obs_key obs")
  case False
  then show ?thesis using learn_frame [OF assms(1)] by simp
next
  case True
  show ?thesis
    using assms(1)
  proof (cases rule: learn_cases [of s obs])
    case recorded
    then show ?thesis by (simp add: profile_record)
  next
    case (refined p0 idle)
    then show ?thesis using assms(2) by simp
  next
    case (restarted p0)
    let ?p = "p0\<lparr>confidence := 1 / 2, tp_updated_at := Some (o_timestamp obs)\<rparr>"
    have key: "profile_key ?p = k" using restarted(3) True by simp
    obtain q where q: "profile_for (upsert_profile (after_record s obs) ?p) k = Some q"
      "learned_cols q = learned_cols ?p"
      using profile_same [OF invar_record [OF assms(1)], of ?p] unfolding key by auto
    have "bounds_of q = bounds_of p0"
      using bounds_of_learned [OF q(2)] by (simp add: bounds_of_def)
    then show ?thesis using restarted(2,4) q(1) True by simp
  qed
qed

text \<open>A clean pair folds exactly one observation into the profile of its route.\<close>

lemma learn_clean_refines:
  assumes "invar s" and "age_here s obs = (Some a, True)" and "profile_for s (obs_key obs) = Some p0"
  shows "\<exists>q. profile_for (fst (learn_here s obs)) (obs_key obs) = Some q \<and>
    bounds_of q = bounds_of (observe p0 (o_outcome obs) (Some a)) \<and>
    confidence q = confidence (observe p0 (o_outcome obs) (Some a))"
  using assms(1)
proof (cases rule: learn_cases [of s obs])
  case recorded
  let ?p = "(observe p0 (o_outcome obs) (Some a))\<lparr>tp_updated_at := Some (o_timestamp obs)\<rparr>"
  have "fst (learn_here s obs) = upsert_profile (after_record s obs) ?p"
    using assms(2,3) by (simp add: learn_def Let_def profile_record)
  moreover have "profile_key ?p = obs_key obs"
    using profile_keyed [OF assms(1,3)] by (simp add: observe_identity)
  moreover have "tp_updated_at ?p \<noteq> None" by simp
  ultimately show ?thesis
    using profile_same [OF invar_record [OF assms(1)], of ?p]
    by (auto simp: learned_cols_def bounds_of_def)
next
  case (refined p1 idle)
  let ?p = "(observe p0 (o_outcome obs) (Some a))\<lparr>tp_updated_at := Some (o_timestamp obs)\<rparr>"
  have "p1 = p0" "idle = a" using refined assms(2,3) by auto
  moreover have "profile_key ?p = obs_key obs"
    using profile_keyed [OF assms(1,3)] by (simp add: observe_identity)
  ultimately show ?thesis
    using profile_same [OF invar_record [OF assms(1)], of ?p] refined(5)
    by (auto simp: learned_cols_def bounds_of_def)
next
  case (restarted p1)
  then show ?thesis using assms(2) by simp
qed

lemma learn_clean_first:
  assumes "invar s" and "age_here s obs = (Some a, True)" and "profile_for s (obs_key obs) = None"
    and "new_profile (o_provider obs) (o_model obs) (o_api_mode obs) (endpoint_hash (o_endpoint obs))
           (o_route_hash obs) = Inr p0"
  shows "\<exists>q. profile_for (fst (learn_here s obs)) (obs_key obs) = Some q \<and>
    bounds_of q = bounds_of (observe p0 (o_outcome obs) (Some a)) \<and>
    confidence q = confidence (observe p0 (o_outcome obs) (Some a))"
proof -
  let ?p = "(observe p0 (o_outcome obs) (Some a))\<lparr>tp_updated_at := Some (o_timestamp obs)\<rparr>"
  have l: "fst (learn_here s obs) = upsert_profile (after_record s obs) ?p"
    using assms(2-4) by (simp add: learn_def Let_def profile_record)
  have "profile_key ?p = obs_key obs"
    using new_profile_key [OF assms(4)] by (simp add: observe_identity)
  then show ?thesis
    using profile_same [OF invar_record [OF assms(1)], of ?p] unfolding l
    by (auto simp: learned_cols_def bounds_of_def)
qed

end

end
