(* ===== verification/Identity.thy ===== *)
theory Identity
  imports Hashing
begin

text \<open>
  Canonical requests and the two fingerprints, \<open>cachepilot_core/identity.py\<close> and
  \<open>fingerprint.py\<close>. The lemmas show that a fingerprint separates identities up to an explicit
  SHA-256 collision, that the output-bounding fields never reach the cache fingerprint, and that the
  tool-set digest does not depend on the order of the tools. \<open>repr\<close> of a float is the
  parameter \<open>frepr\<close>.
\<close>

datatype api_mode = CHAT | COMPLETION | RESPONSES

fun api_mode_value :: "api_mode \<Rightarrow> string" where
  "api_mode_value CHAT = ''chat''"
| "api_mode_value COMPLETION = ''completion''"
| "api_mode_value RESPONSES = ''responses''"

record cache_identity =
  ci_provider :: string
  ci_model :: string
  ci_api_mode :: api_mode
  ci_endpoint :: string
  ci_auth_scope :: string
  ci_route :: "string option"
  ci_prompt_key :: string
  ci_system_hash :: string
  ci_tools_hash :: string

record canonical_request = cache_identity +
  cr_max_tokens :: "int option"
  cr_stream :: bool
  cr_timeout_s :: "flt option"
  cr_tools_set_hash :: "string option"

datatype content = CNone | CStr string | CBytes "byte list"

fun hash_content :: "content \<Rightarrow> string" where
  "hash_content (CStr s) = hexdigest (sha256 (utf8 s))"
| "hash_content (CBytes b) = hexdigest (sha256 b)"
| "hash_content CNone = hexdigest (sha256 [])"

definition content_of :: "string option \<Rightarrow> content" where
  "content_of s = (case s of None \<Rightarrow> CNone | Some t \<Rightarrow> CStr t)"

definition tools_set_hash :: "(pyfloat \<Rightarrow> string) \<Rightarrow> json list option \<Rightarrow> string" where
  "tools_set_hash frepr tools =
     (case tools of
        None \<Rightarrow> hash_content CNone
      | Some ts \<Rightarrow>
          hash_content (CStr (py_join [char_of (31::nat)]
            (sort (remdups (map (canonical_json frepr) ts))))))"

definition valid_identity :: "'a cache_identity_scheme \<Rightarrow> bool" where
  \<comment> \<open>The \<open>min_length=1\<close> constraints.\<close>
  "valid_identity r \<longleftrightarrow> ci_provider r \<noteq> [] \<and> ci_model r \<noteq> [] \<and> ci_endpoint r \<noteq> [] \<and>
     ci_auth_scope r \<noteq> [] \<and> ci_prompt_key r \<noteq> [] \<and> ci_system_hash r \<noteq> [] \<and>
     ci_tools_hash r \<noteq> []"

definition valid_canonical :: "canonical_request \<Rightarrow> bool" where
  "valid_canonical r \<longleftrightarrow> valid_identity r \<and> (\<forall>n. cr_max_tokens r = Some n \<longrightarrow> 1 \<le> n) \<and>
     (\<forall>t. cr_timeout_s r = Some t \<longrightarrow> 0 < t)"

definition valid_canonical_code :: "canonical_request \<Rightarrow> bool" where
  "valid_canonical_code r = (valid_identity r \<and>
     (case cr_max_tokens r of None \<Rightarrow> True | Some n \<Rightarrow> 1 \<le> n) \<and>
     (case cr_timeout_s r of None \<Rightarrow> True | Some t \<Rightarrow> 0 < t))"

lemma valid_canonical_code [code]: "valid_canonical r = valid_canonical_code r"
  by (auto simp: valid_canonical_def valid_canonical_code_def split: option.splits)

definition from_content ::
  "(pyfloat \<Rightarrow> string) \<Rightarrow> string \<Rightarrow> string \<Rightarrow> api_mode \<Rightarrow> string \<Rightarrow> string \<Rightarrow> string option \<Rightarrow>
   string option \<Rightarrow> json list option \<Rightarrow> string option \<Rightarrow> int option \<Rightarrow> bool \<Rightarrow> flt option \<Rightarrow>
     py_error + canonical_request" where
  "from_content frepr provider model mode endpoint auth_scope prompt_prefix system tools route
     max_tokens strm timeout =
     (let th = (case tools of Some ts \<Rightarrow> hash_content (CStr (canonical_json frepr (JArr ts)))
                | None \<Rightarrow> hash_content CNone);
          r = \<lparr>ci_provider = provider, ci_model = model, ci_api_mode = mode, ci_endpoint = endpoint,
               ci_auth_scope = auth_scope, ci_route = route,
               ci_prompt_key = hash_content (content_of prompt_prefix),
               ci_system_hash = hash_content (content_of system), ci_tools_hash = th,
               cr_max_tokens = max_tokens, cr_stream = strm, cr_timeout_s = timeout,
               cr_tools_set_hash = Some (tools_set_hash frepr tools)\<rparr>
      in if valid_canonical r then Inr r else Inl ValidationError)"

section \<open>Fingerprints\<close>

definition opt_json :: "string option \<Rightarrow> json" where
  "opt_json s = (case s of None \<Rightarrow> JNull | Some t \<Rightarrow> JStr t)"

definition identity_dump :: "'a cache_identity_scheme \<Rightarrow> (string \<times> json) list" where
  \<comment> \<open>\<open>CACHE_IDENTITY_FIELDS\<close> of the model dump.\<close>
  "identity_dump r =
     [(''provider'', JStr (ci_provider r)), (''model'', JStr (ci_model r)),
      (''api_mode'', JStr (api_mode_value (ci_api_mode r))), (''endpoint'', JStr (ci_endpoint r)),
      (''auth_scope'', JStr (ci_auth_scope r)), (''route'', opt_json (ci_route r)),
      (''prompt_key'', JStr (ci_prompt_key r)), (''system_hash'', JStr (ci_system_hash r)),
      (''tools_hash'', JStr (ci_tools_hash r))]"

definition request_dump :: "canonical_request \<Rightarrow> (string \<times> json) list" where
  \<comment> \<open>The whole dump without \<open>tools_set_hash\<close>.\<close>
  "request_dump r = identity_dump r @
     [(''max_tokens'', case cr_max_tokens r of None \<Rightarrow> JNull | Some n \<Rightarrow> JInt n),
      (''stream'', JBool (cr_stream r)),
      (''timeout_s'', case cr_timeout_s r of None \<Rightarrow> JNull | Some t \<Rightarrow> JFloat (Fin t))]"

definition canonical_bytes :: "(pyfloat \<Rightarrow> string) \<Rightarrow> (string \<times> json) list \<Rightarrow> byte list" where
  "canonical_bytes frepr d = utf8 (canonical_json frepr (JObj d))"

definition request_fingerprint :: "(pyfloat \<Rightarrow> string) \<Rightarrow> canonical_request \<Rightarrow> string" where
  "request_fingerprint frepr r = hexdigest (sha256 (canonical_bytes frepr (request_dump r)))"

definition cache_fingerprint :: "(pyfloat \<Rightarrow> string) \<Rightarrow> 'a cache_identity_scheme \<Rightarrow> string" where
  "cache_fingerprint frepr r = hexdigest (sha256 (canonical_bytes frepr (identity_dump r)))"

definition sha_collision :: "byte list \<Rightarrow> byte list \<Rightarrow> bool" where
  "sha_collision x y \<longleftrightarrow> x \<noteq> y \<and> sha256 x = sha256 y"

section \<open>Serialisation is unambiguous\<close>

definition unhex :: "char \<Rightarrow> nat" where
  "unhex c = (if code c < 58 then code c - 48 else code c - 87)"

fun unescape :: "string \<Rightarrow> char \<times> string" where
  "unescape (c # d # rest) =
     (if code c \<noteq> 92 then (c, d # rest)
      else if d = CHR ''n'' then (char_of (10::nat), rest)
      else if d = CHR ''r'' then (char_of (13::nat), rest)
      else if d = CHR ''t'' then (char_of (9::nat), rest)
      else if d = CHR ''f'' then (char_of (12::nat), rest)
      else if d = CHR ''b'' then (char_of (8::nat), rest)
      else if d = CHR ''u'' then (char_of (16 * unhex (rest ! 2) + unhex (rest ! 3)), drop 4 rest)
      else (d, rest))"
| "unescape [c] = (c, [])"
| "unescape [] = (CHR ''?'', [])"

lemma code_lt [simp]: "code c < 256"
  by (simp add: code_def)

lemma code_inject [simp]: "code c = code d \<longleftrightarrow> c = d"
  by (simp add: code_def)

lemma code_eqI: "n < 256 \<Longrightarrow> code c = n \<longleftrightarrow> c = char_of n"
  by (metis code_char_of code_inject)

lemma char_of_code [simp]: "char_of (code c) = c"
  by (simp add: code_def)

lemma unhex_hex_digit [simp]: "n < 16 \<Longrightarrow> unhex (hex_digit n) = n"
  by (auto simp: unhex_def hex_digit_def)


lemma char_lits [simp]:
  "char_of (34::nat) = CHR 0x22" "char_of (92::nat) = CHR 0x5C" "char_of (8::nat) = CHR 0x08"
  "char_of (9::nat) = CHR 0x09" "char_of (10::nat) = CHR 0x0A" "char_of (12::nat) = CHR 0x0C"
  "char_of (13::nat) = CHR 0x0D"
  by code_simp+

lemma code_lits [simp]:
  "code (CHR 0x22) = 34" "code (CHR 0x5C) = 92" "code (CHR 0x08) = 8" "code (CHR 0x09) = 9"
  "code (CHR 0x0A) = 10" "code (CHR 0x0C) = 12" "code (CHR 0x0D) = 13"
  by code_simp+

lemma unescape_escape: "unescape (json_escape_char c @ d # x) = (c, d # x)"
proof -
  have c: "char_of (code c) = c" by simp
  have hx: "16 * unhex (hex_digit (code c div 16)) + unhex (hex_digit (code c mod 16)) = code c"
    using code_lt [of c] by (simp add: less_mult_imp_div_less)
  show ?thesis
  proof (cases "code c = 34 \<or> code c = 92 \<or> code c \<in> {8, 9, 10, 12, 13}")
    case True
    then show ?thesis
      by (auto simp: json_escape_char_def code_eqI)
  next
    case False
    then show ?thesis
      using hx by (auto simp: json_escape_char_def Let_def code_eqI)
  qed
qed

lemma json_escape_head: "json_escape_char c \<noteq> [] \<and> hd (json_escape_char c) \<noteq> CHR 0x22"
  by (auto simp: json_escape_char_def Let_def code_eqI)

lemma json_body_inject:
  "concat (map json_escape_char s) @ CHR 0x22 # x = concat (map json_escape_char t) @ CHR 0x22 # y \<Longrightarrow>
   s = t \<and> x = y"
proof (induction s arbitrary: t)
  case Nil
  then show ?case
    using json_escape_head by (cases t) (auto simp: neq_Nil_conv append_eq_Cons_conv Cons_eq_append_conv, metis list.sel(1))
next
  case (Cons c s)
  show ?case
  proof (cases t)
    case Nil
    then show ?thesis
      using Cons.prems json_escape_head [of c] by (cases "json_escape_char c") auto
  next
    case t: (Cons d t')
    obtain u us where u: "concat (map json_escape_char s) @ CHR 0x22 # x = u # us"
      by (metis append_is_Nil_conv list.distinct(1) neq_Nil_conv)
    obtain v vs where v: "concat (map json_escape_char t') @ CHR 0x22 # y = v # vs"
      by (metis append_is_Nil_conv list.distinct(1) neq_Nil_conv)
    have "json_escape_char c @ u # us = json_escape_char d @ v # vs"
      using Cons.prems u v t by simp
    then have "(c, u # us) = (d, v # vs)" by (metis unescape_escape)
    then show ?thesis using Cons.IH [of t'] u v t by simp
  qed
qed

lemma json_string_inject:
  "json_string s @ x = json_string t @ y \<longleftrightarrow> s = t \<and> x = y"
  using json_body_inject [of s x t y] by (auto simp: json_string_def)


lemma canonical_identity:
  "canonical_json frepr (JObj (identity_dump r)) =
     ''{'' @ json_string ''api_mode'' @ '':'' @ json_string (api_mode_value (ci_api_mode r)) @ '','' @
     json_string ''auth_scope'' @ '':'' @ json_string (ci_auth_scope r) @ '','' @
     json_string ''endpoint'' @ '':'' @ json_string (ci_endpoint r) @ '','' @
     json_string ''model'' @ '':'' @ json_string (ci_model r) @ '','' @
     json_string ''prompt_key'' @ '':'' @ json_string (ci_prompt_key r) @ '','' @
     json_string ''provider'' @ '':'' @ json_string (ci_provider r) @ '','' @
     json_string ''route'' @ '':'' @ canonical_json frepr (opt_json (ci_route r)) @ '','' @
     json_string ''system_hash'' @ '':'' @ json_string (ci_system_hash r) @ '','' @
     json_string ''tools_hash'' @ '':'' @ json_string (ci_tools_hash r) @ ''}''"
  by (simp add: identity_dump_def sort_keys_def)

lemma json_string_eq [simp]: "json_string s = json_string t \<longleftrightarrow> s = t"
  using json_string_inject [of s "[]" t "[]"] by simp

lemma opt_json_inject:
  "canonical_json frepr (opt_json a) @ CHR '','' # x = canonical_json frepr (opt_json b) @ CHR '','' # y
     \<longleftrightarrow> a = b \<and> x = y"
  using json_string_inject by (auto simp: opt_json_def json_string_def split: option.splits)

lemma api_mode_value_inject [simp]: "api_mode_value a = api_mode_value b \<longleftrightarrow> a = b"
  by (cases a; cases b) auto

lemma canonical_identity_inject:
  "canonical_json frepr (JObj (identity_dump r)) = canonical_json frepr (JObj (identity_dump s)) \<longleftrightarrow>
   cache_identity.truncate r = cache_identity.truncate s"
  unfolding canonical_identity
  by (auto simp: json_string_inject opt_json_inject cache_identity.truncate_def)

lemma unat_byte: "n < 256 \<Longrightarrow> unat (word_of_nat n :: byte) = n"
  by (simp add: unsigned_of_nat take_bit_eq_mod)

lemma unat_utf8_char:
  "map unat (utf8_char c) =
     (if code c < 128 then [code c] else [192 + code c div 64, 128 + code c mod 64])"
proof -
  have "192 + code c div 64 < 256" using code_lt [of c] by linarith
  moreover have "128 + code c mod 64 < 256" using mod_less_divisor [of 64 "code c"] by linarith
  ultimately show ?thesis
    using code_lt [of c] unat_byte [of "192 + code c div 64"] unat_byte [of "128 + code c mod 64"]
      unat_byte [of "code c"]
    by (simp only: utf8_char_def Let_def list.map if_distrib split: if_split) simp
qed

lemma utf8_char_inject: assumes "utf8_char c @ x = utf8_char d @ y" shows "c = d \<and> x = y"
proof -
  have e: "map unat (utf8_char c) @ map unat x = map unat (utf8_char d) @ map unat y"
    using assms by (metis map_append)
  have dm: "code c = code d"
    if "code c div 64 = code d div 64" "code c mod 64 = code d mod 64"
    using that by (metis div_mult_mod_eq)
  have "code c = code d"
    using e dm unfolding unat_utf8_char by (auto split: if_splits)
  then show ?thesis using assms by simp
qed

lemma utf8_inject [simp]: "utf8 s = utf8 t \<longleftrightarrow> s = t"
proof (induction s arbitrary: t)
  case Nil
  then show ?case by (cases t) (auto simp: utf8_def utf8_char_def Let_def)
next
  case (Cons c s)
  show ?case
  proof (cases t)
    case Nil
    then show ?thesis by (simp add: utf8_def utf8_char_def Let_def)
  next
    case t: (Cons d t')
    then show ?thesis
      using Cons.IH [of t'] utf8_char_inject [of c "utf8 s" d "utf8 t'"] by (auto simp: utf8_def)
  qed
qed

lemma unat_byte_lt: "unat (b :: byte) < 256"
  using unsigned_less [of b] by simp

lemma hex_byte_inject [simp]: "hex_byte b = hex_byte c \<longleftrightarrow> b = c"
proof
  assume e: "hex_byte b = hex_byte c"
  have hs: "hex_digit (unat b div 16) = hex_digit (unat c div 16)"
    "hex_digit (unat b mod 16) = hex_digit (unat c mod 16)"
    using e by (simp_all only: hex_byte_def list.inject)
  have d: "unat b div 16 < 16" "unat c div 16 < 16"
    using unat_byte_lt [of b] unat_byte_lt [of c] by (simp_all add: less_mult_imp_div_less)
  have q: "unat b div 16 = unat c div 16"
    using arg_cong [OF hs(1), of unhex] d by (simp only: unhex_hex_digit)
  have r: "unat b mod 16 = unat c mod 16"
    using arg_cong [OF hs(2), of unhex] by (simp only: unhex_hex_digit mod_less_divisor zero_less_numeral)
  have "unat b = unat c" using q r by (metis div_mult_mod_eq)
  then show "b = c" by (rule unsigned_word_eqI)
qed simp

lemma hexdigest_inject [simp]: "hexdigest x = hexdigest y \<longleftrightarrow> x = y"
proof (induction x arbitrary: y)
  case Nil
  then show ?case by (cases y) (auto simp: hexdigest_def hex_byte_def)
next
  case (Cons b x)
  show ?case
  proof (cases y)
    case Nil
    then show ?thesis by (simp add: hexdigest_def hex_byte_def)
  next
    case y: (Cons c y')
    have "hex_byte b @ u = hex_byte c @ v \<longleftrightarrow> hex_byte b = hex_byte c \<and> u = v" for u v
      by (simp add: hex_byte_def)
    then show ?thesis using Cons.IH [of y'] y by (simp add: hexdigest_def)
  qed
qed

section \<open>Properties of the fingerprints\<close>

text \<open>C24: Two requests have the same cache fingerprint exactly when the nine fields of their cache
  identity agree, or else the two distinct canonical byte strings are themselves a SHA-256 collision:
  the serialisation in front of the hash loses nothing.\<close>

theorem cache_fingerprint_separates:
  "cache_fingerprint frepr r = cache_fingerprint frepr s \<longleftrightarrow>
     cache_identity.truncate r = cache_identity.truncate s \<or>
     sha_collision (canonical_bytes frepr (identity_dump r)) (canonical_bytes frepr (identity_dump s))"
proof -
  have "canonical_bytes frepr (identity_dump r) = canonical_bytes frepr (identity_dump s) \<longleftrightarrow>
      cache_identity.truncate r = cache_identity.truncate s"
    by (simp add: canonical_bytes_def canonical_identity_inject del: canonical_json.simps)
  then show ?thesis unfolding cache_fingerprint_def hexdigest_inject sha_collision_def by auto
qed

text \<open>The cache fingerprint of a warm request equals that of the client request it imitates:
  rewriting the output bound, the streaming flag, the timeout and the tool-set digest leaves it
  unchanged, and the exact request fingerprint does not see the tool-set digest.\<close>

theorem warm_shares_cache_fingerprint:
  "cache_fingerprint frepr (r\<lparr>cr_max_tokens := m, cr_stream := b, cr_timeout_s := t,
       cr_tools_set_hash := h\<rparr>) = cache_fingerprint frepr r \<and>
   request_fingerprint frepr (r\<lparr>cr_tools_set_hash := h\<rparr>) = request_fingerprint frepr r"
  by (simp add: cache_fingerprint_def request_fingerprint_def identity_dump_def request_dump_def)

text \<open>The tool-set digest depends only on the set of tool definitions: reordering or repeating
  tools does not change it.\<close>

theorem tools_set_hash_order_free:
  "set ts = set us \<Longrightarrow> tools_set_hash frepr (Some ts) = tools_set_hash frepr (Some us)"
proof -
  assume "set ts = set us"
  then have "set (map (canonical_json frepr) ts) = set (map (canonical_json frepr) us)" by simp
  then have "sort (remdups (map (canonical_json frepr) ts)) = sort (remdups (map (canonical_json frepr) us))"
    by (metis set_remdups distinct_remdups sorted_list_of_set_sort_remdups)
  then show ?thesis by (simp add: tools_set_hash_def)
qed

theorem tools_set_hash_order_free_witness:
  "tools_set_hash (\<lambda>x. ''0'') (Some [JStr ''a'', JStr ''b'']) =
   tools_set_hash (\<lambda>x. ''0'') (Some [JStr ''b'', JStr ''a''])"
  by (rule tools_set_hash_order_free) auto

end
