(* ===== verification/Snapshots.thy ===== *)
theory Snapshots
  imports PyText
begin

text \<open>
  The memory-only request snapshot store, \<open>cachepilot_core/snapshots.py\<close>. Its contract with the
  lease controller and the scheduler is the locale \<open>snapshot_store\<close>: what a lookup returns
  after each mutation. The lemmas of the locale follow one fingerprint through a whole history of
  mutations; the interpretation discharges the contract for the dictionary the code keeps.
\<close>

type_synonym json_body = "(string \<times> json) list"

record request_snapshot =
  snap_fingerprint :: string
  snap_body :: json_body
  snap_upstream_url :: string
  snap_replay_headers :: "(string, string) dict"
  snap_stored_at :: flt

type_synonym snapshot_map = "(string, request_snapshot) dict"

definition snap_init :: snapshot_map where
  "snap_init = []"

definition snap_store :: "snapshot_map \<Rightarrow> request_snapshot \<Rightarrow> snapshot_map" where
  "snap_store ss s = dset ss (snap_fingerprint s) s"

definition snap_get :: "snapshot_map \<Rightarrow> string \<Rightarrow> request_snapshot option" where
  "snap_get ss fp = dget ss fp"

definition snap_drop :: "snapshot_map \<Rightarrow> string \<Rightarrow> snapshot_map" where
  "snap_drop ss fp = dpop ss fp"

definition snap_clear :: "snapshot_map \<Rightarrow> snapshot_map" where
  "snap_clear ss = []"

definition snap_fingerprints :: "snapshot_map \<Rightarrow> string set" where
  "snap_fingerprints ss = dkeys ss"

definition snap_snapshots :: "snapshot_map \<Rightarrow> request_snapshot list" where
  "snap_snapshots ss = map snd ss"

definition snap_len :: "snapshot_map \<Rightarrow> nat" where
  "snap_len ss = length ss"

section \<open>The contract\<close>

datatype snap_op = OpStore request_snapshot | OpDrop string | OpClear

locale snapshot_store =
  fixes empty :: 's
    and store :: "'s \<Rightarrow> request_snapshot \<Rightarrow> 's"
    and get :: "'s \<Rightarrow> string \<Rightarrow> request_snapshot option"
    and drop_fp :: "'s \<Rightarrow> string \<Rightarrow> 's"
    and clear :: "'s \<Rightarrow> 's"
  assumes get_empty [simp]: "get empty fp = None"
    and get_store [simp]:
      "get (store s x) fp = (if fp = snap_fingerprint x then Some x else get s fp)"
    and get_drop [simp]: "get (drop_fp s k) fp = (if fp = k then None else get s fp)"
    and get_clear [simp]: "get (clear s) fp = None"
begin

fun apply_op :: "'s \<Rightarrow> snap_op \<Rightarrow> 's" where
  "apply_op s (OpStore x) = store s x"
| "apply_op s (OpDrop k) = drop_fp s k"
| "apply_op s OpClear = clear s"

definition keyed :: "'s \<Rightarrow> bool" where
  "keyed s \<longleftrightarrow> (\<forall>fp x. get s fp = Some x \<longrightarrow> snap_fingerprint x = fp)"

lemma keyed_empty: "keyed empty"
  by (simp add: keyed_def)

lemma keyed_apply: "keyed s \<Longrightarrow> keyed (apply_op s op)"
  by (cases op) (auto simp: keyed_def)

lemma keyed_run: "keyed s \<Longrightarrow> keyed (foldl apply_op s ops)"
  by (induction ops arbitrary: s) (auto intro: keyed_apply)

lemma run_keyed_lookup: "get (foldl apply_op empty ops) fp = Some x \<Longrightarrow> snap_fingerprint x = fp"
  using keyed_run [OF keyed_empty] unfolding keyed_def by blast

lemma get_run_snoc:
  "get (foldl apply_op s (ops @ [op])) fp = (case op of
      OpStore x \<Rightarrow> if snap_fingerprint x = fp then Some x else get (foldl apply_op s ops) fp
    | OpDrop k \<Rightarrow> if k = fp then None else get (foldl apply_op s ops) fp | OpClear \<Rightarrow> None)"
  by (cases op) auto

lemma restart_forgets: "get empty fp = None"
  by simp

end

interpretation snaps: snapshot_store snap_init snap_store snap_get snap_drop snap_clear
  by unfold_locales (auto simp: snap_init_def snap_store_def snap_get_def snap_drop_def snap_clear_def)

lemma distinct_snap_store [intro]: "distinct (map fst ss) \<Longrightarrow> distinct (map fst (snap_store ss x))"
  by (simp add: snap_store_def)

fun snap_step :: "snapshot_map \<Rightarrow> snap_op \<Rightarrow> snapshot_map" where
  "snap_step ss (OpStore x) = snap_store ss x"
| "snap_step ss (OpDrop k) = snap_drop ss k"
| "snap_step ss OpClear = snap_clear ss"

definition snap_run :: "snap_op list \<Rightarrow> snapshot_map" where
  "snap_run ops = foldl snap_step snap_init ops"

lemma snap_step_apply_op: "snap_step = snaps.apply_op"
proof (intro ext)
  fix ss op show "snap_step ss op = snaps.apply_op ss op" by (cases op) auto
qed

fun snap_forgets :: "string \<Rightarrow> snap_op \<Rightarrow> bool" where
  "snap_forgets fp (OpStore x) = (snap_fingerprint x = fp)"
| "snap_forgets fp (OpDrop k) = (k = fp)"
| "snap_forgets fp OpClear = True"

lemma snap_get_run_snoc:
  "snap_get (snap_run (ops @ [op])) fp = (case op of
      OpStore x \<Rightarrow> if snap_fingerprint x = fp then Some x else snap_get (snap_run ops) fp
    | OpDrop k \<Rightarrow> if k = fp then None else snap_get (snap_run ops) fp | OpClear \<Rightarrow> None)"
  unfolding snap_run_def snap_step_apply_op by (rule snaps.get_run_snoc)

text \<open>The store answers with the last cache-producing request of a fingerprint and nothing
  else: a lookup returns a snapshot exactly when some store of it is followed by no other store of
  that fingerprint, no drop of it and no clear. A fresh store answers nothing.\<close>

theorem snapshot_is_last_stored:
  "snap_get (snap_run ops) fp = Some x \<longleftrightarrow>
     (\<exists>pre post. ops = pre @ OpStore x # post \<and> snap_fingerprint x = fp \<and>
        filter (snap_forgets fp) post = [])"
proof (induction ops rule: rev_induct)
  case Nil
  then show ?case by (simp add: snap_run_def)
next
  case (snoc op ops)
  have step: "(\<exists>pre post. ops @ [op] = pre @ OpStore x # post \<and> snap_fingerprint x = fp \<and>
        filter (snap_forgets fp) post = []) \<longleftrightarrow>
      op = OpStore x \<and> snap_fingerprint x = fp \<or>
      \<not> snap_forgets fp op \<and> (\<exists>pre post. ops = pre @ OpStore x # post \<and> snap_fingerprint x = fp \<and>
        filter (snap_forgets fp) post = [])" (is "?L \<longleftrightarrow> ?R")
  proof
    assume ?L
    then obtain pre post where e: "ops @ [op] = pre @ OpStore x # post" "snap_fingerprint x = fp"
      "filter (snap_forgets fp) post = []" by blast
    then show ?R
      by (cases post rule: rev_cases) (auto simp: filter_empty_conv)
  next
    assume ?R
    then show ?L
    proof (elim disjE conjE exE)
      fix pre post assume "\<not> snap_forgets fp op" "ops = pre @ OpStore x # post"
        "snap_fingerprint x = fp" "filter (snap_forgets fp) post = []"
      then show ?L by (intro exI [of _ pre] exI [of _ "post @ [op]"]) simp
    next
      assume "op = OpStore x" "snap_fingerprint x = fp"
      then show ?L by (intro exI [of _ ops] exI [of _ "[]"]) simp
    qed
  qed
  show ?case
    unfolding step snap_get_run_snoc snoc.IH [symmetric] by (cases op) auto
qed

end
