(* ===== verification/Adapters.thy ===== *)
theory Adapters
  imports Snapshots Telemetry Pricing Identity
begin

text \<open>
  The provider adapter, \<open>cachepilot_core/adapters.py\<close>, and the executor that sends a warm
  through it, \<open>cachepilot_relay/warm_executor.py\<close>. The \<open>CacheProviderAdapter\<close> protocol is
  the locale \<open>cache_adapter\<close>; the executor's lemmas are proved in it and the OpenAI-compatible
  adapter interprets it. An HTTP response is its status code and what \<open>response.json()\<close>
  returns, \<open>None\<close> when it raises; the transport is a parameter.
\<close>

datatype phys_request = Raw json_body | Canonical canonical_request

record phys_response =
  status_code :: int
  resp_json :: "json option"

datatype trinary = Yes | No | Unknown

record cache_capabilities =
  supports_cache_telemetry :: bool
  supports_cache_write_telemetry :: bool
  supports_prompt_cache_key :: bool
  supports_explicit_cache_control :: bool
  supports_output_bound :: bool
  supports_stream_cancel :: bool
  read_refreshes_ttl :: trinary
  route_identity_available :: bool
  route_affinity_available :: bool

record warm_result =
  wr_outcome :: "outcome option"
  wr_usage :: token_usage
  wr_cost_usd :: flt

section \<open>The OpenAI-compatible adapter\<close>

definition openai_capabilities :: cache_capabilities where
  "openai_capabilities = \<lparr>supports_cache_telemetry = True, supports_cache_write_telemetry = False,
     supports_prompt_cache_key = True, supports_explicit_cache_control = False,
     supports_output_bound = True, supports_stream_cancel = False, read_refreshes_ttl = Unknown,
     route_identity_available = False, route_affinity_available = False\<rparr>"

definition openai_replay_headers :: "string list" where
  "openai_replay_headers = [''authorization'', ''api-key'', ''openai-organization'',
     ''openai-project'', ''openai-beta'']"

definition OUTPUT_BOUND_FIELDS :: "string list" where
  "OUTPUT_BOUND_FIELDS = [''max_tokens'', ''max_completion_tokens'', ''max_output_tokens'']"

definition require_canonical :: "phys_request \<Rightarrow> py_error + canonical_request" where
  "require_canonical request = (case request of Canonical c \<Rightarrow> Inr c | Raw _ \<Rightarrow> Inl TypeError)"

definition canonical_cache_identity :: "phys_request \<Rightarrow> py_error + cache_identity" where
  "canonical_cache_identity request = res_bind (require_canonical request) (\<lambda>c.
     Inr \<lparr>ci_provider = ci_provider c, ci_model = ci_model c, ci_api_mode = ci_api_mode c,
          ci_endpoint = ci_endpoint c, ci_auth_scope = ci_auth_scope c, ci_route = ci_route c,
          ci_prompt_key = ci_prompt_key c, ci_system_hash = ci_system_hash c,
          ci_tools_hash = ci_tools_hash c\<rparr>)"

definition adapter_cache_fingerprint ::
  "(pyfloat \<Rightarrow> string) \<Rightarrow> phys_request \<Rightarrow> py_error + string" where
  "adapter_cache_fingerprint frepr request =
     res_bind (require_canonical request) (\<lambda>c. Inr (cache_fingerprint frepr c))"

fun set_first_bound :: "string list \<Rightarrow> json_body \<Rightarrow> json_body option" where
  \<comment> \<open>The loop over the output-bound fields with its early return.\<close>
  "set_first_bound [] warm = None"
| "set_first_bound (f # fs) warm =
     (if has_key warm f then Some (dset warm f (JInt 1)) else set_first_bound fs warm)"

definition build_warm_request :: "phys_request \<Rightarrow> py_error + json_body option" where
  "build_warm_request original =
     (case original of
        Canonical _ \<Rightarrow> Inl TypeError
      | Raw body \<Rightarrow>
          (let warm = (if has_key body ''stream'' then dset body ''stream'' (JBool False) else body)
           in Inr (set_first_bound OUTPUT_BOUND_FIELDS warm)))"

definition payload_of :: "phys_response \<Rightarrow> json_body option" where
  "payload_of r = (case resp_json r of Some (JObj kvs) \<Rightarrow> Some kvs | _ \<Rightarrow> None)"

definition usage_part :: "phys_response \<Rightarrow> json" where
  \<comment> \<open>\<open>(payload or {}).get("usage", payload)\<close>\<close>
  "usage_part r = (case payload_of r of None \<Rightarrow> JNull | Some kvs \<Rightarrow> usage_of_payload kvs)"

definition parse_usage :: "phys_response \<Rightarrow> py_error + token_usage" where
  "parse_usage r = normalize (usage_part r) (Some ''openai'')"

definition classify_cache_result :: "token_usage \<Rightarrow> phys_response \<Rightarrow> outcome" where
  "classify_cache_result u r =
     classify_outcome (status_code r) (usage_has_cache_telemetry (usage_part r))
       (cache_read_tokens u)"

definition extract_route_identity :: "phys_response \<Rightarrow> string option" where
  "extract_route_identity r = None"

definition can_pin_route :: bool where
  "can_pin_route = False"

definition apply_route_affinity :: "phys_request \<Rightarrow> string \<Rightarrow> phys_request" where
  "apply_route_affinity request route = request"

section \<open>The warm executor\<close>

record sent_request =
  sent_url :: string
  sent_body :: json_body
  sent_headers :: "(string, string) dict"

definition warm_cost :: "pricing_table option \<Rightarrow> token_usage \<Rightarrow> flt" where
  "warm_cost pricing u =
     (case cost u of Some c \<Rightarrow> c
      | None \<Rightarrow> (case pricing of Some p \<Rightarrow> estimate_cost u p | None \<Rightarrow> 0))"

definition execute ::
  "(phys_request \<Rightarrow> py_error + json_body option) \<Rightarrow> (phys_response \<Rightarrow> py_error + token_usage) \<Rightarrow>
   (token_usage \<Rightarrow> phys_response \<Rightarrow> outcome) \<Rightarrow> pricing_table option \<Rightarrow>
   (sent_request \<Rightarrow> phys_response option) \<Rightarrow> request_snapshot \<Rightarrow>
     sent_request list \<times> (py_error + warm_result)" where
  \<comment> \<open>\<open>post\<close> is the transport, \<open>None\<close> for an \<open>httpx.HTTPError\<close>; the first component
    of the result is what was put on the wire.\<close>
  "execute build parse classify pricing post snap =
     (case build (Raw (snap_body snap)) of
        Inl e \<Rightarrow> ([], Inl e)
      | Inr None \<Rightarrow> ([], Inr \<lparr>wr_outcome = None, wr_usage = empty_usage, wr_cost_usd = 0\<rparr>)
      | Inr (Some body) \<Rightarrow>
          (let req = \<lparr>sent_url = snap_upstream_url snap, sent_body = body,
                 sent_headers = dset (snap_replay_headers snap) ''content-type'' ''application/json''\<rparr>
           in ([req],
               case post req of
                 None \<Rightarrow> Inr \<lparr>wr_outcome = Some FAILED, wr_usage = empty_usage, wr_cost_usd = 0\<rparr>
               | Some response \<Rightarrow>
                   res_bind (parse response) (\<lambda>u.
                     Inr \<lparr>wr_outcome = Some (classify u response), wr_usage = u,
                          wr_cost_usd = warm_cost pricing u\<rparr>))))"

section \<open>The adapter contract and its client\<close>

definition two_hundred :: "phys_response \<Rightarrow> bool" where
  "two_hundred r \<longleftrightarrow> 200 \<le> status_code r \<and> status_code r < 300"

locale cache_adapter =
  fixes build :: "phys_request \<Rightarrow> py_error + json_body option"
    and parse :: "phys_response \<Rightarrow> py_error + token_usage"
    and classify :: "token_usage \<Rightarrow> phys_response \<Rightarrow> outcome"
    and bounding :: "string set"
    and bounds :: "string set"
  assumes build_total: "\<exists>r. build (Raw b) = Inr r"
    and build_keys: "build (Raw b) = Inr (Some w) \<Longrightarrow> map fst w = map fst b"
    and build_frame: "build (Raw b) = Inr (Some w) \<Longrightarrow> k \<notin> bounding \<Longrightarrow> dget w k = dget b k"
    and build_bounded: "build (Raw b) = Inr (Some w) \<Longrightarrow> \<exists>f\<in>bounds. dget w f = Some (JInt 1)"
    and parse_wf: "parse r = Inr u \<Longrightarrow> wf_usage u"
    and hit_evidence: "classify u r = CONFIRMED_HIT \<Longrightarrow> two_hundred r \<and> 0 < cache_read_tokens u"
    and failed_iff: "classify u r = FAILED \<longleftrightarrow> \<not> two_hundred r"
begin

abbreviation exec :: "pricing_table option \<Rightarrow> (sent_request \<Rightarrow> phys_response option) \<Rightarrow>
    request_snapshot \<Rightarrow> sent_request list \<times> (py_error + warm_result)" where
  "exec pr post snap \<equiv> execute build parse classify pr post snap"

lemma exec_sends_once: "length (fst (exec pr post snap)) \<le> 1"
  by (auto simp: execute_def Let_def split: sum.split option.split)

lemma exec_skip_iff:
  "fst (exec pr post snap) = [] \<longleftrightarrow>
     snd (exec pr post snap) = Inr \<lparr>wr_outcome = None, wr_usage = empty_usage, wr_cost_usd = 0\<rparr>"
proof -
  obtain r where r: "build (Raw (snap_body snap)) = Inr r" using build_total by blast
  show ?thesis
    by (cases r) (auto simp: execute_def r Let_def split: option.split sum.split)
qed

lemma exec_replays:
  assumes "req \<in> set (fst (exec pr post snap))"
  shows "sent_url req = snap_upstream_url snap \<and>
    map fst (sent_body req) = map fst (snap_body snap) \<and>
    (\<forall>k. k \<notin> bounding \<longrightarrow> dget (sent_body req) k = dget (snap_body snap) k) \<and>
    (\<exists>f\<in>bounds. dget (sent_body req) f = Some (JInt 1)) \<and>
    (\<forall>h. h \<noteq> ''content-type'' \<longrightarrow> dget (sent_headers req) h = dget (snap_replay_headers snap) h)"
proof -
  obtain w where w: "build (Raw (snap_body snap)) = Inr (Some w)" "sent_body req = w"
    "sent_url req = snap_upstream_url snap"
    "sent_headers req = dset (snap_replay_headers snap) ''content-type'' ''application/json''"
    using assms by (auto simp: execute_def Let_def split: sum.splits option.splits)
  show ?thesis
    using build_keys [OF w(1)] build_frame [OF w(1)] build_bounded [OF w(1)] w(2-4) by simp
qed

lemma exec_result:
  assumes "snd (exec pr post snap) = Inr wr"
  shows "wf_usage (wr_usage wr) \<and>
    (wr_outcome wr = Some CONFIRMED_HIT \<longrightarrow> (\<exists>req r. fst (exec pr post snap) = [req] \<and>
       post req = Some r \<and> two_hundred r \<and> parse r = Inr (wr_usage wr) \<and>
       0 < cache_read_tokens (wr_usage wr))) \<and>
    (wr_outcome wr = None \<longrightarrow> fst (exec pr post snap) = [] \<and> wr_cost_usd wr = 0) \<and>
    (\<forall>req. fst (exec pr post snap) = [req] \<and> post req = None \<longrightarrow>
       wr_outcome wr = Some FAILED \<and> wr_cost_usd wr = 0)"
  using assms hit_evidence parse_wf
  by (auto simp: execute_def Let_def split: sum.splits option.splits)

end

section \<open>The OpenAI-compatible adapter meets the contract\<close>

lemma set_first_bound_spec:
  "set_first_bound fs w = Some w' \<Longrightarrow>
     (\<exists>f\<in>set fs. has_key w f \<and> w' = dset w f (JInt 1) \<and>
        (\<forall>g\<in>set (takeWhile (\<lambda>x. x \<noteq> f) fs). \<not> has_key w g))"
  by (induction fs) (auto split: if_splits)

lemma set_first_bound_None: "set_first_bound fs w = None \<longleftrightarrow> (\<forall>f\<in>set fs. \<not> has_key w f)"
  by (induction fs) auto

lemma dset_keys_present: "has_key w k \<Longrightarrow> map fst (dset w k v) = map fst w"
  by (induction w) (auto simp: has_key_def split: if_splits)

lemma has_key_dset [simp]: "has_key (dset w k v) k' \<longleftrightarrow> k' = k \<or> has_key w k'"
  by (simp add: has_key_def)

definition stream_off :: "json_body \<Rightarrow> json_body" where
  "stream_off b = (if has_key b ''stream'' then dset b ''stream'' (JBool False) else b)"

lemma stream_off_keys [simp]: "map fst (stream_off b) = map fst b"
  by (simp add: stream_off_def dset_keys_present)

lemma has_key_stream_off [simp]: "has_key (stream_off b) k \<longleftrightarrow> has_key b k"
  by (auto simp: stream_off_def)

lemma stream_off_frame [simp]: "k \<noteq> ''stream'' \<Longrightarrow> dget (stream_off b) k = dget b k"
  by (simp add: stream_off_def)

lemma build_Raw:
  "build_warm_request (Raw b) = Inr (set_first_bound OUTPUT_BOUND_FIELDS (stream_off b))"
  by (simp add: build_warm_request_def stream_off_def Let_def)

lemma build_Raw_Some:
  assumes "build_warm_request (Raw b) = Inr (Some w)"
  obtains f where "f \<in> set OUTPUT_BOUND_FIELDS" "has_key b f" "w = dset (stream_off b) f (JInt 1)"
  using assms set_first_bound_spec [of OUTPUT_BOUND_FIELDS "stream_off b" w]
  unfolding build_Raw by auto

interpretation openai: cache_adapter build_warm_request parse_usage classify_cache_result
    "insert ''stream'' (set OUTPUT_BOUND_FIELDS)" "set OUTPUT_BOUND_FIELDS"
proof
  fix b show "\<exists>r. build_warm_request (Raw b) = Inr r" by (simp add: build_Raw)
next
  fix b w assume "build_warm_request (Raw b) = Inr (Some w)"
  then show "map fst w = map fst b"
    by (rule build_Raw_Some) (simp add: dset_keys_present)
next
  fix b w k assume "build_warm_request (Raw b) = Inr (Some w)"
    "k \<notin> insert ''stream'' (set OUTPUT_BOUND_FIELDS)"
  then show "dget w k = dget b k"
    by (elim build_Raw_Some) auto
next
  fix b w assume "build_warm_request (Raw b) = Inr (Some w)"
  then show "\<exists>f\<in>set OUTPUT_BOUND_FIELDS. dget w f = Some (JInt 1)"
    by (rule build_Raw_Some) auto
next
  fix r u assume "parse_usage r = Inr u" then show "wf_usage u"
    unfolding parse_usage_def by (rule normalize_wf)
next
  fix u r show "classify_cache_result u r = CONFIRMED_HIT \<Longrightarrow> two_hundred r \<and> 0 < cache_read_tokens u"
    by (auto simp: classify_cache_result_def classify_outcome_def two_hundred_def split: if_splits)
next
  fix u r show "classify_cache_result u r = FAILED \<longleftrightarrow> \<not> two_hundred r"
    by (auto simp: classify_cache_result_def classify_outcome_def two_hundred_def)
qed

abbreviation openai_execute ::
  "pricing_table option \<Rightarrow> (sent_request \<Rightarrow> phys_response option) \<Rightarrow> request_snapshot \<Rightarrow>
     sent_request list \<times> (py_error + warm_result)" where
  "openai_execute \<equiv> execute build_warm_request parse_usage classify_cache_result"

text \<open>C16: A warm is a bounded, cache-equivalent replay. Whatever the snapshot and the provider's
  answer, the executor puts at most one request on the wire; it goes to the snapshot's address, with
  the snapshot's keys in their order, with every field other than the streaming flag and the output
  bounds untouched, with one output bound set to 1, and with the snapshot's own replay headers.\<close>

theorem warm_is_bounded_replay:
  "length (fst (openai_execute pr post snap)) \<le> 1 \<and>
   (\<forall>req\<in>set (fst (openai_execute pr post snap)).
      sent_url req = snap_upstream_url snap \<and>
      map fst (sent_body req) = map fst (snap_body snap) \<and>
      (\<forall>k. k \<notin> insert ''stream'' (set OUTPUT_BOUND_FIELDS) \<longrightarrow>
         dget (sent_body req) k = dget (snap_body snap) k) \<and>
      (\<exists>f\<in>set OUTPUT_BOUND_FIELDS. dget (sent_body req) f = Some (JInt 1)) \<and>
      (\<forall>h. h \<noteq> ''content-type'' \<longrightarrow>
         dget (sent_headers req) h = dget (snap_replay_headers snap) h))"
  using openai.exec_sends_once openai.exec_replays by blast

definition sample_snapshot :: request_snapshot where
  "sample_snapshot = \<lparr>snap_fingerprint = ''fp'',
     snap_body = [(''model'', JStr ''m''), (''stream'', JBool True), (''max_completion_tokens'', JInt 900)],
     snap_upstream_url = ''u'', snap_replay_headers = [(''api-key'', ''s'')], snap_stored_at = 0\<rparr>"

definition sample_post :: "sent_request \<Rightarrow> phys_response option" where
  "sample_post req = Some \<lparr>status_code = 200, resp_json = Some (JObj [(''usage'', JObj
     [(''prompt_tokens'', JInt 50), (''prompt_tokens_details'', JObj [(''cached_tokens'', JInt 40)])])])\<rparr>"

lemma sample_sent:
  "fst (openai_execute None sample_post sample_snapshot) =
    [\<lparr>sent_url = ''u'', sent_body = [(''model'', JStr ''m''), (''stream'', JBool False),
        (''max_completion_tokens'', JInt 1)],
      sent_headers = [(''api-key'', ''s''), (''content-type'', ''application/json'')]\<rparr>]"
  by (simp add: execute_def build_Raw stream_off_def has_key_def OUTPUT_BOUND_FIELDS_def
      sample_snapshot_def Let_def)

theorem warm_is_bounded_replay_witness:
  "dget (sent_body (hd (fst (openai_execute None sample_post sample_snapshot)))) ''model'' =
     Some (JStr ''m'')"
proof -
  have m: "''model'' \<notin> insert ''stream'' (set OUTPUT_BOUND_FIELDS)"
    by (simp add: OUTPUT_BOUND_FIELDS_def)
  have h: "hd (fst (openai_execute None sample_post sample_snapshot)) \<in>
      set (fst (openai_execute None sample_post sample_snapshot))"
    by (simp add: sample_sent)
  have "\<forall>k. k \<notin> insert ''stream'' (set OUTPUT_BOUND_FIELDS) \<longrightarrow>
      dget (sent_body (hd (fst (openai_execute None sample_post sample_snapshot)))) k =
      dget (snap_body sample_snapshot) k"
    using bspec [OF conjunct2 [OF warm_is_bounded_replay [of None sample_post sample_snapshot]] h]
    by (elim conjE)
  from this [rule_format, OF m]
show ?thesis by (simp add: sample_snapshot_def)
qed

text \<open>C17: The executor fails closed and reports honestly. It sends nothing exactly when the
  snapshot's body carries none of the output-bound fields, and then it reports no outcome and no
  cost; a transport failure is reported as FAILED at no cost; a confirmed hit is reported only for a
  2xx response whose parsed usage shows cached tokens.\<close>

theorem warm_outcome_honest:
  "(fst (openai_execute pr post snap) = [] \<longleftrightarrow>
      (\<forall>f\<in>set OUTPUT_BOUND_FIELDS. \<not> has_key (snap_body snap) f)) \<and>
   (\<forall>wr. snd (openai_execute pr post snap) = Inr wr \<longrightarrow>
      (wr_outcome wr = None \<longrightarrow> fst (openai_execute pr post snap) = [] \<and> wr_cost_usd wr = 0) \<and>
      (\<forall>req. fst (openai_execute pr post snap) = [req] \<and> post req = None \<longrightarrow>
         wr_outcome wr = Some FAILED \<and> wr_cost_usd wr = 0) \<and>
      (wr_outcome wr = Some CONFIRMED_HIT \<longrightarrow>
         (\<exists>req r. fst (openai_execute pr post snap) = [req] \<and> post req = Some r \<and> two_hundred r \<and>
            parse_usage r = Inr (wr_usage wr) \<and> 0 < cache_read_tokens (wr_usage wr))))"
proof -
  have "fst (openai_execute pr post snap) = [] \<longleftrightarrow>
      set_first_bound OUTPUT_BOUND_FIELDS (stream_off (snap_body snap)) = None"
    by (simp add: execute_def build_Raw Let_def split: option.split)
  moreover have "\<forall>wr. snd (openai_execute pr post snap) = Inr wr \<longrightarrow>
      (wr_outcome wr = None \<longrightarrow> fst (openai_execute pr post snap) = [] \<and> wr_cost_usd wr = 0) \<and>
      (\<forall>req. fst (openai_execute pr post snap) = [req] \<and> post req = None \<longrightarrow>
         wr_outcome wr = Some FAILED \<and> wr_cost_usd wr = 0) \<and>
      (wr_outcome wr = Some CONFIRMED_HIT \<longrightarrow>
         (\<exists>req r. fst (openai_execute pr post snap) = [req] \<and> post req = Some r \<and> two_hundred r \<and>
            parse_usage r = Inr (wr_usage wr) \<and> 0 < cache_read_tokens (wr_usage wr)))"
    using openai.exec_result [of pr post snap] by blast
  ultimately show ?thesis by (simp add: set_first_bound_None)
qed

theorem warm_outcome_honest_witness:
  "\<exists>wr. snd (openai_execute None sample_post sample_snapshot) = Inr wr \<and>
     wr_outcome wr = Some CONFIRMED_HIT \<and> 0 < cache_read_tokens (wr_usage wr)"
proof -
  obtain wr where wr: "snd (openai_execute None sample_post sample_snapshot) = Inr wr"
    "wr_outcome wr = Some CONFIRMED_HIT"
    by (simp add: execute_def build_Raw stream_off_def has_key_def OUTPUT_BOUND_FIELDS_def
      sample_snapshot_def sample_post_def parse_usage_def classify_cache_result_def
      usage_part_def payload_of_def usage_of_payload_def normalize_def normalize_openai_def
      details_cached_def mk_usage_def non_negative_def finite_cost_def usage_has_cache_telemetry_def
      TELEMETRY_KEYS_def TELEMETRY_DETAILS_KEYS_def classify_outcome_def py_lower_def)
  with warm_outcome_honest [of None sample_post sample_snapshot] show ?thesis by blast
qed

end
