(* ===== verification/LeaseConfig.thy ===== *)
theory LeaseConfig
  imports Economics
begin

text \<open>
  Lease settings and their environment readers, \<open>LeaseSettings\<close> and the \<open>_env_*\<close> functions of
  \<open>cachepilot_core/leases.py\<close>. The environment is a partial map. A setting read from text can be
  infinite, so \<open>from_env\<close> returns a record over \<open>pyfloat\<close>; the lease manager's model uses the
  same record over exact numbers, embedded by \<open>exact_settings\<close>.
\<close>

type_synonym env = "string \<Rightarrow> string option"

record 'f lease_settings_of =
  ls_warm_fraction :: 'f
  ls_minimum_margin_s :: 'f
  ls_latency_multiplier :: 'f
  ls_jitter_fraction :: 'f
  ls_default_ttl_s :: 'f
  ls_scheduler_interval_s :: 'f
  ls_ttl_force_seconds :: "'f option"
  ls_ttl_minimum_samples :: int
  ls_dry_run :: bool
  ls_economics :: economic_config
  ls_pricing :: "pricing_table option"
  ls_resume_probability :: 'f
  ls_detached_resume_probability :: 'f

type_synonym lease_settings = "flt lease_settings_of"
type_synonym raw_settings = "pyfloat lease_settings_of"

definition DEFAULT_RESUME_PROBABILITY :: flt where "DEFAULT_RESUME_PROBABILITY = 95 / 100"
definition DEFAULT_DETACHED_RESUME_PROBABILITY :: flt where
  "DEFAULT_DETACHED_RESUME_PROBABILITY = 20 / 100"

definition default_settings :: lease_settings where
  "default_settings = \<lparr>ls_warm_fraction = 80 / 100, ls_minimum_margin_s = 10,
     ls_latency_multiplier = 2, ls_jitter_fraction = 3 / 100, ls_default_ttl_s = 300,
     ls_scheduler_interval_s = 1, ls_ttl_force_seconds = None, ls_ttl_minimum_samples = 3,
     ls_dry_run = True, ls_economics = default_economic_config, ls_pricing = None,
     ls_resume_probability = DEFAULT_RESUME_PROBABILITY,
     ls_detached_resume_probability = DEFAULT_DETACHED_RESUME_PROBABILITY\<rparr>"

section \<open>Comparisons with an infinity or a NaN\<close>

fun pf_less :: "pyfloat \<Rightarrow> pyfloat \<Rightarrow> bool" where
  "pf_less (Fin a) (Fin b) = (a < b)"
| "pf_less NInf (Fin b) = True"
| "pf_less NInf PInf = True"
| "pf_less (Fin a) PInf = True"
| "pf_less x y = False"

fun pf_le :: "pyfloat \<Rightarrow> pyfloat \<Rightarrow> bool" where
  "pf_le NaN y = False"
| "pf_le x NaN = False"
| "pf_le x y = (pf_less x y \<or> x = y)"

section \<open>Readers\<close>

definition env_float :: "string option \<Rightarrow> flt \<Rightarrow> pyfloat" where
  "env_float raw dflt = (case raw of None \<Rightarrow> Fin dflt
     | Some s \<Rightarrow> opt_or (py_float_of_string (py_strip s)) (Fin dflt))"

definition env_float_or_none :: "string option \<Rightarrow> pyfloat option" where
  "env_float_or_none raw = (case raw of None \<Rightarrow> None
     | Some s \<Rightarrow> if py_strip s = [] then None
         else (case py_float_of_string (py_strip s) of None \<Rightarrow> None
               | Some v \<Rightarrow> if pf_less (Fin 0) v then Some v else None))"

definition env_int :: "string option \<Rightarrow> int \<Rightarrow> int" where
  "env_int raw dflt = (case raw of None \<Rightarrow> dflt
     | Some s \<Rightarrow> (case py_int_of_string (py_strip s) of None \<Rightarrow> dflt
         | Some v \<Rightarrow> if 1 \<le> v then v else dflt))"

definition env_flag :: "string option \<Rightarrow> bool \<Rightarrow> bool" where
  "env_flag raw dflt = (case raw of None \<Rightarrow> dflt
     | Some s \<Rightarrow> (let value = py_lower (py_strip s) in
         if value \<in> {''1'', ''true'', ''yes'', ''on''} then True
         else if value \<in> {''0'', ''false'', ''no'', ''off''} then False else dflt))"

definition env_bounded ::
  "string option \<Rightarrow> flt \<Rightarrow> flt \<Rightarrow> flt option \<Rightarrow> bool \<Rightarrow> bool \<Rightarrow> py_error + pyfloat" where
  \<comment> \<open>The order comparison of a Decimal NaN raises outside the \<open>try\<close>.\<close>
  "env_bounded raw dflt lo hi lo_excl hi_excl =
     (case raw of None \<Rightarrow> Inr (Fin dflt)
      | Some s \<Rightarrow>
          (case py_decimal_of_string (py_strip s) of
             None \<Rightarrow> Inr (Fin dflt)
           | Some v \<Rightarrow>
               if v = NaN then Inl InvalidOperation
               else if pf_less v (Fin lo) \<or> (\<not> lo_excl \<and> v = Fin lo) then Inr (Fin dflt)
               else (case hi of
                       None \<Rightarrow> Inr v
                     | Some h \<Rightarrow>
                         if pf_less (Fin h) v \<or> (\<not> hi_excl \<and> v = Fin h) then Inr (Fin dflt)
                         else Inr v)))"

fun pricing_rates :: "string option list \<Rightarrow> py_error + pyfloat list option" where
  \<comment> \<open>The loop over the raw rates; \<open>Inr None\<close> is its early \<open>return None\<close>.\<close>
  "pricing_rates [] = Inr (Some [])"
| "pricing_rates (raw # rest) =
     (case raw of None \<Rightarrow> Inr None
      | Some s \<Rightarrow>
          (case py_decimal_of_string (py_strip s) of
             None \<Rightarrow> Inr None
           | Some v \<Rightarrow>
               if v = NaN then Inl InvalidOperation
               else if pf_less v (Fin 0) then Inr None
               else res_bind (pricing_rates rest) (\<lambda>r. Inr (map_option ((#) v) r))))"

definition mk_pricing :: "pyfloat list \<Rightarrow> py_error + pricing_table" where
  \<comment> \<open>The table's Decimal fields are finite and at least 0.\<close>
  "mk_pricing rates =
     (case rates of
        [Fin a, Fin b, Fin c, Fin d] \<Rightarrow>
          (let p = \<lparr>input_per_mtok = a, output_per_mtok = b, cache_read_per_mtok = c,
                    cache_write_per_mtok = d\<rparr>
           in if valid_pricing p then Inr p else Inl ValidationError)
      | _ \<Rightarrow> Inl ValidationError)"

definition pricing_from_env :: "env \<Rightarrow> py_error + pricing_table option" where
  "pricing_from_env env =
     (let raw = map env [''CACHEPILOT_PRICING_INPUT_PER_MTK'', ''CACHEPILOT_PRICING_OUTPUT_PER_MTK'',
                ''CACHEPILOT_PRICING_CACHE_READ_PER_MTK'', ''CACHEPILOT_PRICING_CACHE_WRITE_PER_MTK'']
      in if None \<in> set raw then Inr None
         else res_bind (pricing_rates raw) (\<lambda>rates.
           (case rates of None \<Rightarrow> Inr None
            | Some rs \<Rightarrow> res_bind (mk_pricing rs) (\<lambda>p. Inr (Some p)))))"

definition mk_economic_config :: "bool \<Rightarrow> pyfloat \<Rightarrow> pyfloat \<Rightarrow> py_error + economic_config" where
  "mk_economic_config en ratio savings =
     (case (ratio, savings) of
        (Fin r, Fin s) \<Rightarrow>
          (let c = \<lparr>enabled = en, budget_ratio = r, safety_margin = 0, minimum_expected_savings = s\<rparr>
           in if valid_economic_config c then Inr c else Inl ValidationError)
      | _ \<Rightarrow> Inl ValidationError)"

definition valid_raw_settings :: "raw_settings \<Rightarrow> bool" where
  \<comment> \<open>The field constraints of \<open>LeaseSettings\<close>.\<close>
  "valid_raw_settings s \<longleftrightarrow>
     pf_less (Fin 0) (ls_warm_fraction s) \<and> pf_le (ls_warm_fraction s) (Fin 1) \<and>
     pf_le (Fin 0) (ls_minimum_margin_s s) \<and> pf_le (Fin 0) (ls_latency_multiplier s) \<and>
     pf_le (Fin 0) (ls_jitter_fraction s) \<and> pf_le (ls_jitter_fraction s) (Fin 1) \<and>
     pf_less (Fin 0) (ls_default_ttl_s s) \<and> pf_less (Fin 0) (ls_scheduler_interval_s s) \<and>
     (case ls_ttl_force_seconds s of None \<Rightarrow> True | Some f \<Rightarrow> pf_less (Fin 0) f) \<and>
     1 \<le> ls_ttl_minimum_samples s \<and>
     pf_le (Fin 0) (ls_resume_probability s) \<and> pf_le (ls_resume_probability s) (Fin 1) \<and>
     pf_le (Fin 0) (ls_detached_resume_probability s) \<and>
     pf_le (ls_detached_resume_probability s) (Fin 1)"

definition from_env :: "env \<Rightarrow> py_error + raw_settings" where
  "from_env env =
     res_bind (env_bounded (env ''CACHEPILOT_ECONOMICS_BUDGET_RATIO'') (70 / 100) 0 (Some 1) True False) (\<lambda>ratio.
     res_bind (env_bounded (env ''CACHEPILOT_ECONOMICS_MINIMUM_EXPECTED_SAVINGS_USD'') 0 0 None False False) (\<lambda>savings.
     res_bind (mk_economic_config
         (env_flag (Some (opt_or (env ''CACHEPILOT_ECONOMICS_ENABLED'') ''true'')) True) ratio savings) (\<lambda>econ.
     res_bind (pricing_from_env env) (\<lambda>pricing.
     res_bind (env_bounded (env ''CACHEPILOT_ECONOMICS_RESUME_PROBABILITY'')
         DEFAULT_RESUME_PROBABILITY 0 (Some 1) False False) (\<lambda>resume.
     res_bind (env_bounded (env ''CACHEPILOT_ECONOMICS_DETACHED_RESUME_PROBABILITY'')
         DEFAULT_DETACHED_RESUME_PROBABILITY 0 (Some 1) False False) (\<lambda>detached.
       let s = \<lparr>ls_warm_fraction = env_float (env ''CACHEPILOT_LEASE_WARM_FRACTION'') (80 / 100),
            ls_minimum_margin_s = env_float (env ''CACHEPILOT_LEASE_MINIMUM_MARGIN_S'') 10,
            ls_latency_multiplier = env_float (env ''CACHEPILOT_LEASE_LATENCY_MULTIPLIER'') 2,
            ls_jitter_fraction = env_float (env ''CACHEPILOT_LEASE_JITTER_FRACTION'') (3 / 100),
            ls_default_ttl_s = env_float (env ''CACHEPILOT_LEASE_DEFAULT_TTL_S'') 300,
            ls_scheduler_interval_s = env_float (env ''CACHEPILOT_LEASE_SCHEDULER_INTERVAL_S'') 1,
            ls_ttl_force_seconds = env_float_or_none (env ''CACHEPILOT_TTL_FORCE_SECONDS''),
            ls_ttl_minimum_samples = env_int (env ''CACHEPILOT_TTL_MINIMUM_SAMPLES'') 3,
            ls_dry_run = env_flag (Some (opt_or (env ''CACHEPILOT_LEASE_DRY_RUN'') ''true'')) True,
            ls_economics = econ, ls_pricing = pricing,
            ls_resume_probability = resume, ls_detached_resume_probability = detached\<rparr>
       in if valid_raw_settings s then Inr s else Inl ValidationError))))))"

section \<open>Properties\<close>

lemma env_int_positive: "1 \<le> dflt \<Longrightarrow> 1 \<le> env_int raw dflt"
  by (simp add: env_int_def split: option.split)

lemma env_float_or_none_positive: "env_float_or_none raw = Some v \<Longrightarrow> pf_less (Fin 0) v"
  by (auto simp: env_float_or_none_def split: option.splits if_splits)

text \<open>Which value a bounded variable yields. A finite number inside the bounds is used; with the
  bounds as the code calls them (neither exclusive flag set) both end points are refused and the
  default is used instead, and setting an exclusive flag is what lets that end point through.\<close>

theorem env_bounded_exact:
  assumes "py_decimal_of_string (py_strip s) = Some (Fin v)" and "lo < hi"
  shows "env_bounded (Some s) dflt lo (Some hi) lo_excl hi_excl =
    Inr (Fin (if lo < v \<and> v < hi \<or> v = lo \<and> lo_excl \<or> v = hi \<and> hi_excl then v else dflt))"
  using assms by (auto simp: env_bounded_def)

theorem env_bounded_exact_witness:
  "env_bounded (Some ''1'') (95 / 100) 0 (Some 1) False False = Inr (Fin (95 / 100)) \<and>
   env_bounded (Some ''0'') (7 / 10) 0 (Some 1) True False = Inr (Fin 0)"
proof -
  have d: "py_decimal_of_string (py_strip ''1'') = Some (Fin 1)"
    "py_decimal_of_string (py_strip ''0'') = Some (Fin 0)" by code_simp+
  show ?thesis
    using env_bounded_exact [OF d(1), of 0 1 "95 / 100" False False]
      env_bounded_exact [OF d(2), of 0 1 "7 / 10" True False] by simp
qed

lemma pricing_rates_length: "pricing_rates raw = Inr (Some rs) \<Longrightarrow> length rs = length raw"
  by (induction raw arbitrary: rs) (auto split: option.splits if_splits)

lemma mk_pricing_valid: "mk_pricing rs = Inr p \<Longrightarrow> valid_pricing p"
  by (auto simp: mk_pricing_def Let_def split: list.splits pyfloat.splits if_splits)

lemma pricing_from_env_valid: "pricing_from_env env = Inr (Some p) \<Longrightarrow> valid_pricing p"
  by (auto simp: pricing_from_env_def Let_def split: if_splits option.splits dest: mk_pricing_valid)

lemma pricing_from_env_all_or_nothing:
  "env ''CACHEPILOT_PRICING_CACHE_WRITE_PER_MTK'' = None \<Longrightarrow> pricing_from_env env = Inr None"
  by (simp add: pricing_from_env_def)

lemma mk_economic_config_valid: "mk_economic_config en r s = Inr c \<Longrightarrow> valid_economic_config c"
  by (auto simp: mk_economic_config_def Let_def split: pyfloat.splits if_splits)

lemma env_flag_True_off:
  "\<not> env_flag (Some s) True \<longleftrightarrow> py_lower (py_strip s) \<in> {''0'', ''false'', ''no'', ''off''}"
  by (auto simp: env_flag_def Let_def)

text \<open>C25: Settings that load are sound and fail closed. Whatever the environment holds, settings
  that \<open>from_env\<close> returns satisfy every field constraint, carry a valid economic configuration and
  either no pricing or a valid table, and leave dry-run mode only when the variable says 0, false,
  no or off.\<close>

theorem from_env_sound:
  assumes "from_env env = Inr s"
  shows "valid_raw_settings s \<and> valid_economic_config (ls_economics s) \<and>
    (\<forall>p. ls_pricing s = Some p \<longrightarrow> valid_pricing p) \<and>
    (ls_dry_run s \<or> (\<exists>v. env ''CACHEPILOT_LEASE_DRY_RUN'' = Some v \<and>
       py_lower (py_strip v) \<in> {''0'', ''false'', ''no'', ''off''}))"
proof -
  from assms obtain ratio savings econ pricing where
    e: "mk_economic_config (env_flag (Some (opt_or (env ''CACHEPILOT_ECONOMICS_ENABLED'') ''true'')) True)
         ratio savings = Inr econ" "ls_economics s = econ"
    and p: "pricing_from_env env = Inr pricing" "ls_pricing s = pricing"
    and v: "valid_raw_settings s"
    and d: "ls_dry_run s = env_flag (Some (opt_or (env ''CACHEPILOT_LEASE_DRY_RUN'') ''true'')) True"
    unfolding from_env_def by (auto simp: Let_def split: if_splits)
  have "ls_dry_run s \<or> (\<exists>v. env ''CACHEPILOT_LEASE_DRY_RUN'' = Some v \<and>
       py_lower (py_strip v) \<in> {''0'', ''false'', ''no'', ''off''})"
  proof (cases "env ''CACHEPILOT_LEASE_DRY_RUN''")
    case None
    then show ?thesis unfolding d by (simp add: env_flag_def) code_simp
  next
    case (Some v)
    then show ?thesis unfolding d using env_flag_True_off [of v] by auto
  qed
  moreover have "valid_economic_config (ls_economics s)"
    using mk_economic_config_valid [OF e(1)] e(2) by simp
  moreover have "\<forall>q. ls_pricing s = Some q \<longrightarrow> valid_pricing q"
    using pricing_from_env_valid [of env] p by auto
  ultimately show ?thesis using v by blast
qed

lemma from_env_unset:
  "from_env (\<lambda>_. None) = Inr \<lparr>ls_warm_fraction = Fin (80 / 100), ls_minimum_margin_s = Fin 10,
     ls_latency_multiplier = Fin 2, ls_jitter_fraction = Fin (3 / 100), ls_default_ttl_s = Fin 300,
     ls_scheduler_interval_s = Fin 1, ls_ttl_force_seconds = None, ls_ttl_minimum_samples = 3,
     ls_dry_run = True, ls_economics = default_economic_config, ls_pricing = None,
     ls_resume_probability = Fin DEFAULT_RESUME_PROBABILITY,
     ls_detached_resume_probability = Fin DEFAULT_DETACHED_RESUME_PROBABILITY\<rparr>"
proof -
  have f: "env_flag (Some ''true'') True" by code_simp
  show ?thesis
    by (simp add: from_env_def env_bounded_def mk_economic_config_def pricing_from_env_def
        env_float_def env_float_or_none_def env_int_def f valid_raw_settings_def
        valid_economic_config_def default_economic_config_def DEFAULT_RESUME_PROBABILITY_def
        DEFAULT_DETACHED_RESUME_PROBABILITY_def)
qed

theorem from_env_sound_witness:
  "\<exists>s. from_env (\<lambda>_. None) = Inr s \<and> valid_raw_settings s \<and> ls_dry_run s"
proof -
  obtain s where s: "from_env (\<lambda>_. None) = Inr s" using from_env_unset by blast
  show ?thesis using from_env_sound [OF s] s by auto
qed

text \<open>
  A number that parses but is out of range is not replaced by the default: the constructor raises.
\<close>

lemma out_of_range_raises:
  "from_env (\<lambda>k. if k = ''CACHEPILOT_LEASE_WARM_FRACTION'' then Some ''nan'' else None) =
     Inl ValidationError"
proof -
  have f: "env_flag (Some ''true'') True" by code_simp
  have n: "py_float_of_string (py_strip ''nan'') = Some NaN"
    by (simp add: py_float_of_string_def py_strip_def lstrip_def rstrip_by_def is_space_def code_def
        split_sign.simps py_lower_def lower_char_def)
  show ?thesis
    by (simp add: from_env_def env_bounded_def mk_economic_config_def pricing_from_env_def
        env_float_def env_float_or_none_def env_int_def f n valid_raw_settings_def
        valid_economic_config_def)
qed

lemma nan_rate_raises:
  "env_bounded (Some ''nan'') dflt lo hi le he = Inl InvalidOperation"
proof -
  have "py_decimal_of_string (py_strip ''nan'') = Some NaN" by code_simp
  then show ?thesis by (simp add: env_bounded_def)
qed

section \<open>The settings the lease manager's model uses\<close>

definition exact_settings :: "lease_settings \<Rightarrow> raw_settings" where
  \<comment> \<open>The embedding of exact settings, so \<open>from_env env = Inr (exact_settings s)\<close> says that
    the environment yields \<open>s\<close>.\<close>
  "exact_settings s = \<lparr>ls_warm_fraction = Fin (ls_warm_fraction s),
     ls_minimum_margin_s = Fin (ls_minimum_margin_s s),
     ls_latency_multiplier = Fin (ls_latency_multiplier s),
     ls_jitter_fraction = Fin (ls_jitter_fraction s), ls_default_ttl_s = Fin (ls_default_ttl_s s),
     ls_scheduler_interval_s = Fin (ls_scheduler_interval_s s),
     ls_ttl_force_seconds = map_option Fin (ls_ttl_force_seconds s),
     ls_ttl_minimum_samples = ls_ttl_minimum_samples s, ls_dry_run = ls_dry_run s,
     ls_economics = ls_economics s, ls_pricing = ls_pricing s,
     ls_resume_probability = Fin (ls_resume_probability s),
     ls_detached_resume_probability = Fin (ls_detached_resume_probability s)\<rparr>"

definition valid_settings :: "lease_settings \<Rightarrow> bool" where
  "valid_settings s \<longleftrightarrow>
     0 < ls_warm_fraction s \<and> ls_warm_fraction s \<le> 1 \<and> 0 \<le> ls_minimum_margin_s s \<and>
     0 \<le> ls_latency_multiplier s \<and> 0 \<le> ls_jitter_fraction s \<and> ls_jitter_fraction s \<le> 1 \<and>
     0 < ls_default_ttl_s s \<and> 0 < ls_scheduler_interval_s s \<and>
     (\<forall>f. ls_ttl_force_seconds s = Some f \<longrightarrow> 0 < f) \<and> 1 \<le> ls_ttl_minimum_samples s \<and>
     0 \<le> ls_resume_probability s \<and> ls_resume_probability s \<le> 1 \<and>
     0 \<le> ls_detached_resume_probability s \<and> ls_detached_resume_probability s \<le> 1"

lemma valid_exact_settings: "valid_raw_settings (exact_settings s) \<longleftrightarrow> valid_settings s"
  by (auto simp: valid_raw_settings_def exact_settings_def valid_settings_def le_less
      split: option.splits)

lemma from_env_defaults: "from_env (\<lambda>_. None) = Inr (exact_settings default_settings)"
  by (simp add: from_env_unset exact_settings_def default_settings_def)

end
