(* ===== verification/Leases.thy ===== *)
theory Leases
  imports LeaseConfig RouteAffinity Adapters Ttl
begin

text \<open>
  The lease manager, \<open>cachepilot_core/leases.py\<close>: leases, their process-local runtime records,
  the registry operations, the real-request-wins bookkeeping, the safe deadline with its
  deterministic jitter, the economic gate and the warm algorithm. Every method is a function on the
  manager's state; the clock and a fresh lease id are arguments. A coroutine is split at its
  \<open>await\<close>s: \<open>evaluate_head\<close> runs to the per-fingerprint lock, \<open>under_lock\<close> from the lock to
  the executor call and \<open>finish_warm\<close> from the executor's answer to the end. A missing runtime
  record reads as the initial one, which is what \<open>_runtime_for\<close> creates.
\<close>

datatype lease_state = INACTIVE | ARMED | WARM_SCHEDULED | WARMING | ECONOMIC_STOP_state | INVALIDATED

record cache_lease =
  cl_lease_id :: string
  cl_session_id :: string
  cl_provider :: string
  cl_model :: string
  cl_api_mode :: string
  cl_base_url :: string
  cl_auth_scope_hash :: string
  cl_route_fingerprint :: "string option"
  cl_request_fingerprint :: string
  cl_cache_fingerprint :: string
  cl_system_fingerprint :: string
  cl_tools_fingerprint :: string
  cl_history_prefix_fingerprint :: string
  cl_last_real_request_at :: flt
  cl_last_cache_touch_at :: "flt option"
  cl_last_confirmed_hit_at :: "flt option"
  cl_estimated_ttl_s :: flt
  cl_ttl_confidence :: flt
  cl_active_targets :: "string set"
  cl_generation :: int
  cl_warm_count :: int
  cl_warm_cost_usd :: flt
  cl_estimated_cold_resume_cost_usd :: "flt option"
  cl_estimated_cached_resume_cost_usd :: "flt option"
  cl_prefix_tokens :: "int option"
  cl_next_warm_cost_usd :: "flt option"
  cl_last_warm_decision :: "warm_decision option"
  cl_state :: lease_state

definition lease_arm :: "cache_lease \<Rightarrow> cache_lease" where
  "lease_arm l = (if cl_state l \<noteq> INVALIDATED then l\<lparr>cl_state := ARMED\<rparr> else l)"

definition lease_disarm :: "cache_lease \<Rightarrow> cache_lease" where
  "lease_disarm l = l\<lparr>cl_state := INACTIVE\<rparr>"

datatype lease_decision = SCHEDULED | SKIPPED_DRY_RUN | SKIPPED_BUSY | SKIPPED_STALE
  | SKIPPED_NO_TARGETS | SKIPPED_ALREADY_WARMING | SKIPPED_UNKNOWN_TTL | SKIPPED_UNSUPPORTED
  | SKIPPED_CIRCUIT_OPEN | STOPPED_NO_TARGETS | STOPPED_INVALIDATED | STOPPED_ECONOMIC
  | WARMED_CONFIRMED_HIT | WARMED_MISS_REBUILT | WARMED_UNVERIFIED | WARMED_FAILED

record lease_runtime =
  rt_real_request_active :: bool
  rt_warm_request_active :: bool
  rt_scheduled_generation :: "int option"
  rt_pending_warm :: bool
  rt_consecutive_warm_misses :: nat
  rt_circuit_open :: bool

definition initial_runtime :: lease_runtime where
  "initial_runtime = \<lparr>rt_real_request_active = False, rt_warm_request_active = False,
     rt_scheduled_generation = None, rt_pending_warm = False, rt_consecutive_warm_misses = 0,
     rt_circuit_open = False\<rparr>"

record lease_manager =
  lm_settings :: lease_settings
  lm_latency_p95_s :: flt
  lm_snapshot_store :: "snapshot_map option"
  lm_has_executor :: bool
  lm_pricing :: "pricing_table option"
  lm_price_override :: "flt option"
  lm_economics :: economic_config
  lm_ttl_resolver :: "ttl_resolver option"
  lm_leases :: "(string, cache_lease) dict"
  lm_by_cache_fingerprint :: "(string, string) dict"
  lm_runtime :: "(string, lease_runtime) dict"

definition mk_manager ::
  "lease_settings \<Rightarrow> flt \<Rightarrow> snapshot_map option \<Rightarrow> bool \<Rightarrow> pricing_table option \<Rightarrow> flt option \<Rightarrow>
   economic_config option \<Rightarrow> ttl_resolver option \<Rightarrow> lease_manager" where
  "mk_manager settings latency snaps has_executor pricing override econ resolver =
     \<lparr>lm_settings = settings, lm_latency_p95_s = latency, lm_snapshot_store = snaps,
      lm_has_executor = has_executor,
      lm_pricing = (case pricing of Some p \<Rightarrow> Some p | None \<Rightarrow> ls_pricing settings),
      lm_price_override = override, lm_economics = opt_or econ (ls_economics settings),
      lm_ttl_resolver = resolver, lm_leases = [], lm_by_cache_fingerprint = [], lm_runtime = []\<rparr>"

section \<open>Internals\<close>

definition lease_of :: "lease_manager \<Rightarrow> string \<Rightarrow> cache_lease option" where
  "lease_of m lid = dget (lm_leases m) lid"

definition require :: "lease_manager \<Rightarrow> string \<Rightarrow> py_error + cache_lease" where
  "require m lid = (case lease_of m lid of None \<Rightarrow> Inl KeyError | Some l \<Rightarrow> Inr l)"

definition runtime_for :: "lease_manager \<Rightarrow> string \<Rightarrow> lease_runtime" where
  "runtime_for m lid = opt_or (dget (lm_runtime m) lid) initial_runtime"

definition put_lease :: "lease_manager \<Rightarrow> string \<Rightarrow> cache_lease \<Rightarrow> lease_manager" where
  "put_lease m lid l = m\<lparr>lm_leases := dset (lm_leases m) lid l\<rparr>"

definition put_runtime :: "lease_manager \<Rightarrow> string \<Rightarrow> lease_runtime \<Rightarrow> lease_manager" where
  "put_runtime m lid r = m\<lparr>lm_runtime := dset (lm_runtime m) lid r\<rparr>"

definition cancel_pending_warm :: "lease_manager \<Rightarrow> string \<Rightarrow> lease_manager" where
  "cancel_pending_warm m lid = put_runtime m lid ((runtime_for m lid)\<lparr>rt_pending_warm := False\<rparr>)"

definition jitter_for :: "lease_manager \<Rightarrow> string \<Rightarrow> flt" where
  "jitter_for m fp =
     (let n = foldl (\<lambda>acc b. acc * 256 + unat b) 0 (take 8 (sha256 (utf8 fp)));
          unit = of_nat n / 2 ^ 64
      in (unit * 2 - 1) * ls_jitter_fraction (lm_settings m))"

section \<open>Registry\<close>

definition cache_fingerprints :: "lease_manager \<Rightarrow> string set" where
  "cache_fingerprints m = (\<lambda>(i, l). cl_cache_fingerprint l) ` set (lm_leases m)"

definition is_warming :: "lease_manager \<Rightarrow> string \<Rightarrow> bool" where
  "is_warming m lid = rt_warm_request_active (runtime_for m lid)"

definition arm :: "lease_manager \<Rightarrow> string \<Rightarrow> py_error + lease_manager" where
  "arm m lid = res_bind (require m lid) (\<lambda>l. Inr (put_lease m lid (lease_arm l)))"

definition invalidate :: "lease_manager \<Rightarrow> string \<Rightarrow> py_error + lease_manager" where
  "invalidate m lid = res_bind (require m lid) (\<lambda>l.
     let m = put_lease m lid (l\<lparr>cl_state := INVALIDATED\<rparr>);
         m = cancel_pending_warm m lid
     in Inr (put_runtime m lid ((runtime_for m lid)\<lparr>rt_real_request_active := False,
               rt_warm_request_active := False\<rparr>)))"

definition complete :: "lease_manager \<Rightarrow> string \<Rightarrow> py_error + lease_manager" where
  "complete m lid = res_bind (require m lid) (\<lambda>l.
     let m = cancel_pending_warm m lid
     in Inr (put_lease m lid (lease_disarm (l\<lparr>cl_active_targets := {}\<rparr>))))"

record lease_request =
  lq_session_id :: string
  lq_provider :: string
  lq_model :: string
  lq_api_mode :: string
  lq_base_url :: string
  lq_auth_scope_hash :: string
  lq_route_fingerprint :: "string option"
  lq_request_fingerprint :: string
  lq_cache_fingerprint :: string
  lq_system_fingerprint :: string
  lq_tools_fingerprint :: string
  lq_history_prefix_fingerprint :: string
  lq_estimated_ttl_s :: "flt option"
  lq_ttl_confidence :: flt

definition superseded :: "lease_request \<Rightarrow> cache_lease \<Rightarrow> bool" where
  \<comment> \<open>The condition of the invalidation loop.\<close>
  "superseded q l \<longleftrightarrow> cl_session_id l = lq_session_id q \<and> cl_provider l = lq_provider q \<and>
     cl_cache_fingerprint l \<noteq> lq_cache_fingerprint q \<and> cl_state l \<noteq> INVALIDATED"

fun invalidate_loop :: "lease_request \<Rightarrow> string list \<Rightarrow> lease_manager \<Rightarrow> py_error + lease_manager" where
  "invalidate_loop q [] m = Inr m"
| "invalidate_loop q (lid # lids) m =
     (case lease_of m lid of
        None \<Rightarrow> invalidate_loop q lids m
      | Some l \<Rightarrow> if superseded q l
          then res_bind (invalidate m lid) (\<lambda>m'. invalidate_loop q lids m')
          else invalidate_loop q lids m)"

definition new_lease :: "lease_manager \<Rightarrow> lease_request \<Rightarrow> string \<Rightarrow> cache_lease" where
  "new_lease m q fresh =
     (let (ttl, conf) =
        (case (lq_estimated_ttl_s q, lm_ttl_resolver m) of
           (None, Some r) \<Rightarrow>
             (let res = resolve r (lq_provider q) (lq_model q) (lq_api_mode q) (lq_base_url q)
                          (lq_route_fingerprint q) None
              in (Some (res_ttl_s res), res_confidence res))
         | (t, _) \<Rightarrow> (t, lq_ttl_confidence q))
      in \<lparr>cl_lease_id = fresh, cl_session_id = lq_session_id q, cl_provider = lq_provider q,
          cl_model = lq_model q, cl_api_mode = lq_api_mode q, cl_base_url = lq_base_url q,
          cl_auth_scope_hash = lq_auth_scope_hash q, cl_route_fingerprint = lq_route_fingerprint q,
          cl_request_fingerprint = lq_request_fingerprint q,
          cl_cache_fingerprint = lq_cache_fingerprint q,
          cl_system_fingerprint = lq_system_fingerprint q,
          cl_tools_fingerprint = lq_tools_fingerprint q,
          cl_history_prefix_fingerprint = lq_history_prefix_fingerprint q,
          cl_last_real_request_at = 0, cl_last_cache_touch_at = None,
          cl_last_confirmed_hit_at = None,
          cl_estimated_ttl_s = opt_or ttl (ls_default_ttl_s (lm_settings m)),
          cl_ttl_confidence = conf, cl_active_targets = {}, cl_generation = 0, cl_warm_count = 0,
          cl_warm_cost_usd = 0, cl_estimated_cold_resume_cost_usd = None,
          cl_estimated_cached_resume_cost_usd = None, cl_prefix_tokens = None,
          cl_next_warm_cost_usd = None, cl_last_warm_decision = None, cl_state = INACTIVE\<rparr>)"

definition create_lease ::
  "lease_manager \<Rightarrow> lease_request \<Rightarrow> string \<Rightarrow> py_error + lease_manager \<times> string" where
  \<comment> \<open>The part of \<open>find_or_create_lease\<close> after the reuse test.\<close>
  "create_lease m q fresh =
     res_bind (invalidate_loop q (map fst (lm_leases m)) m) (\<lambda>m.
       let m = put_lease m fresh (new_lease m q fresh)
       in Inr (m\<lparr>lm_by_cache_fingerprint :=
                   dset (lm_by_cache_fingerprint m) (lq_cache_fingerprint q) fresh\<rparr>, fresh))"

definition find_or_create_lease ::
  "lease_manager \<Rightarrow> lease_request \<Rightarrow> string \<Rightarrow> py_error + lease_manager \<times> string" where
  \<comment> \<open>\<open>fresh\<close> is the \<open>uuid4\<close> a created lease gets.\<close>
  "find_or_create_lease m q fresh =
     (case dget (lm_by_cache_fingerprint m) (lq_cache_fingerprint q) of
        None \<Rightarrow> create_lease m q fresh
      | Some existing \<Rightarrow> res_bind (require m existing) (\<lambda>l.
          if cl_session_id l = lq_session_id q then Inr (m, existing) else create_lease m q fresh))"

section \<open>Background targets\<close>

definition target_started :: "lease_manager \<Rightarrow> string \<Rightarrow> string \<Rightarrow> py_error + lease_manager" where
  "target_started m lid target = res_bind (require m lid) (\<lambda>l.
     if target = [] then Inr m
     else let l = l\<lparr>cl_active_targets := insert target (cl_active_targets l)\<rparr>
          in Inr (put_lease m lid (if card (cl_active_targets l) = 1 then lease_arm l else l)))"

definition target_finished :: "lease_manager \<Rightarrow> string \<Rightarrow> string \<Rightarrow> py_error + lease_manager" where
  "target_finished m lid target = res_bind (require m lid) (\<lambda>l.
     if target = [] then Inr m
     else let l = l\<lparr>cl_active_targets := cl_active_targets l - {target}\<rparr>
          in Inr (if cl_active_targets l = {}
                  then put_lease (cancel_pending_warm m lid) lid (lease_disarm l)
                  else put_lease m lid l))"

section \<open>Real requests win\<close>

definition before_normal_request :: "lease_manager \<Rightarrow> flt \<Rightarrow> string \<Rightarrow> py_error + lease_manager" where
  "before_normal_request m now lid = res_bind (require m lid) (\<lambda>l.
     let m = put_runtime m lid ((runtime_for m lid)\<lparr>rt_real_request_active := True\<rparr>);
         m = put_lease m lid (l\<lparr>cl_generation := cl_generation l + 1,
                                cl_last_real_request_at := now\<rparr>)
     in Inr (cancel_pending_warm m lid))"

definition after_normal_request ::
  "lease_manager \<Rightarrow> flt \<Rightarrow> string \<Rightarrow> outcome \<Rightarrow> py_error + lease_manager" where
  "after_normal_request m now lid out = res_bind (require m lid) (\<lambda>l.
     let r = (runtime_for m lid)\<lparr>rt_real_request_active := False\<rparr> in
     if cl_state l = INVALIDATED \<or> out = FAILED then Inr (put_runtime m lid r)
     else
       let r = (if out = CONFIRMED_HIT \<or> out = MISS_REBUILT
                then r\<lparr>rt_circuit_open := False, rt_consecutive_warm_misses := 0\<rparr> else r);
           l = l\<lparr>cl_last_cache_touch_at := Some now\<rparr>;
           l = (if out = CONFIRMED_HIT then l\<lparr>cl_last_confirmed_hit_at := Some now\<rparr> else l);
           l = (if cl_active_targets l \<noteq> {} then lease_arm l else lease_disarm l)
       in Inr (put_lease (put_runtime m lid r) lid l))"

definition refresh_ttl :: "lease_manager \<Rightarrow> string \<Rightarrow> py_error + lease_manager" where
  "refresh_ttl m lid = res_bind (require m lid) (\<lambda>l.
     case lm_ttl_resolver m of
       None \<Rightarrow> Inr m
     | Some r \<Rightarrow>
         (let res = resolve r (cl_provider l) (cl_model l) (cl_api_mode l) (cl_base_url l)
                      (cl_route_fingerprint l) None
          in Inr (put_lease m lid (l\<lparr>cl_estimated_ttl_s := res_ttl_s res,
                                     cl_ttl_confidence := res_confidence res\<rparr>))))"

section \<open>Deadline\<close>

definition network_margin :: "lease_manager \<Rightarrow> flt" where
  "network_margin m = max (ls_minimum_margin_s (lm_settings m))
     (lm_latency_p95_s m * ls_latency_multiplier (lm_settings m))"

definition next_deadline :: "lease_manager \<Rightarrow> cache_lease \<Rightarrow> flt option" where
  "next_deadline m l =
     (case cl_last_cache_touch_at l of
        None \<Rightarrow> None
      | Some touch \<Rightarrow>
          (let ttl = max (cl_estimated_ttl_s l) 0;
               safe = min (touch + ttl * ls_warm_fraction (lm_settings m))
                          (touch + ttl - network_margin m);
               jitter = jitter_for m (cl_cache_fingerprint l)
           in Some (touch + (safe - touch) * (1 + jitter))))"

section \<open>Economics\<close>

definition update_cost_estimates ::
  "lease_manager \<Rightarrow> string \<Rightarrow> token_usage \<Rightarrow> py_error + lease_manager" where
  "update_cost_estimates m lid usage = res_bind (require m lid) (\<lambda>l.
     let prefix = max (prompt_tokens usage) 0 in
     if prefix \<le> 0 then Inr m
     else let l = l\<lparr>cl_prefix_tokens := Some prefix\<rparr> in
       (case lm_pricing m of
          Some p \<Rightarrow>
            res_bind (estimate_resume_costs prefix p 0) (\<lambda>(cold, cached).
            res_bind (mk_usage prefix 1 prefix 0 None) (\<lambda>warm_usage.
              Inr (put_lease m lid (l\<lparr>cl_estimated_cold_resume_cost_usd := Some cold,
                     cl_estimated_cached_resume_cost_usd := Some cached,
                     cl_next_warm_cost_usd := Some (estimate_cost warm_usage p)\<rparr>))))
        | None \<Rightarrow>
            (let res = resolve_cost usage None (lm_price_override m) in
             Inr (put_lease m lid (l\<lparr>cl_estimated_cold_resume_cost_usd := None,
                    cl_estimated_cached_resume_cost_usd := None,
                    cl_next_warm_cost_usd := (if is_known res then amount res else None)\<rparr>)))))"

definition resume_probability :: "lease_manager \<Rightarrow> cache_lease \<Rightarrow> flt" where
  "resume_probability m l =
     (if cl_active_targets l = {} then 0
      else if \<forall>t \<in> cl_active_targets l. starts_with ''detached-'' t
      then ls_detached_resume_probability (lm_settings m)
      else ls_resume_probability (lm_settings m))"

definition lease_economics :: "lease_manager \<Rightarrow> cache_lease \<Rightarrow> warm_decision" where
  "lease_economics m l =
     (let cold = cl_estimated_cold_resume_cost_usd l; cached = cl_estimated_cached_resume_cost_usd l
      in evaluate (lm_economics m) (opt_or cold 0) (opt_or cached 0)
           (opt_or (cl_next_warm_cost_usd l) 0) (cl_warm_cost_usd l) (resume_probability m l)
           (cold \<noteq> None \<and> cached \<noteq> None))"

definition evaluate_economics :: "lease_manager \<Rightarrow> cache_lease \<Rightarrow> cache_lease \<times> warm_decision" where
  "evaluate_economics m l =
     (let d = lease_economics m l in (l\<lparr>cl_last_warm_decision := Some d\<rparr>, d))"

definition economic_gate :: "lease_manager \<Rightarrow> cache_lease \<Rightarrow> cache_lease \<times> bool" where
  "economic_gate m l =
     (if \<not> enabled (ls_economics (lm_settings m)) then (l, True)
      else let (l, d) = evaluate_economics m l in (l, should_warm d))"

section \<open>The scheduler's evaluation of one lease\<close>

datatype segment = Done lease_decision | Want_lock int

definition enter_warm :: "lease_manager \<Rightarrow> string \<Rightarrow> cache_lease \<Rightarrow> lease_manager \<times> segment" where
  \<comment> \<open>\<open>_warm_if_due\<close> up to the lock.\<close>
  "enter_warm m lid l =
     (let r = runtime_for m lid;
          g = opt_or (rt_scheduled_generation r) (cl_generation l);
          r = r\<lparr>rt_scheduled_generation := None, rt_pending_warm := False\<rparr>;
          m = put_runtime m lid r
      in if rt_real_request_active r then (m, Done SKIPPED_BUSY)
         else if cl_generation l \<noteq> g then (m, Done SKIPPED_STALE)
         else (m, Want_lock g))"

definition evaluate_head :: "lease_manager \<Rightarrow> flt \<Rightarrow> string \<Rightarrow> lease_manager \<times> segment" where
  "evaluate_head m now lid =
     (case lease_of m lid of
        None \<Rightarrow> (m, Done STOPPED_NO_TARGETS)
      | Some l \<Rightarrow>
          let r = runtime_for m lid in
          if cl_active_targets l = {} then (m, Done STOPPED_NO_TARGETS)
          else if rt_real_request_active r then (m, Done SKIPPED_BUSY)
          else if rt_warm_request_active r then (m, Done SKIPPED_ALREADY_WARMING)
          else if cl_state l = INVALIDATED then (m, Done STOPPED_INVALIDATED)
          else if rt_circuit_open r then (m, Done SKIPPED_CIRCUIT_OPEN)
          else
            (case next_deadline m l of
               None \<Rightarrow> (m, Done SKIPPED_UNKNOWN_TTL)
             | Some due_at \<Rightarrow>
                 if now < due_at then
                   (let m = put_runtime m lid (r\<lparr>rt_scheduled_generation := Some (cl_generation l),
                                                rt_pending_warm := True\<rparr>)
                    in (if cl_state l = ECONOMIC_STOP_state then m
                        else put_lease m lid (l\<lparr>cl_state := WARM_SCHEDULED\<rparr>), Done SCHEDULED))
                 else
                   (let (l, ok) = economic_gate m l
                    in if \<not> ok then (put_lease m lid (l\<lparr>cl_state := ECONOMIC_STOP_state\<rparr>),
                                     Done STOPPED_ECONOMIC)
                       else enter_warm (put_lease m lid l) lid l)))"

definition under_lock ::
  "lease_manager \<Rightarrow> string \<Rightarrow> int \<Rightarrow> lease_manager \<times> (lease_decision + request_snapshot)" where
  \<comment> \<open>From the acquired lock to the executor call: a decision, or the snapshot to warm with.\<close>
  "under_lock m lid g =
     (case lease_of m lid of
        None \<Rightarrow> (m, Inl SKIPPED_NO_TARGETS)
      | Some l \<Rightarrow>
          let r = runtime_for m lid in
          if rt_real_request_active r then (m, Inl SKIPPED_BUSY)
          else if cl_active_targets l = {} then (m, Inl SKIPPED_NO_TARGETS)
          else if cl_generation l \<noteq> g then (m, Inl SKIPPED_STALE)
          else if ls_dry_run (lm_settings m) then (m, Inl SKIPPED_DRY_RUN)
          else if rt_circuit_open r then (m, Inl SKIPPED_CIRCUIT_OPEN)
          else
            (case lm_snapshot_store m of
               None \<Rightarrow> (m, Inl SKIPPED_UNSUPPORTED)
             | Some store \<Rightarrow>
                 if \<not> lm_has_executor m then (m, Inl SKIPPED_UNSUPPORTED)
                 else
                   (case snap_get store (cl_cache_fingerprint l) of
                      None \<Rightarrow> (m, Inl SKIPPED_UNSUPPORTED)
                    | Some snap \<Rightarrow>
                        (put_lease (put_runtime m lid (r\<lparr>rt_warm_request_active := True\<rparr>)) lid
                           (l\<lparr>cl_state := WARMING\<rparr>), Inr snap))))"

definition apply_warm_result ::
  "flt \<Rightarrow> cache_lease \<Rightarrow> lease_runtime \<Rightarrow> warm_result \<Rightarrow> cache_lease \<times> lease_runtime \<times> lease_decision" where
  "apply_warm_result now l r res =
     (case wr_outcome res of
        None \<Rightarrow> (l, r, SKIPPED_UNSUPPORTED)
      | Some out \<Rightarrow>
          let l = l\<lparr>cl_warm_count := cl_warm_count l + 1,
                    cl_warm_cost_usd := cl_warm_cost_usd l + wr_cost_usd res\<rparr> in
          if out = CONFIRMED_HIT then
            (l\<lparr>cl_last_cache_touch_at := Some now, cl_last_confirmed_hit_at := Some now\<rparr>,
             r\<lparr>rt_consecutive_warm_misses := 0\<rparr>, WARMED_CONFIRMED_HIT)
          else
            let n = Suc (rt_consecutive_warm_misses r);
                r = r\<lparr>rt_consecutive_warm_misses := n\<rparr>;
                r = (if 2 \<le> n then r\<lparr>rt_circuit_open := True\<rparr> else r)
            in if out = MISS_REBUILT then
                 (if 0 < cache_write_tokens (wr_usage res) then l\<lparr>cl_last_cache_touch_at := Some now\<rparr>
                  else l, r, WARMED_MISS_REBUILT)
               else if out = SUCCESS_UNVERIFIED then (l, r, WARMED_UNVERIFIED)
               else (l, r, WARMED_FAILED))"

definition failed_warm :: warm_result where
  \<comment> \<open>What an exception of the executor is recorded as.\<close>
  "failed_warm = \<lparr>wr_outcome = Some FAILED, wr_usage = empty_usage, wr_cost_usd = 0\<rparr>"

definition finish_warm ::
  "lease_manager \<Rightarrow> flt \<Rightarrow> string \<Rightarrow> warm_result option \<Rightarrow> lease_manager \<times> lease_decision" where
  \<comment> \<open>The \<open>finally\<close> block and the result, once the executor returned (\<open>None\<close>: raised).\<close>
  "finish_warm m now lid answer =
     (case lease_of m lid of
        None \<Rightarrow> (m, SKIPPED_UNSUPPORTED)
      | Some l \<Rightarrow>
          let r = (runtime_for m lid)\<lparr>rt_warm_request_active := False\<rparr>;
              (l, r, d) = apply_warm_result now (lease_arm l) r (opt_or answer failed_warm)
          in (put_lease (put_runtime m lid r) lid l, d))"

definition evaluate_lease ::
  "(request_snapshot \<Rightarrow> warm_result option) \<Rightarrow> lease_manager \<Rightarrow> flt \<Rightarrow> flt \<Rightarrow> string \<Rightarrow>
     lease_manager \<times> lease_decision" where
  \<comment> \<open>The whole coroutine when nothing else runs between its segments; \<open>later\<close> is the clock
    after the executor returned.\<close>
  "evaluate_lease exec m now later lid =
     (case evaluate_head m now lid of
        (m, Done d) \<Rightarrow> (m, d)
      | (m, Want_lock g) \<Rightarrow>
          (case under_lock m lid g of
             (m, Inl d) \<Rightarrow> (m, d)
           | (m, Inr snap) \<Rightarrow> finish_warm m later lid (exec snap)))"

fun tick_loop ::
  "(request_snapshot \<Rightarrow> warm_result option) \<Rightarrow> (string \<Rightarrow> flt \<times> flt) \<Rightarrow> string list \<Rightarrow> lease_manager \<Rightarrow>
     lease_manager \<times> (string \<times> lease_decision) list" where
  "tick_loop exec clock [] m = (m, [])"
| "tick_loop exec clock (lid # lids) m =
     (let (m, d) = evaluate_lease exec m (fst (clock lid)) (snd (clock lid)) lid;
          (m, ds) = tick_loop exec clock lids m
      in (m, (lid, d) # ds))"

definition tick ::
  "(request_snapshot \<Rightarrow> warm_result option) \<Rightarrow> (string \<Rightarrow> flt \<times> flt) \<Rightarrow> lease_manager \<Rightarrow>
     lease_manager \<times> (string \<times> lease_decision) list" where
  \<comment> \<open>\<open>clock lid\<close> is what the clock reads when the lease is evaluated and after its warm.\<close>
  "tick exec clock m = tick_loop exec clock (map fst (lm_leases m)) m"

end
