(* ===== verification/LeaseLaws.thy ===== *)
theory LeaseLaws
  imports Leases
begin

text \<open>
  The laws of the lease manager. \<open>wf_manager\<close> is the registry invariant and \<open>evolves\<close> what no
  operation may undo: a lease is never dropped, keeps its identity, and its generation and warm count
  only grow. Every operation keeps the first and satisfies the second; the functional laws of the
  request path, of the deadline and of the warm algorithm follow.
\<close>

named_theorems lease_simps "reading the manager after a write"

lemma lease_of_put_lease [simp, lease_simps]:
  "lease_of (put_lease m lid l) i = (if i = lid then Some l else lease_of m i)"
  by (simp add: lease_of_def put_lease_def)

lemma lease_of_put_runtime [simp, lease_simps]: "lease_of (put_runtime m lid r) i = lease_of m i"
  by (simp add: lease_of_def put_runtime_def)

lemma runtime_for_put_lease [simp, lease_simps]: "runtime_for (put_lease m lid l) i = runtime_for m i"
  by (simp add: runtime_for_def put_lease_def)

lemma runtime_for_put_runtime [simp, lease_simps]:
  "runtime_for (put_runtime m lid r) i = (if i = lid then r else runtime_for m i)"
  by (simp add: runtime_for_def put_runtime_def)

lemma cancel_lease_of [simp, lease_simps]: "lease_of (cancel_pending_warm m lid) i = lease_of m i"
  by (simp add: cancel_pending_warm_def)

lemma cancel_runtime_for [simp, lease_simps]:
  "runtime_for (cancel_pending_warm m lid) i =
     (if i = lid then (runtime_for m lid)\<lparr>rt_pending_warm := False\<rparr> else runtime_for m i)"
  by (simp add: cancel_pending_warm_def)

text \<open>What the manager was constructed with.\<close>

definition config_of ::
  "lease_manager \<Rightarrow> lease_settings \<times> flt \<times> bool \<times> pricing_table option \<times> flt option \<times>
     economic_config \<times> ttl_resolver option" where
  "config_of m = (lm_settings m, lm_latency_p95_s m, lm_has_executor m, lm_pricing m,
     lm_price_override m, lm_economics m, lm_ttl_resolver m)"

lemma config_put [simp]:
  "config_of (put_lease m lid l) = config_of m" "config_of (put_runtime m lid r) = config_of m"
  "config_of (cancel_pending_warm m lid) = config_of m"
  by (simp_all add: config_of_def put_lease_def put_runtime_def cancel_pending_warm_def)

lemma settings_put [simp]:
  "lm_settings (put_lease m lid l) = lm_settings m"
  "lm_settings (put_runtime m lid r) = lm_settings m"
  "lm_snapshot_store (put_lease m lid l) = lm_snapshot_store m"
  "lm_snapshot_store (put_runtime m lid r) = lm_snapshot_store m"
  "lm_has_executor (put_lease m lid l) = lm_has_executor m"
  "lm_has_executor (put_runtime m lid r) = lm_has_executor m"
  "lm_by_cache_fingerprint (put_lease m lid l) = lm_by_cache_fingerprint m"
  "lm_by_cache_fingerprint (put_runtime m lid r) = lm_by_cache_fingerprint m"
  "lm_ttl_resolver (put_lease m lid l) = lm_ttl_resolver m"
  "lm_ttl_resolver (put_runtime m lid r) = lm_ttl_resolver m"
  by (simp_all add: put_lease_def put_runtime_def)

lemma cancel_fields [simp]:
  "lm_settings (cancel_pending_warm m lid) = lm_settings m"
  "lm_snapshot_store (cancel_pending_warm m lid) = lm_snapshot_store m"
  "lm_by_cache_fingerprint (cancel_pending_warm m lid) = lm_by_cache_fingerprint m"
  by (simp_all add: cancel_pending_warm_def)

lemma require_Inr [simp]: "require m lid = Inr l \<longleftrightarrow> lease_of m lid = Some l"
  by (simp add: require_def split: option.split)

lemma require_known [simp]: "lease_of m lid = Some l \<Longrightarrow> require m lid = Inr l"
  by simp

lemma lease_arm_fields [simp]:
  "cl_active_targets (lease_arm l) = cl_active_targets l"
  "cl_generation (lease_arm l) = cl_generation l"
  "cl_cache_fingerprint (lease_arm l) = cl_cache_fingerprint l"
  "cl_lease_id (lease_arm l) = cl_lease_id l" "cl_session_id (lease_arm l) = cl_session_id l"
  "cl_provider (lease_arm l) = cl_provider l" "cl_warm_count (lease_arm l) = cl_warm_count l"
  "cl_warm_cost_usd (lease_arm l) = cl_warm_cost_usd l"
  "cl_last_cache_touch_at (lease_arm l) = cl_last_cache_touch_at l"
  "cl_state (lease_arm l) = (if cl_state l = INVALIDATED then INVALIDATED else ARMED)"
  by (simp_all add: lease_arm_def)

lemma lease_disarm_fields [simp]:
  "cl_active_targets (lease_disarm l) = cl_active_targets l"
  "cl_generation (lease_disarm l) = cl_generation l"
  "cl_cache_fingerprint (lease_disarm l) = cl_cache_fingerprint l"
  "cl_lease_id (lease_disarm l) = cl_lease_id l" "cl_session_id (lease_disarm l) = cl_session_id l"
  "cl_provider (lease_disarm l) = cl_provider l" "cl_warm_count (lease_disarm l) = cl_warm_count l"
  "cl_warm_cost_usd (lease_disarm l) = cl_warm_cost_usd l"
  "cl_last_cache_touch_at (lease_disarm l) = cl_last_cache_touch_at l"
  "cl_state (lease_disarm l) = INACTIVE"
  by (simp_all add: lease_disarm_def)

section \<open>The registry invariant and monotonicity\<close>

definition wf_lease :: "string \<Rightarrow> cache_lease \<Rightarrow> bool" where
  "wf_lease lid l \<longleftrightarrow> cl_lease_id l = lid \<and> finite (cl_active_targets l) \<and> 0 \<le> cl_generation l \<and>
     0 \<le> cl_warm_count l"

definition wf_manager :: "lease_manager \<Rightarrow> bool" where
  "wf_manager m \<longleftrightarrow> distinct (map fst (lm_leases m)) \<and>
     (\<forall>lid l. lease_of m lid = Some l \<longrightarrow> wf_lease lid l) \<and>
     (\<forall>fp lid. dget (lm_by_cache_fingerprint m) fp = Some lid \<longrightarrow>
        (\<exists>l. lease_of m lid = Some l \<and> cl_cache_fingerprint l = fp))"

definition lease_evolves :: "cache_lease \<Rightarrow> cache_lease \<Rightarrow> bool" where
  "lease_evolves l l' \<longleftrightarrow> cl_lease_id l' = cl_lease_id l \<and> cl_session_id l' = cl_session_id l \<and>
     cl_provider l' = cl_provider l \<and> cl_cache_fingerprint l' = cl_cache_fingerprint l \<and>
     cl_generation l \<le> cl_generation l' \<and> cl_warm_count l \<le> cl_warm_count l'"

definition evolves :: "lease_manager \<Rightarrow> lease_manager \<Rightarrow> bool" where
  "evolves m m' \<longleftrightarrow> (\<forall>lid l. lease_of m lid = Some l \<longrightarrow>
     (\<exists>l'. lease_of m' lid = Some l' \<and> lease_evolves l l'))"

lemma lease_evolves_refl [simp]: "lease_evolves l l"
  by (simp add: lease_evolves_def)

lemma lease_evolves_trans: "lease_evolves a b \<Longrightarrow> lease_evolves b c \<Longrightarrow> lease_evolves a c"
  by (auto simp: lease_evolves_def)

lemma evolves_refl [simp]: "evolves m m"
  by (simp add: evolves_def)

lemma evolves_trans [trans]: "evolves a b \<Longrightarrow> evolves b c \<Longrightarrow> evolves a c"
  unfolding evolves_def using lease_evolves_trans by blast

lemma evolves_put_runtime [simp]: "evolves m (put_runtime m' lid r) \<longleftrightarrow> evolves m m'"
  by (simp add: evolves_def)

lemma evolves_cancel [simp]: "evolves m (cancel_pending_warm m' lid) \<longleftrightarrow> evolves m m'"
  by (simp add: evolves_def)

lemma evolves_put_lease:
  "evolves m m' \<Longrightarrow> lease_of m' lid = Some l \<Longrightarrow> lease_evolves l l' \<Longrightarrow> evolves m (put_lease m' lid l')"
  unfolding evolves_def using lease_evolves_trans by fastforce

lemma wf_put_runtime [simp]: "wf_manager (put_runtime m lid r) \<longleftrightarrow> wf_manager m"
  by (simp add: wf_manager_def) (simp add: put_runtime_def)

lemma wf_cancel [simp]: "wf_manager (cancel_pending_warm m lid) \<longleftrightarrow> wf_manager m"
  by (simp add: cancel_pending_warm_def)

lemma wf_put_lease:
  assumes "wf_manager m" and "lease_of m lid = Some l" and "wf_lease lid l'"
    and "cl_cache_fingerprint l' = cl_cache_fingerprint l"
  shows "wf_manager (put_lease m lid l')"
proof -
  have "distinct (map fst (lm_leases (put_lease m lid l')))"
    using assms(1) by (simp add: wf_manager_def put_lease_def)
  moreover have "\<exists>l2. lease_of (put_lease m lid l') i = Some l2 \<and> cl_cache_fingerprint l2 = fp"
    if "dget (lm_by_cache_fingerprint m) fp = Some i" for fp i
    using assms that unfolding wf_manager_def by fastforce
  ultimately show ?thesis
    using assms unfolding wf_manager_def by (auto split: if_splits)
qed

text \<open>Every operation that returns keeps the invariant and only moves leases forward. \<open>step_ok\<close>
  packs the two.\<close>

definition step_ok :: "lease_manager \<Rightarrow> lease_manager \<Rightarrow> bool" where
  "step_ok m m' \<longleftrightarrow> (wf_manager m \<longrightarrow> wf_manager m') \<and> (wf_manager m \<longrightarrow> evolves m m') \<and>
     config_of m' = config_of m"

lemma step_ok_refl [simp]: "step_ok m m"
  by (simp add: step_ok_def)

lemma step_ok_trans: "step_ok a b \<Longrightarrow> step_ok b c \<Longrightarrow> step_ok a c"
  unfolding step_ok_def using evolves_trans by auto

lemma step_ok_put_runtime [simp]: "step_ok m (put_runtime m' lid r) \<longleftrightarrow> step_ok m m'"
  by (simp add: step_ok_def)

lemma step_ok_cancel [simp]: "step_ok m (cancel_pending_warm m' lid) \<longleftrightarrow> step_ok m m'"
  by (simp add: step_ok_def)

lemma step_ok_put_lease:
  assumes "step_ok m m'" and "lease_of m' lid = Some l" and "lease_evolves l l'"
    and "wf_lease lid l \<Longrightarrow> wf_lease lid l'"
  shows "step_ok m (put_lease m' lid l')"
proof -
  have "wf_manager (put_lease m' lid l')" if "wf_manager m"
  proof -
    have w: "wf_manager m'" using assms(1) that by (simp add: step_ok_def)
    moreover have "wf_lease lid l" using w assms(2) by (simp add: wf_manager_def)
    ultimately show ?thesis
      using wf_put_lease [OF w assms(2)] assms(3,4) by (simp add: lease_evolves_def)
  qed
  then show ?thesis
    using assms unfolding step_ok_def by (auto intro: evolves_put_lease)
qed

lemma step_ok_put_lease0:
  assumes "lease_of m lid = Some l" and "lease_evolves l l'" and "wf_lease lid l \<Longrightarrow> wf_lease lid l'"
  shows "step_ok m (put_lease m lid l')"
  using step_ok_put_lease [OF step_ok_refl assms] .

lemmas lease_step_intros = step_ok_put_lease step_ok_refl

text \<open>The two small facts each operation reduces to.\<close>

lemma wf_lease_ext:
  "wf_lease lid l \<Longrightarrow> cl_lease_id l' = cl_lease_id l \<Longrightarrow> finite (cl_active_targets l') \<Longrightarrow>
   cl_generation l \<le> cl_generation l' \<Longrightarrow> cl_warm_count l \<le> cl_warm_count l' \<Longrightarrow> wf_lease lid l'"
  by (simp add: wf_lease_def)

lemma wf_lease_finite: "wf_lease lid l \<Longrightarrow> finite (cl_active_targets l)"
  by (simp add: wf_lease_def)

lemma arm_ok: "arm m lid = Inr m' \<Longrightarrow> step_ok m m'"
  by (auto simp: arm_def lease_evolves_def wf_lease_def intro!: step_ok_put_lease0)

lemma invalidate_ok: "invalidate m lid = Inr m' \<Longrightarrow> step_ok m m'"
  by (auto simp: invalidate_def Let_def lease_evolves_def wf_lease_def intro!: step_ok_put_lease0)

lemma complete_ok: "complete m lid = Inr m' \<Longrightarrow> step_ok m m'"
  by (auto simp: complete_def Let_def lease_evolves_def wf_lease_def intro!: step_ok_put_lease)

lemma target_started_ok: "target_started m lid t = Inr m' \<Longrightarrow> step_ok m m'"
  by (auto simp: target_started_def Let_def lease_evolves_def wf_lease_def
      intro!: step_ok_put_lease0 split: if_splits)

lemma target_finished_ok: "target_finished m lid t = Inr m' \<Longrightarrow> step_ok m m'"
  by (auto simp: target_finished_def Let_def lease_evolves_def wf_lease_def
      intro!: step_ok_put_lease split: if_splits)

lemma before_normal_request_ok: "before_normal_request m now lid = Inr m' \<Longrightarrow> step_ok m m'"
  by (auto simp: before_normal_request_def Let_def lease_evolves_def wf_lease_def
      intro!: step_ok_put_lease)

lemma after_normal_request_ok: "after_normal_request m now lid out = Inr m' \<Longrightarrow> step_ok m m'"
  by (auto simp: after_normal_request_def Let_def lease_evolves_def wf_lease_def
      intro!: step_ok_put_lease split: if_splits)

lemma refresh_ttl_ok: "refresh_ttl m lid = Inr m' \<Longrightarrow> step_ok m m'"
  by (auto simp: refresh_ttl_def Let_def lease_evolves_def wf_lease_def
      intro!: step_ok_put_lease0 split: option.splits)

lemma update_cost_estimates_ok: "update_cost_estimates m lid u = Inr m' \<Longrightarrow> step_ok m m'"
  by (auto simp: update_cost_estimates_def Let_def lease_evolves_def wf_lease_def
      intro!: step_ok_put_lease0 split: option.splits if_splits)

lemma economic_gate_lease:
  "fst (economic_gate m l) = l \<or> (\<exists>d. fst (economic_gate m l) = l\<lparr>cl_last_warm_decision := d\<rparr>)"
  by (auto simp: economic_gate_def evaluate_economics_def Let_def)

lemma economic_gate_fields [simp]:
  "cl_lease_id (fst (economic_gate m l)) = cl_lease_id l"
  "cl_session_id (fst (economic_gate m l)) = cl_session_id l"
  "cl_provider (fst (economic_gate m l)) = cl_provider l"
  "cl_cache_fingerprint (fst (economic_gate m l)) = cl_cache_fingerprint l"
  "cl_generation (fst (economic_gate m l)) = cl_generation l"
  "cl_warm_count (fst (economic_gate m l)) = cl_warm_count l"
  "cl_active_targets (fst (economic_gate m l)) = cl_active_targets l"
  "cl_state (fst (economic_gate m l)) = cl_state l"
  by (simp_all add: economic_gate_def evaluate_economics_def Let_def)

lemma enter_warm_ok: "step_ok m m' \<Longrightarrow> step_ok m (fst (enter_warm m' lid l))"
  by (simp add: enter_warm_def Let_def)

lemma evaluate_head_ok: "step_ok m (fst (evaluate_head m now lid))"
proof (cases "lease_of m lid")
  case (Some l)
  have g: "step_ok m (put_lease m lid (fst (economic_gate m l)))"
    "step_ok m (put_lease m lid (fst (economic_gate m l)\<lparr>cl_state := ECONOMIC_STOP_state\<rparr>))"
    by (rule step_ok_put_lease0 [OF Some]; simp add: lease_evolves_def wf_lease_def)+
  have s: "step_ok m (put_lease (put_runtime m lid r) lid (l\<lparr>cl_state := WARM_SCHEDULED\<rparr>))" for r
    using Some by (intro step_ok_put_lease [of _ _ _ l]) (simp_all add: lease_evolves_def wf_lease_def)
  show ?thesis
    using g s by (auto simp: evaluate_head_def Some Let_def case_prod_beta enter_warm_ok
        split: option.splits)
qed (simp add: evaluate_head_def)

lemma under_lock_ok: "step_ok m (fst (under_lock m lid g))"
proof (cases "lease_of m lid")
  case (Some l)
  have "step_ok m (put_lease (put_runtime m lid r) lid (l\<lparr>cl_state := WARMING\<rparr>))" for r
    using Some by (intro step_ok_put_lease [of _ _ _ l]) (simp_all add: lease_evolves_def wf_lease_def)
  then show ?thesis by (auto simp: under_lock_def Some Let_def split: option.splits)
qed (simp add: under_lock_def)

lemma apply_warm_result_fields:
  assumes "apply_warm_result now l r res = (l', r', d)"
  shows "cl_lease_id l' = cl_lease_id l" "cl_session_id l' = cl_session_id l"
    "cl_provider l' = cl_provider l" "cl_cache_fingerprint l' = cl_cache_fingerprint l"
    "cl_generation l' = cl_generation l" "cl_active_targets l' = cl_active_targets l"
    "cl_state l' = cl_state l"
    "cl_warm_count l' = (if wr_outcome res = None then cl_warm_count l else cl_warm_count l + 1)"
    "cl_warm_cost_usd l' =
       (if wr_outcome res = None then cl_warm_cost_usd l else cl_warm_cost_usd l + wr_cost_usd res)"
    "rt_warm_request_active r' = rt_warm_request_active r"
    "rt_real_request_active r' = rt_real_request_active r"
    "rt_scheduled_generation r' = rt_scheduled_generation r"
  using assms by (auto simp: apply_warm_result_def Let_def split: option.splits if_splits)

lemma finish_warm_ok: "step_ok m (fst (finish_warm m now lid ans))"
proof (cases "lease_of m lid")
  case (Some l)
  obtain l' r' d where a: "apply_warm_result now (lease_arm l)
      ((runtime_for m lid)\<lparr>rt_warm_request_active := False\<rparr>) (opt_or ans failed_warm) = (l', r', d)"
    by (metis prod_cases3)
  have "step_ok m (put_lease (put_runtime m lid r') lid l')"
    using Some apply_warm_result_fields [OF a]
    by (intro step_ok_put_lease [of _ _ _ l]) (simp_all add: lease_evolves_def wf_lease_def)
  then show ?thesis by (simp add: finish_warm_def Some a Let_def)
qed (simp add: finish_warm_def)

lemma evaluate_lease_ok: "step_ok m (fst (evaluate_lease exec m now later lid))"
proof -
  obtain m1 s where h: "evaluate_head m now lid = (m1, s)" by fastforce
  have h1: "step_ok m m1" using evaluate_head_ok [of m now lid] h by simp
  show ?thesis
  proof (cases s)
    case (Want_lock g)
    obtain m2 o2 where u: "under_lock m1 lid g = (m2, o2)" by fastforce
    have u1: "step_ok m m2" using under_lock_ok [of m1 lid g] u h1 step_ok_trans by fastforce
    show ?thesis
      using h u u1 Want_lock step_ok_trans [OF u1 finish_warm_ok]
      by (cases o2) (simp_all add: evaluate_lease_def)
  qed (use h h1 in \<open>simp add: evaluate_lease_def\<close>)
qed

lemma tick_loop_ok: "step_ok m (fst (tick_loop exec clock lids m))"
proof (induction lids arbitrary: m)
  case (Cons lid lids)
  show ?case
    using step_ok_trans [OF evaluate_lease_ok Cons.IH] by (simp add: case_prod_beta Let_def)
qed simp

lemma tick_ok: "step_ok m (fst (tick exec clock m))"
  by (simp add: tick_def tick_loop_ok)

section \<open>Finding or creating a lease\<close>

definition drop_superseded :: "lease_request \<Rightarrow> cache_lease \<Rightarrow> cache_lease" where
  "drop_superseded q l = (if superseded q l then l\<lparr>cl_state := INVALIDATED\<rparr> else l)"

lemma superseded_invalidated [simp]: "\<not> superseded q (l\<lparr>cl_state := INVALIDATED\<rparr>)"
  by (simp add: superseded_def)

lemma drop_superseded_eqs [simp]:
  "superseded q l \<Longrightarrow> drop_superseded q l = l\<lparr>cl_state := INVALIDATED\<rparr>"
  "drop_superseded q (l\<lparr>cl_state := INVALIDATED\<rparr>) = l\<lparr>cl_state := INVALIDATED\<rparr>"
  by (simp_all add: drop_superseded_def)

lemma drop_superseded_idem [simp]: "drop_superseded q (drop_superseded q l) = drop_superseded q l"
  by (simp add: drop_superseded_def)

lemma invalidate_known:
  assumes "lease_of m lid = Some l"
  obtains m' where "invalidate m lid = Inr m'"
    "\<And>i. lease_of m' i = (if i = lid then Some (l\<lparr>cl_state := INVALIDATED\<rparr>) else lease_of m i)"
    "lm_by_cache_fingerprint m' = lm_by_cache_fingerprint m"
    "lm_snapshot_store m' = lm_snapshot_store m"
  using assms by (simp add: invalidate_def Let_def)

lemma invalidate_loop_spec:
  "\<exists>m'. invalidate_loop q lids m = Inr m' \<and>
     (\<forall>i. lease_of m' i = (if i \<in> set lids then map_option (drop_superseded q) (lease_of m i)
                           else lease_of m i)) \<and>
     lm_by_cache_fingerprint m' = lm_by_cache_fingerprint m \<and>
     lm_snapshot_store m' = lm_snapshot_store m"
proof (induction lids arbitrary: m)
  case (Cons lid lids)
  show ?case
  proof (cases "\<exists>l. lease_of m lid = Some l \<and> superseded q l")
    case True
    then obtain l where l: "lease_of m lid = Some l" "superseded q l" by blast
    obtain m1 where m1: "invalidate m lid = Inr m1"
      "\<And>i. lease_of m1 i = (if i = lid then Some (l\<lparr>cl_state := INVALIDATED\<rparr>) else lease_of m i)"
      "lm_by_cache_fingerprint m1 = lm_by_cache_fingerprint m"
      "lm_snapshot_store m1 = lm_snapshot_store m"
      using l(1) by (rule invalidate_known) blast
    from Cons.IH [of m1] show ?thesis
      using l m1 by auto
  next
    case False
    then have "invalidate_loop q (lid # lids) m = invalidate_loop q lids m"
      by (auto split: option.splits)
    moreover have "map_option (drop_superseded q) (lease_of m lid) = lease_of m lid"
      using False by (cases "lease_of m lid") (auto simp: drop_superseded_def)
    ultimately show ?thesis using Cons.IH [of m] by auto
  qed
qed simp

lemma invalidate_loop_ok: "invalidate_loop q lids m = Inr m' \<Longrightarrow> step_ok m m'"
proof (induction lids arbitrary: m)
  case (Cons lid lids)
  then show ?case
    by (auto split: option.splits if_splits dest!: invalidate_ok intro: step_ok_trans)
qed simp

lemma lease_of_None_iff: "lease_of m i = None \<longleftrightarrow> i \<notin> set (map fst (lm_leases m))"
  by (simp add: lease_of_def dget_None_iff)

lemma create_lease_spec:
  "\<exists>m'. create_lease m q fresh = Inr (m', fresh) \<and>
     lease_of m' fresh = Some (new_lease m q fresh) \<and>
     (\<forall>i. i \<noteq> fresh \<longrightarrow> lease_of m' i = map_option (drop_superseded q) (lease_of m i)) \<and>
     lm_by_cache_fingerprint m' =
       dset (lm_by_cache_fingerprint m) (lq_cache_fingerprint q) fresh \<and>
     lm_snapshot_store m' = lm_snapshot_store m"
proof -
  obtain m1 where m1: "invalidate_loop q (map fst (lm_leases m)) m = Inr m1"
    "\<And>i. lease_of m1 i = (if i \<in> set (map fst (lm_leases m))
        then map_option (drop_superseded q) (lease_of m i) else lease_of m i)"
    "lm_by_cache_fingerprint m1 = lm_by_cache_fingerprint m"
    "lm_snapshot_store m1 = lm_snapshot_store m"
    using invalidate_loop_spec [of q "map fst (lm_leases m)" m] by blast
  have c: "new_lease m1 q fresh = new_lease m q fresh"
    using invalidate_loop_ok [OF m1(1)] by (simp add: new_lease_def step_ok_def config_of_def)
  have o: "lease_of m1 i = map_option (drop_superseded q) (lease_of m i)" for i
    using m1(2) [of i] lease_of_None_iff [of m i] by (cases "lease_of m i") auto
  have u: "lease_of (mm\<lparr>lm_by_cache_fingerprint := x\<rparr>) i = lease_of mm i" for mm x i
    by (simp add: lease_of_def)
  show ?thesis using m1(3,4) c by (simp add: create_lease_def m1(1) Let_def u o)
qed

lemma create_lease_ok:
  assumes "create_lease m q fresh = Inr (m', lid)" and "lease_of m fresh = None"
  shows "step_ok m m'"
proof -
  obtain m1 where m1: "invalidate_loop q (map fst (lm_leases m)) m = Inr m1"
    and m': "m' = (put_lease m1 fresh (new_lease m1 q fresh))\<lparr>lm_by_cache_fingerprint :=
       dset (lm_by_cache_fingerprint m1) (lq_cache_fingerprint q) fresh\<rparr>"
    using assms(1) by (auto simp: create_lease_def Let_def)
  have ok: "step_ok m m1" using invalidate_loop_ok [OF m1] .
  obtain m2 where "invalidate_loop q (map fst (lm_leases m)) m = Inr m2"
    "\<forall>i. lease_of m2 i = (if i \<in> set (map fst (lm_leases m))
        then map_option (drop_superseded q) (lease_of m i) else lease_of m i)"
    using invalidate_loop_spec [of q "map fst (lm_leases m)" m] by blast
  then have fr: "lease_of m1 fresh = None"
    using m1 assms(2) lease_of_None_iff [of m fresh] by auto
  have l': "lease_of m' i = (if i = fresh then Some (new_lease m1 q fresh) else lease_of m1 i)" for i
    by (simp add: m' lease_of_def put_lease_def)
  have n: "wf_lease fresh (new_lease m1 q fresh)"
    "cl_cache_fingerprint (new_lease m1 q fresh) = lq_cache_fingerprint q"
    by (simp_all add: new_lease_def wf_lease_def Let_def case_prod_beta)
  have "wf_manager m'" if "wf_manager m1"
  proof -
    have "distinct (map fst (lm_leases m'))"
      using that by (simp add: m' wf_manager_def put_lease_def)
    moreover have "\<exists>l. lease_of m' i = Some l \<and> cl_cache_fingerprint l = fp"
      if a: "dget (lm_by_cache_fingerprint m') fp = Some i" for fp i
    proof (cases "fp = lq_cache_fingerprint q")
      case True
      then show ?thesis using a n l' by (simp add: m')
    next
      case False
      then have "dget (lm_by_cache_fingerprint m1) fp = Some i" using a by (simp add: m')
      then obtain l where "lease_of m1 i = Some l" "cl_cache_fingerprint l = fp"
        using \<open>wf_manager m1\<close> unfolding wf_manager_def by blast
      then show ?thesis using l' fr by auto
    qed
    ultimately show ?thesis
      using that n(1) unfolding wf_manager_def l' by auto
  qed
  moreover have "evolves m m'" if "wf_manager m"
  proof -
    have "evolves m m1" using ok that by (simp add: step_ok_def)
    then show ?thesis unfolding evolves_def l' using assms(2) fr by fastforce
  qed
  moreover have "config_of m' = config_of m"
    using ok by (simp add: m' step_ok_def config_of_def put_lease_def)
  ultimately show ?thesis using ok by (simp add: step_ok_def)
qed

lemma find_or_create_cases:
  assumes "wf_manager m"
  obtains (reuse) lid l where
      "find_or_create_lease m q fresh = Inr (m, lid)" "lease_of m lid = Some l"
      "dget (lm_by_cache_fingerprint m) (lq_cache_fingerprint q) = Some lid"
      "cl_session_id l = lq_session_id q" "cl_cache_fingerprint l = lq_cache_fingerprint q"
  | (new) "find_or_create_lease m q fresh = create_lease m q fresh"
      "\<forall>lid l. dget (lm_by_cache_fingerprint m) (lq_cache_fingerprint q) = Some lid \<longrightarrow>
         lease_of m lid = Some l \<longrightarrow> cl_session_id l \<noteq> lq_session_id q"
proof (cases "dget (lm_by_cache_fingerprint m) (lq_cache_fingerprint q)")
  case None
  then show ?thesis using new by (simp add: find_or_create_lease_def)
next
  case (Some lid)
  then obtain l where l: "lease_of m lid = Some l" "cl_cache_fingerprint l = lq_cache_fingerprint q"
    using assms unfolding wf_manager_def by blast
  show ?thesis
  proof (cases "cl_session_id l = lq_session_id q")
    case True
    then show ?thesis using reuse [of lid l] l Some by (simp add: find_or_create_lease_def)
  next
    case False
    then show ?thesis using new l Some by (simp add: find_or_create_lease_def)
  qed
qed

lemma find_or_create_ok:
  assumes "wf_manager m" and "lease_of m fresh = None"
    and "find_or_create_lease m q fresh = Inr (m', lid)"
  shows "step_ok m m'"
proof (cases rule: find_or_create_cases [OF assms(1), of q fresh, case_names reuse new])
  case reuse
  then show ?thesis using assms(3) by simp
next
  case new
  then show ?thesis using create_lease_ok [of m q fresh m' lid] assms(2,3) by simp
qed

lemma find_or_create_spec:
  assumes "wf_manager m" and "lease_of m fresh = None"
  shows "\<exists>m' lid l. find_or_create_lease m q fresh = Inr (m', lid) \<and> wf_manager m' \<and>
    lease_of m' lid = Some l \<and> cl_session_id l = lq_session_id q \<and>
    cl_cache_fingerprint l = lq_cache_fingerprint q \<and>
    (if lid = fresh
     then cl_state l = INACTIVE \<and> cl_last_cache_touch_at l = None \<and>
       (\<forall>i. i \<noteq> fresh \<longrightarrow> lease_of m' i = map_option (drop_superseded q) (lease_of m i))
     else m' = m)"
proof (cases rule: find_or_create_cases [OF assms(1), of q fresh, case_names reuse new])
  case (reuse lid l)
  then have "lid \<noteq> fresh" using assms(2) by auto
  then show ?thesis using reuse assms(1)
    by (intro exI [of _ m] exI [of _ lid] exI [of _ l]) simp
next
  case new
  obtain m' where m': "create_lease m q fresh = Inr (m', fresh)"
    "lease_of m' fresh = Some (new_lease m q fresh)"
    "\<forall>i. i \<noteq> fresh \<longrightarrow> lease_of m' i = map_option (drop_superseded q) (lease_of m i)"
    using create_lease_spec [of m q fresh] by blast
  have "wf_manager m'"
    using create_lease_ok [OF m'(1) assms(2)] assms(1) by (simp add: step_ok_def)
  moreover have "cl_session_id (new_lease m q fresh) = lq_session_id q"
    "cl_cache_fingerprint (new_lease m q fresh) = lq_cache_fingerprint q"
    "cl_state (new_lease m q fresh) = INACTIVE" "cl_last_cache_touch_at (new_lease m q fresh) = None"
    by (simp_all add: new_lease_def Let_def case_prod_beta)
  ultimately show ?thesis using new(1) m' by (intro exI [of _ m'] exI [of _ fresh]) auto
qed

text \<open>A model switch never refreshes the old lease. With a fresh identifier, looking up the lease
  of a request never fails; it returns a lease of that session and cache identity; and when it
  creates one, every other lease of the same session and provider with another cache identity is
  invalidated while every other lease is left exactly as it was.\<close>

theorem find_or_create_switch:
  assumes "wf_manager m" and "lease_of m fresh = None"
  shows "\<exists>m' lid l. find_or_create_lease m q fresh = Inr (m', lid) \<and> wf_manager m' \<and>
    lease_of m' lid = Some l \<and> cl_session_id l = lq_session_id q \<and>
    cl_cache_fingerprint l = lq_cache_fingerprint q \<and>
    (if lid = fresh
     then cl_state l = INACTIVE \<and> cl_last_cache_touch_at l = None \<and>
       (\<forall>i. i \<noteq> fresh \<longrightarrow> lease_of m' i = map_option (drop_superseded q) (lease_of m i))
     else m' = m)"
  by (rule find_or_create_spec [OF assms])

definition sample_manager :: lease_manager where
  "sample_manager = mk_manager default_settings 4 (Some []) True None None None None"

definition sample_request :: "string \<Rightarrow> string \<Rightarrow> lease_request" where
  "sample_request session fp = \<lparr>lq_session_id = session, lq_provider = ''p'', lq_model = ''m'',
     lq_api_mode = ''chat'', lq_base_url = ''u'', lq_auth_scope_hash = ''a'',
     lq_route_fingerprint = None, lq_request_fingerprint = ''rq'', lq_cache_fingerprint = fp,
     lq_system_fingerprint = ''s'', lq_tools_fingerprint = ''t'',
     lq_history_prefix_fingerprint = ''h'', lq_estimated_ttl_s = None, lq_ttl_confidence = 1 / 2\<rparr>"

lemma wf_sample_manager [simp]: "wf_manager sample_manager"
  by (simp add: wf_manager_def sample_manager_def mk_manager_def lease_of_def)

theorem find_or_create_switch_witness:
  "\<exists>m' lid. find_or_create_lease sample_manager (sample_request ''s'' ''fp'') ''L1'' = Inr (m', lid) \<and>
     wf_manager m'"
proof -
  have f: "lease_of sample_manager ''L1'' = None"
    by (simp add: sample_manager_def mk_manager_def lease_of_def)
  show ?thesis using find_or_create_switch [OF wf_sample_manager f] by blast
qed

text \<open>
  Two consequences of that code on concrete histories. A session that switches its model and
  switches back is handed the invalidated lease, which no later request refreshes, while the lease
  of the model it left stays alive; and two sessions with the same cache identity take the index
  entry from each other, so each of their alternating requests creates another lease.
\<close>

fun open_all :: "lease_manager \<Rightarrow> (lease_request \<times> string) list \<Rightarrow> py_error + lease_manager \<times> string list" where
  "open_all m [] = Inr (m, [])"
| "open_all m ((q, fresh) # rest) = res_bind (find_or_create_lease m q fresh) (\<lambda>(m, lid).
     res_bind (open_all m rest) (\<lambda>(m, lids). Inr (m, lid # lids)))"

lemmas open_eval = find_or_create_lease_def create_lease_def new_lease_def superseded_def
  invalidate_def cancel_pending_warm_def put_lease_def put_runtime_def runtime_for_def
  lease_of_def require_def sample_manager_def mk_manager_def sample_request_def

lemma switch_back_gets_dead_lease:
  "\<exists>m lid1 lid2. open_all sample_manager [(sample_request ''s'' ''A'', ''L1''),
       (sample_request ''s'' ''B'', ''L2''), (sample_request ''s'' ''A'', ''L3'')] =
     Inr (m, [lid1, lid2, lid1]) \<and>
     map_option cl_state (lease_of m lid1) = Some INVALIDATED \<and>
     map_option cl_state (lease_of m lid2) = Some INACTIVE"
  by (simp add: open_eval)

lemma alternating_sessions_multiply_leases:
  "\<exists>m. open_all sample_manager [(sample_request ''s'' ''A'', ''L1''),
       (sample_request ''t'' ''A'', ''L2''), (sample_request ''s'' ''A'', ''L3''),
       (sample_request ''t'' ''A'', ''L4'')] = Inr (m, [''L1'', ''L2'', ''L3'', ''L4''])"
  by (simp add: open_eval)

end
