(* ===== verification/LeaseWarming.thy ===== *)
theory LeaseWarming
  imports LeaseLaws
begin

text \<open>
  What the lease manager does on the request path and when a lease is due: a natural request resets
  the lease, a warm advances it only on evidence, the safe deadline lies before the estimated
  expiry, the economic gate decides by the provider's prices, and nothing is sent unless every
  guard allows it.
\<close>

section \<open>The request path\<close>

text \<open>A natural request that ends is a free heartbeat. It always clears the real-request flag.
  On a failure, or when the lease is invalidated, the lease is left exactly as it was and so is the
  circuit breaker. Otherwise the lease's age restarts now, whatever the response disclosed; it is
  armed when targets wait for it and inactive when none does; only a confirmed hit moves the
  confirmed-hit time; and the circuit breaker is reset exactly by a verified cache touch.\<close>

theorem natural_request_resets:
  assumes "lease_of m lid = Some l"
  shows "\<exists>m' l'. after_normal_request m now lid out = Inr m' \<and> lease_of m' lid = Some l' \<and>
    \<not> rt_real_request_active (runtime_for m' lid) \<and>
    (if cl_state l = INVALIDATED \<or> out = FAILED
     then l' = l \<and> rt_circuit_open (runtime_for m' lid) = rt_circuit_open (runtime_for m lid) \<and>
       rt_consecutive_warm_misses (runtime_for m' lid) = rt_consecutive_warm_misses (runtime_for m lid)
     else cl_last_cache_touch_at l' = Some now \<and>
       cl_state l' = (if cl_active_targets l = {} then INACTIVE else ARMED) \<and>
       cl_last_confirmed_hit_at l' =
         (if out = CONFIRMED_HIT then Some now else cl_last_confirmed_hit_at l) \<and>
       (if out \<in> {CONFIRMED_HIT, MISS_REBUILT}
        then \<not> rt_circuit_open (runtime_for m' lid) \<and>
          rt_consecutive_warm_misses (runtime_for m' lid) = 0
        else rt_circuit_open (runtime_for m' lid) = rt_circuit_open (runtime_for m lid) \<and>
          rt_consecutive_warm_misses (runtime_for m' lid) =
            rt_consecutive_warm_misses (runtime_for m lid))) \<and>
    (\<forall>i. i \<noteq> lid \<longrightarrow> lease_of m' i = lease_of m i \<and> runtime_for m' i = runtime_for m i)"
  using assms by (auto simp: after_normal_request_def Let_def lease_arm_def lease_disarm_def)

lemma sample_opened:
  "\<exists>m. find_or_create_lease sample_manager (sample_request ''s'' ''fp'') ''L1'' = Inr (m, ''L1'') \<and>
     lease_of m ''L1'' \<noteq> None"
  by (simp add: open_eval)

theorem natural_request_resets_witness:
  "\<exists>m m' l'. lease_of m ''L1'' \<noteq> None \<and> after_normal_request m 7 ''L1'' SUCCESS_UNVERIFIED = Inr m' \<and>
     lease_of m' ''L1'' = Some l' \<and> \<not> rt_real_request_active (runtime_for m' ''L1'')"
proof -
  obtain m l where "lease_of m ''L1'' = Some l" using sample_opened by blast
  from natural_request_resets [OF this, of 7 SUCCESS_UNVERIFIED] this show ?thesis by blast
qed

section \<open>The warm's result\<close>

definition verified_touch :: "warm_result \<Rightarrow> bool" where
  "verified_touch res \<longleftrightarrow> wr_outcome res = Some CONFIRMED_HIT \<or>
     (wr_outcome res = Some MISS_REBUILT \<and> 0 < cache_write_tokens (wr_usage res))"

definition unconfirmed :: "warm_result \<Rightarrow> bool" where
  "unconfirmed res \<longleftrightarrow> wr_outcome res \<noteq> None \<and> wr_outcome res \<noteq> Some CONFIRMED_HIT"

lemma apply_warm_result_touch:
  "apply_warm_result now l r res = (l', r', d) \<Longrightarrow>
   cl_last_cache_touch_at l' = (if verified_touch res then Some now else cl_last_cache_touch_at l)"
  by (auto simp: apply_warm_result_def Let_def verified_touch_def split: option.splits if_splits)

lemma apply_warm_result_breaker:
  "apply_warm_result now l r res = (l', r', d) \<Longrightarrow>
   rt_consecutive_warm_misses r' =
     (if wr_outcome res = Some CONFIRMED_HIT then 0
      else if unconfirmed res then Suc (rt_consecutive_warm_misses r)
      else rt_consecutive_warm_misses r) \<and>
   (rt_circuit_open r' \<longleftrightarrow> rt_circuit_open r \<or> unconfirmed res \<and> 1 \<le> rt_consecutive_warm_misses r)"
  by (auto simp: apply_warm_result_def Let_def unconfirmed_def split: option.splits if_splits)

lemma finish_warm_eq:
  assumes "lease_of m lid = Some l"
    and "apply_warm_result now (lease_arm l) ((runtime_for m lid)\<lparr>rt_warm_request_active := False\<rparr>)
      (opt_or answer failed_warm) = (l', r', d)"
  shows "finish_warm m now lid answer = (put_lease (put_runtime m lid r') lid l', d)"
  using assms by (simp add: finish_warm_def Let_def)

text \<open>C15: A warm counts only what the provider proved. When the executor answers, the in-flight flag
  is cleared; every warm that ran is counted and its cost added, a declined one is free; the last
  cache touch moves only on a confirmed hit or on a rebuilt miss with write telemetry; every other
  outcome that ran lengthens the miss streak, and the breaker opens at the second in a row; an
  executor that raised is a failed warm at no cost; and an invalidated lease stays invalidated.\<close>

theorem warm_result_evidence:
  assumes "lease_of m lid = Some l"
  shows "\<exists>m' d l'. finish_warm m now lid answer = (m', d) \<and> lease_of m' lid = Some l' \<and>
    (let res = opt_or answer failed_warm; r = runtime_for m lid; r' = runtime_for m' lid in
     \<not> rt_warm_request_active r' \<and>
     cl_warm_count l' = cl_warm_count l + (if wr_outcome res = None then 0 else 1) \<and>
     cl_warm_cost_usd l' = cl_warm_cost_usd l + (if wr_outcome res = None then 0 else wr_cost_usd res) \<and>
     cl_last_cache_touch_at l' =
       (if verified_touch res then Some now else cl_last_cache_touch_at l) \<and>
     rt_consecutive_warm_misses r' =
       (if wr_outcome res = Some CONFIRMED_HIT then 0
        else rt_consecutive_warm_misses r + (if unconfirmed res then 1 else 0)) \<and>
     (rt_circuit_open r' \<longleftrightarrow> rt_circuit_open r \<or> unconfirmed res \<and> 1 \<le> rt_consecutive_warm_misses r) \<and>
     cl_generation l' = cl_generation l \<and>
     (cl_state l' = INVALIDATED \<longleftrightarrow> cl_state l = INVALIDATED))"
proof -
  obtain l' r' d where a: "apply_warm_result now (lease_arm l)
      ((runtime_for m lid)\<lparr>rt_warm_request_active := False\<rparr>) (opt_or answer failed_warm) = (l', r', d)"
    by (metis prod_cases3)
  show ?thesis
    unfolding finish_warm_eq [OF assms a]
    using apply_warm_result_fields [OF a] apply_warm_result_touch [OF a]
      apply_warm_result_breaker [OF a]
    by (simp add: Let_def unconfirmed_def)
qed

theorem warm_result_evidence_witness:
  "\<exists>m m' d l'. lease_of m ''L1'' \<noteq> None \<and> finish_warm m 9 ''L1'' None = (m', d) \<and>
     lease_of m' ''L1'' = Some l' \<and> \<not> rt_warm_request_active (runtime_for m' ''L1'')"
proof -
  obtain m l where l: "lease_of m ''L1'' = Some l" using sample_opened by blast
  from warm_result_evidence [OF l, of 9 None] l show ?thesis unfolding Let_def by blast
qed

section \<open>The deadline\<close>

lemma jitter_bounds:
  assumes "0 \<le> ls_jitter_fraction (lm_settings m)"
  shows "- ls_jitter_fraction (lm_settings m) \<le> jitter_for m fp \<and>
    jitter_for m fp \<le> ls_jitter_fraction (lm_settings m)"
proof -
  have f: "foldl (\<lambda>acc b. acc * 256 + unat b) a bs < (a + 1) * 256 ^ length bs"
    for a and bs :: "byte list"
  proof (induction bs arbitrary: a)
    case (Cons b bs)
    have "foldl (\<lambda>acc b. acc * 256 + unat b) (a * 256 + unat b) bs
        < (a * 256 + unat b + 1) * 256 ^ length bs" by (rule Cons.IH)
    also have "\<dots> \<le> (a + 1) * 256 * 256 ^ length bs"
      using unat_byte_lt [of b] by (intro mult_right_mono) auto
    finally show ?case by (simp add: algebra_simps)
  qed simp
  define n where "n = foldl (\<lambda>acc b. acc * 256 + unat b) 0 (take 8 (sha256 (utf8 fp)))"
  have "n < 2 ^ 64" using f [of 0 "take 8 (sha256 (utf8 fp))"] by (simp add: n_def)
  then have "(of_nat n :: flt) \<le> 2 ^ 64"
    by (metis less_imp_le of_nat_le_iff of_nat_numeral of_nat_power)
  then have u: "(of_nat n :: flt) / 2 ^ 64 \<le> 1" "0 \<le> (of_nat n :: flt) / 2 ^ 64" by simp_all
  define v where "v = of_nat n / (2 ^ 64 :: flt) * 2 - 1"
  have v: "-1 \<le> v" "v \<le> 1" using u by (simp_all add: v_def)
  have j: "jitter_for m fp = v * ls_jitter_fraction (lm_settings m)"
    by (simp add: jitter_for_def n_def v_def Let_def)
  show ?thesis
    using mult_right_mono [OF v(1) assms] mult_right_mono [OF v(2) assms] by (simp add: j)
qed

definition safe_interval :: "lease_manager \<Rightarrow> cache_lease \<Rightarrow> flt" where
  "safe_interval m l = (let ttl = max (cl_estimated_ttl_s l) 0 in
     min (ttl * ls_warm_fraction (lm_settings m)) (ttl - network_margin m))"

lemma next_deadline_interval:
  "cl_last_cache_touch_at l = Some t \<Longrightarrow>
   next_deadline m l = Some (t + safe_interval m l * (1 + jitter_for m (cl_cache_fingerprint l)))"
  by (auto simp: next_deadline_def safe_interval_def Let_def min_def)

text \<open>C23: The deadline is safe. A lease never touched has none. For one that was, under valid
  settings and when the time to live covers the network margin, the deadline lies between the last
  touch and the jittered fraction of the time to live; it lies before the estimated expiry whenever
  the warm fraction with the jitter added stays within 1 (as the defaults do); and it moves with the
  touch: a later touch postpones it by exactly the difference.\<close>

theorem deadline_safe:
  assumes "valid_settings (lm_settings m)" and "network_margin m \<le> cl_estimated_ttl_s l"
    and "ls_warm_fraction (lm_settings m) * (1 + ls_jitter_fraction (lm_settings m)) \<le> 1"
  shows "(next_deadline m l = None \<longleftrightarrow> cl_last_cache_touch_at l = None) \<and>
    (\<forall>t d. cl_last_cache_touch_at l = Some t \<and> next_deadline m l = Some d \<longrightarrow>
       t \<le> d \<and> d \<le> t + cl_estimated_ttl_s l \<and>
       next_deadline m (l\<lparr>cl_last_cache_touch_at := Some (t + \<delta>)\<rparr>) = Some (d + \<delta>))"
proof -
  define j where "j = jitter_for m (cl_cache_fingerprint l)"
  define s where "s = safe_interval m l"
  define ttl where "ttl = cl_estimated_ttl_s l"
  have jf: "0 \<le> ls_jitter_fraction (lm_settings m)" "ls_jitter_fraction (lm_settings m) \<le> 1"
    and wf: "0 < ls_warm_fraction (lm_settings m)"
    using assms(1) by (auto simp: valid_settings_def)
  have j: "-1 \<le> j" "j \<le> ls_jitter_fraction (lm_settings m)"
    using jitter_bounds [OF jf(1), of "cl_cache_fingerprint l"] jf by (auto simp: j_def)
  have "0 \<le> network_margin m" using assms(1) by (auto simp: network_margin_def valid_settings_def)
  then have ttl0: "0 \<le> ttl" using assms(2) by (simp add: ttl_def)
  have s0: "0 \<le> s" using ttl0 wf assms(2) by (simp add: s_def safe_interval_def ttl_def Let_def)
  have s1: "s \<le> ttl * ls_warm_fraction (lm_settings m)"
    using ttl0 by (simp add: s_def safe_interval_def ttl_def Let_def)
  have lo: "0 \<le> s * (1 + j)" using s0 j(1) by simp
  have "s * (1 + j) \<le> ttl * ls_warm_fraction (lm_settings m) * (1 + ls_jitter_fraction (lm_settings m))"
    using s0 s1 j ttl0 wf by (intro mult_mono) auto
  also have "\<dots> \<le> ttl * 1"
    using mult_left_mono [OF assms(3) ttl0] by (simp add: mult.assoc)
  finally have hi: "s * (1 + j) \<le> ttl" by simp
  have mv: "safe_interval m (l\<lparr>cl_last_cache_touch_at := x\<rparr>) = s" for x
    by (simp add: safe_interval_def s_def)
  show ?thesis
  proof (intro conjI allI impI)
    show "next_deadline m l = None \<longleftrightarrow> cl_last_cache_touch_at l = None"
      by (auto simp: next_deadline_def Let_def split: option.split)
  next
    fix t d assume a: "cl_last_cache_touch_at l = Some t \<and> next_deadline m l = Some d"
    then have d: "d = t + s * (1 + j)" using next_deadline_interval [of l t m] by (simp add: s_def j_def)
    show "t \<le> d" "d \<le> t + cl_estimated_ttl_s l" using lo hi by (simp_all add: d ttl_def)
    show "next_deadline m (l\<lparr>cl_last_cache_touch_at := Some (t + \<delta>)\<rparr>) = Some (d + \<delta>)"
      using next_deadline_interval [of "l\<lparr>cl_last_cache_touch_at := Some (t + \<delta>)\<rparr>" "t + \<delta>" m]
      by (simp add: mv d j_def)
  qed
qed

theorem deadline_safe_witness:
  "\<exists>l d. cl_last_cache_touch_at l = Some 100 \<and> next_deadline sample_manager l = Some d \<and>
     100 \<le> d \<and> d \<le> 400"
proof -
  define l where
    "l = (new_lease sample_manager (sample_request ''s'' ''fp'') ''L1'')\<lparr>cl_last_cache_touch_at := Some 100\<rparr>"
  have v: "valid_settings (lm_settings sample_manager)"
    by (simp add: valid_settings_def sample_manager_def mk_manager_def default_settings_def
        DEFAULT_RESUME_PROBABILITY_def DEFAULT_DETACHED_RESUME_PROBABILITY_def)
  have t: "cl_estimated_ttl_s l = 300" "cl_last_cache_touch_at l = Some 100"
    by (simp_all add: l_def new_lease_def sample_manager_def mk_manager_def default_settings_def
        sample_request_def)
  have n: "network_margin sample_manager \<le> cl_estimated_ttl_s l"
    "ls_warm_fraction (lm_settings sample_manager) *
       (1 + ls_jitter_fraction (lm_settings sample_manager)) \<le> 1"
    by (simp_all add: t network_margin_def sample_manager_def mk_manager_def default_settings_def)
  obtain d where d: "next_deadline sample_manager l = Some d"
    using next_deadline_interval [OF t(2)] by blast
  show ?thesis
    using conjunct2 [OF deadline_safe [OF v n], of 0] d t by (intro exI [of _ l] exI [of _ d]) simp
qed

section \<open>The economic gate\<close>

lemma economic_gate_snd:
  "snd (economic_gate m l) \<longleftrightarrow>
     enabled (ls_economics (lm_settings m)) \<longrightarrow> should_warm (lease_economics m l)"
  by (auto simp: economic_gate_def evaluate_economics_def Let_def)

lemma lease_economics_warm_iff:
  "should_warm (lease_economics m l) \<longleftrightarrow>
     (\<exists>cold cached. cl_estimated_cold_resume_cost_usd l = Some cold \<and>
        cl_estimated_cached_resume_cost_usd l = Some cached \<and>
        0 < resume_probability m l \<and> cached < cold \<and>
        opt_or (cl_next_warm_cost_usd l) 0 + safety_margin (lm_economics m)
          < resume_probability m l * (cold - cached) \<and>
        cl_warm_cost_usd l + opt_or (cl_next_warm_cost_usd l) 0
          < resume_probability m l * (cold - cached) * budget_ratio (lm_economics m) \<and>
        minimum_expected_savings (lm_economics m)
          \<le> resume_probability m l * (cold - cached)
             - (cl_warm_cost_usd l + opt_or (cl_next_warm_cost_usd l) 0))"
  by (cases "cl_estimated_cold_resume_cost_usd l"; cases "cl_estimated_cached_resume_cost_usd l")
    (simp_all add: lease_economics_def Let_def evaluate_warm_iff)

definition cold_rate :: "pricing_table \<Rightarrow> flt" where
  "cold_rate p = (if 0 < cache_write_per_mtok p then cache_write_per_mtok p else input_per_mtok p)"

definition avoidable_of :: "pricing_table \<Rightarrow> int \<Rightarrow> flt" where
  "avoidable_of p n = of_int n * (cold_rate p - cache_read_per_mtok p) / PER_MTK"

definition next_warm_of :: "pricing_table \<Rightarrow> int \<Rightarrow> flt" where
  "next_warm_of p n = (of_int n * cache_read_per_mtok p + output_per_mtok p) / PER_MTK"

lemma update_cost_estimates_priced:
  assumes "lease_of m lid = Some l" and "lm_pricing m = Some p" and "0 < prompt_tokens u"
  obtains cold cached where
    "update_cost_estimates m lid u = Inr (put_lease m lid (l\<lparr>cl_prefix_tokens := Some (prompt_tokens u),
       cl_estimated_cold_resume_cost_usd := Some cold,
       cl_estimated_cached_resume_cost_usd := Some cached,
       cl_next_warm_cost_usd := Some (next_warm_of p (prompt_tokens u))\<rparr>))"
    "cold - cached = avoidable_of p (prompt_tokens u)"
proof -
  obtain cold cached where e: "estimate_resume_costs (prompt_tokens u) p 0 = Inr (cold, cached)"
    using estimate_resume_costs_eq [of "prompt_tokens u" 0 p] assms(3) by auto
  have "cold - cached = avoidable_of p (prompt_tokens u)"
    using avoidable_loss_eq [OF e] by (simp add: avoidable_of_def cold_rate_def)
  then show ?thesis
    using that [of cached cold] assms e
    by (simp add: update_cost_estimates_def Let_def mk_usage_def non_negative_def finite_cost_def
        estimate_cost_def next_warm_of_def)
qed

text \<open>From a request's usage to the warm decision. After a request with a positive prompt, a
  manager with a price table lets a due lease warm exactly when economics is off, or a continuation
  has positive probability and the prefix's avoidable loss at that probability exceeds the next
  warm's price with the safety margin, leaves room for it in the budget after everything already
  spent, and saves the configured minimum. Without a price table the lease never passes the gate.\<close>

theorem gate_after_usage:
  assumes "lease_of m lid = Some l" and "0 < prompt_tokens u"
  shows "\<exists>m' l'. update_cost_estimates m lid u = Inr m' \<and> lease_of m' lid = Some l' \<and>
    (snd (economic_gate m' l') \<longleftrightarrow>
       (enabled (ls_economics (lm_settings m)) \<longrightarrow>
        (\<exists>p. lm_pricing m = Some p \<and>
          (let q = resume_probability m l; loss = avoidable_of p (prompt_tokens u);
               nxt = next_warm_of p (prompt_tokens u); spent = cl_warm_cost_usd l; c = lm_economics m
           in 0 < q \<and> 0 < loss \<and> nxt + safety_margin c < q * loss \<and>
              spent + nxt < q * loss * budget_ratio c \<and>
              minimum_expected_savings c \<le> q * loss - (spent + nxt)))))"
proof (cases "lm_pricing m")
  case None
  then show ?thesis
    using assms
    by (auto simp: update_cost_estimates_def Let_def economic_gate_snd lease_economics_warm_iff)
next
  case (Some p)
  obtain cold cached where u: "update_cost_estimates m lid u =
       Inr (put_lease m lid (l\<lparr>cl_prefix_tokens := Some (prompt_tokens u),
       cl_estimated_cold_resume_cost_usd := Some cold,
       cl_estimated_cached_resume_cost_usd := Some cached,
       cl_next_warm_cost_usd := Some (next_warm_of p (prompt_tokens u))\<rparr>))"
    "cold - cached = avoidable_of p (prompt_tokens u)"
    using update_cost_estimates_priced [OF assms(1) Some assms(2)] by blast
  have q: "resume_probability (put_lease m lid x) (l\<lparr>cl_prefix_tokens := a,
       cl_estimated_cold_resume_cost_usd := b, cl_estimated_cached_resume_cost_usd := c,
       cl_next_warm_cost_usd := d\<rparr>) = resume_probability m l" for x a b c d
    by (simp add: resume_probability_def)
  have ec: "lm_economics (put_lease m lid x) = lm_economics m" for x by (simp add: put_lease_def)
  have lt: "cached < cold \<longleftrightarrow> 0 < avoidable_of p (prompt_tokens u)" using u(2) by linarith
  show ?thesis
    by (simp add: u(1) economic_gate_snd lease_economics_warm_iff q ec u(2) lt Some Let_def)
qed

definition priced_manager :: lease_manager where
  "priced_manager = mk_manager (default_settings\<lparr>ls_dry_run := False, ls_pricing := Some free_writes_pricing\<rparr>)
     4 (Some []) True None None None None"

lemma priced_opened:
  "\<exists>m l. find_or_create_lease priced_manager (sample_request ''s'' ''fp'') ''L1'' = Inr (m, ''L1'') \<and>
     lease_of m ''L1'' = Some l \<and> lm_pricing m = Some free_writes_pricing"
  by (simp add: open_eval priced_manager_def)

theorem gate_after_usage_witness:
  "\<exists>m m' l'. lease_of m ''L1'' \<noteq> None \<and>
     update_cost_estimates m ''L1'' (empty_usage\<lparr>prompt_tokens := 90000\<rparr>) = Inr m' \<and>
     lease_of m' ''L1'' = Some l'"
proof -
  obtain m l where l: "lease_of m ''L1'' = Some l" using priced_opened by blast
  have "0 < prompt_tokens (empty_usage\<lparr>prompt_tokens := 90000\<rparr>)" by simp
  from gate_after_usage [OF l this] l show ?thesis by blast
qed

section \<open>When a warm is sent\<close>

definition warm_send :: "lease_manager \<Rightarrow> flt \<Rightarrow> string \<Rightarrow> request_snapshot option" where
  \<comment> \<open>The snapshot an undisturbed evaluation hands to the executor, if it gets that far.\<close>
  "warm_send m now lid =
     (case evaluate_head m now lid of
        (m1, Done d) \<Rightarrow> None
      | (m1, Want_lock g) \<Rightarrow>
          (case under_lock m1 lid g of (m2, Inl d) \<Rightarrow> None | (m2, Inr snap) \<Rightarrow> Some snap))"

lemma evaluate_lease_only_sends:
  "(\<And>s. warm_send m now lid = Some s \<Longrightarrow> exec s = exec' s) \<Longrightarrow>
   evaluate_lease exec m now later lid = evaluate_lease exec' m now later lid"
  by (auto simp: evaluate_lease_def warm_send_def split: prod.splits segment.splits sum.splits)

lemma evaluate_head_Want_lock:
  "evaluate_head m now lid = (m1, Want_lock g) \<longleftrightarrow>
     (\<exists>l due. lease_of m lid = Some l \<and> cl_active_targets l \<noteq> {} \<and>
        \<not> rt_real_request_active (runtime_for m lid) \<and>
        \<not> rt_warm_request_active (runtime_for m lid) \<and> cl_state l \<noteq> INVALIDATED \<and>
        \<not> rt_circuit_open (runtime_for m lid) \<and> next_deadline m l = Some due \<and> due \<le> now \<and>
        snd (economic_gate m l) \<and> g = cl_generation l \<and>
        opt_or (rt_scheduled_generation (runtime_for m lid)) (cl_generation l) = cl_generation l \<and>
        m1 = put_runtime (put_lease m lid (fst (economic_gate m l))) lid
          ((runtime_for m lid)\<lparr>rt_scheduled_generation := None, rt_pending_warm := False\<rparr>))"
  (is "?L \<longleftrightarrow> ?R")
proof
  assume ?L
  then show ?R
    by (auto simp: evaluate_head_def enter_warm_def Let_def case_prod_beta
        split: option.splits if_splits)
next
  assume ?R
  then obtain l due where f: "lease_of m lid = Some l" "cl_active_targets l \<noteq> {}"
    "\<not> rt_real_request_active (runtime_for m lid)" "\<not> rt_warm_request_active (runtime_for m lid)"
    "cl_state l \<noteq> INVALIDATED" "\<not> rt_circuit_open (runtime_for m lid)"
    "next_deadline m l = Some due" "\<not> now < due" "snd (economic_gate m l)" "g = cl_generation l"
    "opt_or (rt_scheduled_generation (runtime_for m lid)) (cl_generation l) = cl_generation l"
    "m1 = put_runtime (put_lease m lid (fst (economic_gate m l))) lid
          ((runtime_for m lid)\<lparr>rt_scheduled_generation := None, rt_pending_warm := False\<rparr>)"
    by (metis not_le)
  then show ?L
    by (simp add: evaluate_head_def enter_warm_def Let_def case_prod_beta)
qed

lemma under_lock_Inr:
  "(\<exists>m2. under_lock m lid g = (m2, Inr snap)) \<longleftrightarrow>
     (\<exists>l store. lease_of m lid = Some l \<and> \<not> rt_real_request_active (runtime_for m lid) \<and>
        cl_active_targets l \<noteq> {} \<and> cl_generation l = g \<and> \<not> ls_dry_run (lm_settings m) \<and>
        \<not> rt_circuit_open (runtime_for m lid) \<and> lm_has_executor m \<and>
        lm_snapshot_store m = Some store \<and> snap_get store (cl_cache_fingerprint l) = Some snap)"
  by (auto simp: under_lock_def Let_def split: option.splits if_splits)

lemma warm_send_iff:
  "warm_send m now lid = Some snap \<longleftrightarrow>
     (\<exists>l due store. lease_of m lid = Some l \<and> cl_active_targets l \<noteq> {} \<and>
        \<not> rt_real_request_active (runtime_for m lid) \<and>
        \<not> rt_warm_request_active (runtime_for m lid) \<and> cl_state l \<noteq> INVALIDATED \<and>
        \<not> rt_circuit_open (runtime_for m lid) \<and> next_deadline m l = Some due \<and> due \<le> now \<and>
        snd (economic_gate m l) \<and>
        rt_scheduled_generation (runtime_for m lid) \<in> {None, Some (cl_generation l)} \<and>
        \<not> ls_dry_run (lm_settings m) \<and> lm_has_executor m \<and> lm_snapshot_store m = Some store \<and>
        snap_get store (cl_cache_fingerprint l) = Some snap)"
proof -
  have g: "opt_or x y = y \<longleftrightarrow> x \<in> {None, Some y}" for x :: "int option" and y by (cases x) auto
  have "warm_send m now lid = Some snap \<longleftrightarrow>
      (\<exists>m1 g. evaluate_head m now lid = (m1, Want_lock g) \<and>
        (\<exists>m2. under_lock m1 lid g = (m2, Inr snap)))"
    by (auto simp: warm_send_def split: prod.splits segment.splits sum.splits)
  then show ?thesis unfolding evaluate_head_Want_lock under_lock_Inr g by auto
qed

text \<open>C10: A warm is sent exactly when every guard allows it: a target waits, no real request and no
  warm of the lease is in flight, the lease is not invalidated, its breaker is closed, its deadline
  has passed, the economic gate passes, no real request overtook the schedule, dry run is off, an
  executor is configured and the store holds the snapshot of the lease's own cache identity. Nothing
  else of the executor can influence the evaluation.\<close>

theorem warm_sent_iff_authorised:
  "(warm_send m now lid = Some snap \<longleftrightarrow>
     (\<exists>l due store. lease_of m lid = Some l \<and> cl_active_targets l \<noteq> {} \<and>
        \<not> rt_real_request_active (runtime_for m lid) \<and>
        \<not> rt_warm_request_active (runtime_for m lid) \<and> cl_state l \<noteq> INVALIDATED \<and>
        \<not> rt_circuit_open (runtime_for m lid) \<and> next_deadline m l = Some due \<and> due \<le> now \<and>
        snd (economic_gate m l) \<and>
        rt_scheduled_generation (runtime_for m lid) \<in> {None, Some (cl_generation l)} \<and>
        \<not> ls_dry_run (lm_settings m) \<and> lm_has_executor m \<and> lm_snapshot_store m = Some store \<and>
        snap_get store (cl_cache_fingerprint l) = Some snap)) \<and>
   (warm_send m now lid = None \<or> exec (the (warm_send m now lid)) = exec' (the (warm_send m now lid))
      \<longrightarrow> evaluate_lease exec m now later lid = evaluate_lease exec' m now later lid)"
proof (intro conjI impI)
  show "warm_send m now lid = Some snap \<longleftrightarrow> (\<exists>l due store. lease_of m lid = Some l \<and> cl_active_targets l \<noteq> {} \<and>
        \<not> rt_real_request_active (runtime_for m lid) \<and>
        \<not> rt_warm_request_active (runtime_for m lid) \<and> cl_state l \<noteq> INVALIDATED \<and>
        \<not> rt_circuit_open (runtime_for m lid) \<and> next_deadline m l = Some due \<and> due \<le> now \<and>
        snd (economic_gate m l) \<and>
        rt_scheduled_generation (runtime_for m lid) \<in> {None, Some (cl_generation l)} \<and>
        \<not> ls_dry_run (lm_settings m) \<and> lm_has_executor m \<and> lm_snapshot_store m = Some store \<and>
        snap_get store (cl_cache_fingerprint l) = Some snap)" by (rule warm_send_iff)
next
  assume "warm_send m now lid = None \<or>
    exec (the (warm_send m now lid)) = exec' (the (warm_send m now lid))"
  then show "evaluate_lease exec m now later lid = evaluate_lease exec' m now later lid"
    by (intro evaluate_lease_only_sends) auto
qed

text \<open>A lease that is due, in a manager that may warm it.\<close>

definition due_lease :: cache_lease where
  "due_lease = (new_lease sample_manager (sample_request ''s'' ''fp'') ''L1'')\<lparr>
     cl_active_targets := {''bg-1''}, cl_last_cache_touch_at := Some 0, cl_state := ARMED\<rparr>"

definition due_manager :: lease_manager where
  "due_manager = sample_manager\<lparr>
     lm_settings := default_settings\<lparr>ls_dry_run := False,
        ls_economics := default_economic_config\<lparr>enabled := False\<rparr>\<rparr>,
     lm_snapshot_store := Some (snap_store snap_init (sample_snapshot)),
     lm_leases := [(''L1'', due_lease)], lm_by_cache_fingerprint := [(''fp'', ''L1'')]\<rparr>"

lemma due_manager_facts:
  "lease_of due_manager ''L1'' = Some due_lease" "cl_active_targets due_lease = {''bg-1''}"
  "runtime_for due_manager ''L1'' = initial_runtime" "cl_state due_lease = ARMED"
  "cl_last_cache_touch_at due_lease = Some 0" "cl_cache_fingerprint due_lease = ''fp''"
  "lm_settings due_manager = default_settings\<lparr>ls_dry_run := False,
        ls_economics := default_economic_config\<lparr>enabled := False\<rparr>\<rparr>"
  "lm_has_executor due_manager"
  "lm_snapshot_store due_manager = Some [(''fp'', sample_snapshot)]"
  "safe_interval due_manager due_lease = 240"
  by (simp_all add: due_manager_def due_lease_def sample_manager_def mk_manager_def lease_of_def
      runtime_for_def new_lease_def sample_request_def snap_store_def snap_init_def
      sample_snapshot_def safe_interval_def network_margin_def default_settings_def)

lemma due_by_1000: "\<exists>due. next_deadline due_manager due_lease = Some due \<and> due \<le> 1000"
proof -
  have "jitter_for due_manager ''fp'' \<le> 3 / 100"
    using jitter_bounds [of due_manager "''fp''"]
    by (simp add: due_manager_facts default_settings_def)
  then show ?thesis
    using next_deadline_interval [OF due_manager_facts(5), of due_manager]
    by (simp add: due_manager_facts)
qed

theorem warm_sent_iff_authorised_witness:
  "warm_send due_manager 1000 ''L1'' = Some sample_snapshot \<and>
   evaluate_lease (\<lambda>s. if s = sample_snapshot then None else Some failed_warm) due_manager 1000 1000 ''L1'' =
   evaluate_lease (\<lambda>s. None) due_manager 1000 1000 ''L1''"
proof -
  obtain due where d: "next_deadline due_manager due_lease = Some due" "due \<le> 1000"
    using due_by_1000 by blast
  have s: "warm_send due_manager 1000 ''L1'' = Some sample_snapshot"
    unfolding warm_sent_iff_authorised [THEN conjunct1]
    using d by (simp add: due_manager_facts initial_runtime_def economic_gate_snd snap_get_def)
  show ?thesis
    using warm_sent_iff_authorised [THEN conjunct2, of due_manager 1000 "''L1''"
        "\<lambda>s. if s = sample_snapshot then None else Some failed_warm" "\<lambda>s. None" 1000] s
    by simp
qed

text \<open>
  A manager that cannot warm a lease: dry run, no snapshot store or executor, or no snapshot of the
  lease's cache identity (what a restart leaves).
\<close>

definition cannot_warm :: "lease_manager \<Rightarrow> string \<Rightarrow> bool" where
  "cannot_warm m lid \<longleftrightarrow> ls_dry_run (lm_settings m) \<or> \<not> lm_has_executor m \<or>
     (case (lm_snapshot_store m, lease_of m lid) of
        (Some store, Some l) \<Rightarrow> snap_get store (cl_cache_fingerprint l) = None
      | _ \<Rightarrow> True)"

lemma cannot_warm_send: "cannot_warm m lid \<Longrightarrow> warm_send m now lid = None"
proof (rule ccontr)
  assume c: "cannot_warm m lid" and "warm_send m now lid \<noteq> None"
  then obtain snap where "warm_send m now lid = Some snap" by blast
  then show False
    using c unfolding warm_send_iff cannot_warm_def by auto
qed

lemma snapshots_fixed:
  "lm_snapshot_store (fst (evaluate_lease exec m now later lid)) = lm_snapshot_store m"
  by (auto simp: evaluate_lease_def evaluate_head_def enter_warm_def under_lock_def finish_warm_def
      Let_def case_prod_beta split: option.splits)

lemma evaluate_lease_other:
  "i \<noteq> lid \<Longrightarrow> lease_of (fst (evaluate_lease exec m now later lid)) i = lease_of m i"
  by (auto simp: evaluate_lease_def evaluate_head_def enter_warm_def under_lock_def finish_warm_def
      Let_def case_prod_beta split: option.splits)

definition spend_of :: "cache_lease \<Rightarrow> int \<times> flt \<times> flt option \<times> flt option \<times> int" where
  "spend_of l = (cl_warm_count l, cl_warm_cost_usd l, cl_last_cache_touch_at l,
     cl_last_confirmed_hit_at l, cl_generation l)"

lemma evaluate_head_spend:
  "map_option spend_of (lease_of (fst (evaluate_head m now lid)) i) =
   map_option spend_of (lease_of m i)"
  by (auto simp: evaluate_head_def enter_warm_def economic_gate_def evaluate_economics_def Let_def
      case_prod_beta spend_of_def split: option.splits)

lemma under_lock_Inl: "under_lock m lid g = (m', Inl d) \<Longrightarrow> m' = m"
  by (auto simp: under_lock_def Let_def split: option.splits if_splits)

lemma evaluate_lease_no_send:
  assumes "warm_send m now lid = None"
  shows "map_option spend_of (lease_of (fst (evaluate_lease exec m now later lid)) i) =
    map_option spend_of (lease_of m i)"
proof -
  obtain m1 s where h: "evaluate_head m now lid = (m1, s)" by fastforce
  show ?thesis
  proof (cases s)
    case (Done d)
    then show ?thesis using h evaluate_head_spend [of m now lid i] by (simp add: evaluate_lease_def)
  next
    case (Want_lock g)
    obtain m2 o2 where u: "under_lock m1 lid g = (m2, o2)" by fastforce
    then obtain d where d: "o2 = Inl d"
      using assms h Want_lock by (cases o2) (auto simp: warm_send_def)
    then have "m2 = m1" using u under_lock_Inl by blast
    then show ?thesis
      using h u Want_lock d evaluate_head_spend [of m now lid i] by (simp add: evaluate_lease_def)
  qed
qed

lemma cannot_warm_evaluate:
  assumes "wf_manager m" and "cannot_warm m i"
  shows "cannot_warm (fst (evaluate_lease exec m now later lid)) i"
proof -
  define m' where "m' = fst (evaluate_lease exec m now later lid)"
  have ok: "evolves m m'" "config_of m' = config_of m"
    using evaluate_lease_ok [of m exec now later lid] assms(1) by (simp_all add: step_ok_def m'_def)
  have n: "lease_of m i = None \<Longrightarrow> lease_of m' i = None"
    using evaluate_lease_other [of i lid exec m now later]
    by (cases "i = lid") (auto simp: m'_def evaluate_lease_def evaluate_head_def)
  have f: "lease_of m i = Some l \<Longrightarrow>
      \<exists>l'. lease_of m' i = Some l' \<and> cl_cache_fingerprint l' = cl_cache_fingerprint l" for l
    using ok(1) unfolding evolves_def lease_evolves_def by blast
  have "lm_snapshot_store m' = lm_snapshot_store m" by (simp add: m'_def snapshots_fixed)
  then show ?thesis
    using assms(2) ok(2) n f unfolding cannot_warm_def config_of_def m'_def [symmetric]
    by (cases "lease_of m i") (auto split: option.splits)
qed

lemma tick_loop_ids: "map fst (snd (tick_loop exec clock lids m)) = lids"
  by (induction lids arbitrary: m) (simp_all add: case_prod_beta Let_def)

lemma tick_loop_cannot_warm:
  assumes "wf_manager m" and "\<forall>i. cannot_warm m i"
  shows "tick_loop exec clock lids m = tick_loop exec' clock lids m \<and>
    map_option spend_of (lease_of (fst (tick_loop exec clock lids m)) i) =
      map_option spend_of (lease_of m i)"
  using assms
proof (induction lids arbitrary: m)
  case (Cons lid lids)
  define st where "st = evaluate_lease exec m (fst (clock lid)) (snd (clock lid)) lid"
  have w: "warm_send m (fst (clock lid)) lid = None" using cannot_warm_send Cons.prems(2) by blast
  have same: "evaluate_lease exec' m (fst (clock lid)) (snd (clock lid)) lid = st"
    unfolding st_def by (rule evaluate_lease_only_sends) (simp add: w)
  have "wf_manager (fst st)"
    using evaluate_lease_ok Cons.prems(1) by (simp add: st_def step_ok_def)
  moreover have "\<forall>i. cannot_warm (fst st) i"
    using cannot_warm_evaluate [OF Cons.prems(1)] Cons.prems(2) by (simp add: st_def)
  ultimately have "tick_loop exec clock lids (fst st) = tick_loop exec' clock lids (fst st)"
    "map_option spend_of (lease_of (fst (tick_loop exec clock lids (fst st))) i) =
      map_option spend_of (lease_of (fst st) i)"
    using Cons.IH [of "fst st"] by blast+
  then show ?case
    using evaluate_lease_no_send [OF w, of exec "snd (clock lid)" i] same
    by (simp add: st_def [symmetric] case_prod_beta Let_def)
qed simp

text \<open>A tick visits every lease once, in the order they were created, and a manager that cannot
  warm (dry run, no store or executor, or no snapshot, as after a restart) sends nothing in it: the
  executor has no influence on the tick, and no lease's warm count, cost, cache touch or generation
  changes.\<close>

theorem tick_without_warming:
  assumes "wf_manager m" and "\<forall>lid. cannot_warm m lid"
  shows "map fst (snd (tick exec clock m)) = map fst (lm_leases m) \<and>
    tick exec clock m = tick exec' clock m \<and>
    map_option spend_of (lease_of (fst (tick exec clock m)) i) = map_option spend_of (lease_of m i)"
  using tick_loop_cannot_warm [OF assms] tick_loop_ids by (simp add: tick_def)

lemma sample_cannot_warm: "cannot_warm (sample_manager\<lparr>lm_leases := ls\<rparr>) lid"
  by (simp add: cannot_warm_def sample_manager_def mk_manager_def default_settings_def)

theorem tick_without_warming_witness:
  "map fst (snd (tick (\<lambda>s. None) (\<lambda>i. (1000, 1000))
     (sample_manager\<lparr>lm_leases := [(''L1'', due_lease)]\<rparr>))) = [''L1'']"
proof -
  have w: "wf_manager (sample_manager\<lparr>lm_leases := [(''L1'', due_lease)]\<rparr>)"
    by (simp add: wf_manager_def wf_lease_def lease_of_def sample_manager_def mk_manager_def
        due_lease_def new_lease_def sample_request_def)
  show ?thesis
    using tick_without_warming [OF w, of "\<lambda>s. None" "\<lambda>i. (1000, 1000)" "\<lambda>s. None" "''L1''"]
      sample_cannot_warm by simp
qed

end
