(* ===== verification/LeaseSched.thy ===== *)
theory LeaseSched
  imports LeaseWarming
begin

text \<open>
  The lease manager under interleaving. Between two \<open>await\<close>s a coroutine runs alone, so the
  event loop is a labelled transition system whose steps are the segments of \<open>evaluate_lease\<close>
  and the manager's other methods, in any order: any number of evaluations may wait for a lock or
  have a warm in flight. The generic part is the locale \<open>transition_system\<close>. The invariants:
  the locks are exactly the cache identities with a warm in flight, each with one; the circuit
  breaker stays within two misses; and a warm begins only when it is still authorised.
\<close>

section \<open>Transition systems\<close>

locale transition_system =
  fixes start :: "'s \<Rightarrow> bool"
    and step :: "'s \<Rightarrow> 'e \<Rightarrow> 's \<Rightarrow> bool"
begin

inductive run :: "'s \<Rightarrow> 'e list \<Rightarrow> 's \<Rightarrow> bool" where
  run_nil: "run s [] s"
| run_snoc: "run s es s' \<Longrightarrow> step s' e s'' \<Longrightarrow> run s (es @ [e]) s''"

lemma run_cons: "run s' es s'' \<Longrightarrow> step s e s' \<Longrightarrow> run s (e # es) s''"
proof (induction rule: run.induct)
  case (run_nil s')
  then show ?case using run_snoc [OF run.run_nil] by fastforce
next
  case (run_snoc s' es a e' b)
  then show ?case using run.run_snoc [of s "e # es" a e' b] by simp
qed

definition reachable :: "'s \<Rightarrow> bool" where
  "reachable s \<longleftrightarrow> (\<exists>s0 es. start s0 \<and> run s0 es s)"

lemma reachable_start: "start s \<Longrightarrow> reachable s"
  unfolding reachable_def using run_nil by blast

lemma reachable_step: "reachable s \<Longrightarrow> step s e s' \<Longrightarrow> reachable s'"
  unfolding reachable_def using run_snoc by blast

lemma run_preserves:
  "run s es s' \<Longrightarrow> I s \<Longrightarrow> (\<And>a e b. I a \<Longrightarrow> step a e b \<Longrightarrow> I b) \<Longrightarrow> I s'"
  by (induction rule: run.induct) auto

lemma invariant:
  assumes "reachable s" and "\<And>a. start a \<Longrightarrow> I a" and "\<And>a e b. I a \<Longrightarrow> step a e b \<Longrightarrow> I b"
  shows "I s"
proof -
  obtain s0 es where r: "start s0" "run s0 es s" using assms(1) unfolding reachable_def by blast
  show ?thesis using run_preserves [of s0 es s I] r assms(2,3) by simp
qed

lemma run_related:
  assumes "run s es s'" and "I s" and "\<And>a. R a a" and "\<And>a b c. R a b \<Longrightarrow> R b c \<Longrightarrow> R a c"
    and "\<And>a e b. I a \<Longrightarrow> step a e b \<Longrightarrow> I b \<and> R a b"
  shows "R s s'"
proof -
  from assms(1,2) have "I s' \<and> R s s'"
  proof (induction rule: run.induct)
    case (run_nil s)
    then show ?case using assms(3) by simp
  next
    case (run_snoc s es s' e s'')
    then have "I s'" "R s s'" by simp_all
    moreover have "I s''" "R s' s''" using assms(5) [OF \<open>I s'\<close> run_snoc.hyps(2)] by simp_all
    ultimately show ?case using assms(4) by blast
  qed
  then show ?thesis by blast
qed

end

section \<open>The manager's methods as operations\<close>

datatype mgr_op = Op_arm string | Op_invalidate string | Op_complete string
  | Op_find lease_request string | Op_target_started string string | Op_target_finished string string
  | Op_before flt string | Op_after flt string outcome | Op_refresh string
  | Op_costs string token_usage | Op_route string "string option" | Op_snapshots snap_op
  | Op_profiles "(string \<Rightarrow> ttl_profile option) option"

definition set_route :: "lease_manager \<Rightarrow> string \<Rightarrow> string option \<Rightarrow> py_error + lease_manager" where
  \<comment> \<open>The relay's reconciliation with the observed route, \<open>lease.route_fingerprint = route_hash\<close>.\<close>
  "set_route m lid route = res_bind (require m lid) (\<lambda>l.
     Inr (put_lease m lid (l\<lparr>cl_route_fingerprint := route\<rparr>)))"

definition snapshot_change :: "lease_manager \<Rightarrow> snap_op \<Rightarrow> lease_manager" where
  "snapshot_change m op = m\<lparr>lm_snapshot_store := map_option (\<lambda>s. snap_step s op) (lm_snapshot_store m)\<rparr>"

definition set_profiles :: "lease_manager \<Rightarrow> (string \<Rightarrow> ttl_profile option) option \<Rightarrow> lease_manager" where
  \<comment> \<open>The resolver's lookup is a method of the telemetry store: it answers from the current profiles.\<close>
  "set_profiles m look =
     m\<lparr>lm_ttl_resolver := map_option (\<lambda>r. r\<lparr>profile_lookup := look\<rparr>) (lm_ttl_resolver m)\<rparr>"

fun apply_mgr_op :: "lease_manager \<Rightarrow> mgr_op \<Rightarrow> py_error + lease_manager" where
  "apply_mgr_op m (Op_arm lid) = arm m lid"
| "apply_mgr_op m (Op_invalidate lid) = invalidate m lid"
| "apply_mgr_op m (Op_complete lid) = complete m lid"
| "apply_mgr_op m (Op_find q fresh) =
     res_bind (find_or_create_lease m q fresh) (\<lambda>(m', lid). Inr m')"
| "apply_mgr_op m (Op_target_started lid t) = target_started m lid t"
| "apply_mgr_op m (Op_target_finished lid t) = target_finished m lid t"
| "apply_mgr_op m (Op_before now lid) = before_normal_request m now lid"
| "apply_mgr_op m (Op_after now lid out) = after_normal_request m now lid out"
| "apply_mgr_op m (Op_refresh lid) = refresh_ttl m lid"
| "apply_mgr_op m (Op_costs lid u) = update_cost_estimates m lid u"
| "apply_mgr_op m (Op_route lid r) = set_route m lid r"
| "apply_mgr_op m (Op_snapshots op) = Inr (snapshot_change m op)"
| "apply_mgr_op m (Op_profiles look) = Inr (set_profiles m look)"

definition op_fresh :: "lease_manager \<Rightarrow> mgr_op \<Rightarrow> bool" where
  "op_fresh m op = (case op of Op_find q fresh \<Rightarrow> lease_of m fresh = None | _ \<Rightarrow> True)"

lemma set_route_ok: "set_route m lid r = Inr m' \<Longrightarrow> step_ok m m'"
  by (auto simp: set_route_def lease_evolves_def wf_lease_def intro!: step_ok_put_lease0)

lemma snapshot_change_lease_of [simp]: "lease_of (snapshot_change m op) i = lease_of m i"
  by (simp add: snapshot_change_def lease_of_def)

lemma snapshot_change_runtime [simp]: "runtime_for (snapshot_change m op) i = runtime_for m i"
  by (simp add: snapshot_change_def runtime_for_def)

lemma snapshot_change_fields [simp]:
  "lm_leases (snapshot_change m op) = lm_leases m"
  "lm_by_cache_fingerprint (snapshot_change m op) = lm_by_cache_fingerprint m"
  "config_of (snapshot_change m op) = config_of m"
  by (simp_all add: snapshot_change_def config_of_def)

lemma snapshot_change_ok: "step_ok m (snapshot_change m op)"
  by (simp add: step_ok_def wf_manager_def evolves_def)

lemma set_profiles_lease_of [simp]: "lease_of (set_profiles m look) i = lease_of m i"
  by (simp add: set_profiles_def lease_of_def)

lemma set_profiles_runtime [simp]: "runtime_for (set_profiles m look) i = runtime_for m i"
  by (simp add: set_profiles_def runtime_for_def)

text \<open>\<open>moves\<close> is \<open>step_ok\<close> without the constant configuration, since the resolver reads the store.\<close>

definition moves :: "lease_manager \<Rightarrow> lease_manager \<Rightarrow> bool" where
  "moves m m' \<longleftrightarrow> (wf_manager m \<longrightarrow> wf_manager m' \<and> evolves m m')"

lemma step_ok_moves: "step_ok m m' \<Longrightarrow> moves m m'"
  by (simp add: step_ok_def moves_def)

lemma set_profiles_moves: "moves m (set_profiles m look)"
proof -
  have "lm_leases (set_profiles m look) = lm_leases m"
    "lm_by_cache_fingerprint (set_profiles m look) = lm_by_cache_fingerprint m"
    by (simp_all add: set_profiles_def)
  then show ?thesis by (simp add: moves_def wf_manager_def evolves_def)
qed

lemma apply_mgr_op_moves:
  assumes "apply_mgr_op m op = Inr m'" and "op_fresh m op" and "wf_manager m"
  shows "moves m m'"
proof (cases op)
  case (Op_profiles look)
  then show ?thesis using assms(1) set_profiles_moves [of m look] by simp
qed (use assms in \<open>auto simp: op_fresh_def intro!: step_ok_moves intro: arm_ok invalidate_ok complete_ok
      target_started_ok target_finished_ok before_normal_request_ok after_normal_request_ok refresh_ttl_ok
      update_cost_estimates_ok set_route_ok snapshot_change_ok find_or_create_ok\<close>)

text \<open>What the operations do to the runtime records.\<close>

definition calms :: "lease_runtime \<Rightarrow> lease_runtime \<Rightarrow> bool" where
  \<comment> \<open>The breaker is left alone or reset, and no operation starts a warm.\<close>
  "calms r r' \<longleftrightarrow>
     (rt_circuit_open r' = rt_circuit_open r \<and>
        rt_consecutive_warm_misses r' = rt_consecutive_warm_misses r \<or>
      \<not> rt_circuit_open r' \<and> rt_consecutive_warm_misses r' = 0) \<and>
     (rt_warm_request_active r' \<longrightarrow> rt_warm_request_active r)"

lemma calms_refl [simp]: "calms r r"
  by (simp add: calms_def)

lemma calms_trans: "calms a b \<Longrightarrow> calms b c \<Longrightarrow> calms a c"
  by (auto simp: calms_def)

lemma invalidate_calms: "invalidate m lid = Inr m' \<Longrightarrow> calms (runtime_for m i) (runtime_for m' i)"
  by (auto simp: invalidate_def Let_def calms_def split: if_splits)

lemma invalidate_loop_calms:
  "invalidate_loop q lids m = Inr m' \<Longrightarrow> calms (runtime_for m i) (runtime_for m' i)"
proof (induction lids arbitrary: m)
  case (Cons lid lids)
  then show ?case
    by (auto split: option.splits if_splits intro: calms_trans [OF invalidate_calms])
qed simp

lemma create_lease_calms:
  "create_lease m q fresh = Inr (m', lid) \<Longrightarrow> calms (runtime_for m i) (runtime_for m' i)"
  using invalidate_loop_calms
  by (fastforce simp: create_lease_def Let_def runtime_for_def put_lease_def)

lemma find_or_create_calms:
  "find_or_create_lease m q fresh = Inr (m', lid) \<Longrightarrow> calms (runtime_for m i) (runtime_for m' i)"
  by (auto simp: find_or_create_lease_def split: option.splits if_splits intro: create_lease_calms)

lemma apply_mgr_op_calms:
  assumes "apply_mgr_op m op = Inr m'"
  shows "calms (runtime_for m i) (runtime_for m' i)"
proof (cases op)
  case (Op_invalidate lid)
  then show ?thesis using assms invalidate_calms by simp
next
  case (Op_find q fresh)
  then show ?thesis using assms find_or_create_calms by auto
qed (use assms in \<open>auto simp: arm_def complete_def target_started_def target_finished_def
      before_normal_request_def after_normal_request_def refresh_ttl_def update_cost_estimates_def
      set_route_def Let_def calms_def split: option.splits if_splits\<close>)

section \<open>The interleaved scheduler\<close>

datatype task = Waiting string int | In_flight string int request_snapshot

record sched =
  sc_mgr :: lease_manager
  sc_locked :: "string set"
  sc_tasks :: "(nat, task) dict"

datatype event = Ev_evaluate nat flt string | Ev_acquire nat | Ev_finish nat flt "warm_result option"
  | Ev_op mgr_op

inductive sched_step :: "sched \<Rightarrow> event \<Rightarrow> sched \<Rightarrow> bool" where
  evaluated: "evaluate_head (sc_mgr s) now lid = (m, Done d) \<Longrightarrow>
    sched_step s (Ev_evaluate tid now lid) (s\<lparr>sc_mgr := m\<rparr>)"
| waits: "evaluate_head (sc_mgr s) now lid = (m, Want_lock g) \<Longrightarrow> tid \<notin> dkeys (sc_tasks s) \<Longrightarrow>
    sched_step s (Ev_evaluate tid now lid)
      (s\<lparr>sc_mgr := m, sc_tasks := dset (sc_tasks s) tid (Waiting lid g)\<rparr>)"
| declined: "dget (sc_tasks s) tid = Some (Waiting lid g) \<Longrightarrow>
    lease_of (sc_mgr s) lid = Some l \<Longrightarrow> cl_cache_fingerprint l \<notin> sc_locked s \<Longrightarrow>
    under_lock (sc_mgr s) lid g = (m, Inl d) \<Longrightarrow>
    sched_step s (Ev_acquire tid) (s\<lparr>sc_mgr := m, sc_tasks := dpop (sc_tasks s) tid\<rparr>)"
| begins: "dget (sc_tasks s) tid = Some (Waiting lid g) \<Longrightarrow>
    lease_of (sc_mgr s) lid = Some l \<Longrightarrow> cl_cache_fingerprint l \<notin> sc_locked s \<Longrightarrow>
    under_lock (sc_mgr s) lid g = (m, Inr snap) \<Longrightarrow>
    sched_step s (Ev_acquire tid)
      (s\<lparr>sc_mgr := m, sc_locked := insert (cl_cache_fingerprint l) (sc_locked s),
         sc_tasks := dset (sc_tasks s) tid (In_flight lid g snap)\<rparr>)"
| finishes: "dget (sc_tasks s) tid = Some (In_flight lid g snap) \<Longrightarrow>
    lease_of (sc_mgr s) lid = Some l \<Longrightarrow> finish_warm (sc_mgr s) now lid answer = (m, d) \<Longrightarrow>
    sched_step s (Ev_finish tid now answer)
      (s\<lparr>sc_mgr := m, sc_locked := sc_locked s - {cl_cache_fingerprint l},
         sc_tasks := dpop (sc_tasks s) tid\<rparr>)"
| operates: "op_fresh (sc_mgr s) op \<Longrightarrow> apply_mgr_op (sc_mgr s) op = Inr m \<Longrightarrow>
    sched_step s (Ev_op op) (s\<lparr>sc_mgr := m\<rparr>)"
| raises: "apply_mgr_op (sc_mgr s) op = Inl e \<Longrightarrow> sched_step s (Ev_op op) s"

inductive_cases sched_acquireE: "sched_step s (Ev_acquire tid) s'"
inductive_cases sched_opE: "sched_step s (Ev_op op) s'"

definition sched_start :: "sched \<Rightarrow> bool" where
  "sched_start s \<longleftrightarrow> wf_manager (sc_mgr s) \<and> lm_leases (sc_mgr s) = [] \<and> lm_runtime (sc_mgr s) = [] \<and>
     sc_locked s = {} \<and> sc_tasks s = []"

interpretation sys: transition_system sched_start sched_step .

definition flies :: "sched \<Rightarrow> nat \<Rightarrow> string \<Rightarrow> bool" where
  "flies s tid lid \<longleftrightarrow> (\<exists>g snap. dget (sc_tasks s) tid = Some (In_flight lid g snap))"

definition fp_of :: "sched \<Rightarrow> string \<Rightarrow> string option" where
  "fp_of s lid = map_option cl_cache_fingerprint (lease_of (sc_mgr s) lid)"

definition locks_inv :: "sched \<Rightarrow> bool" where
  "locks_inv s \<longleftrightarrow>
     (\<forall>tid lid. flies s tid lid \<longrightarrow> (\<exists>fp \<in> sc_locked s. fp_of s lid = Some fp)) \<and>
     (\<forall>fp \<in> sc_locked s. \<exists>tid lid. flies s tid lid \<and> fp_of s lid = Some fp) \<and>
     (\<forall>t1 l1 t2 l2. flies s t1 l1 \<longrightarrow> flies s t2 l2 \<longrightarrow> fp_of s l1 = fp_of s l2 \<longrightarrow> t1 = t2)"

definition tasks_inv :: "sched \<Rightarrow> bool" where
  "tasks_inv s \<longleftrightarrow> (\<forall>tid lid g. dget (sc_tasks s) tid = Some (Waiting lid g) \<longrightarrow>
     (\<exists>l. lease_of (sc_mgr s) lid = Some l \<and> g \<le> cl_generation l))"

definition breaker_ok :: "lease_runtime \<Rightarrow> bool" where
  "breaker_ok r \<longleftrightarrow> rt_consecutive_warm_misses r \<le> 2 \<and>
     (rt_circuit_open r \<longleftrightarrow> rt_consecutive_warm_misses r = 2)"

definition breaker_inv :: "sched \<Rightarrow> bool" where
  "breaker_inv s \<longleftrightarrow> (\<forall>lid. breaker_ok (runtime_for (sc_mgr s) lid)) \<and>
     (\<forall>tid lid. flies s tid lid \<longrightarrow> \<not> rt_circuit_open (runtime_for (sc_mgr s) lid)) \<and>
     (\<forall>lid. rt_warm_request_active (runtime_for (sc_mgr s) lid) \<longrightarrow> (\<exists>tid. flies s tid lid))"

definition sched_inv :: "sched \<Rightarrow> bool" where
  "sched_inv s \<longleftrightarrow> wf_manager (sc_mgr s) \<and> locks_inv s \<and> tasks_inv s \<and> breaker_inv s"

lemma breaker_ok_calms: "breaker_ok r \<Longrightarrow> calms r r' \<Longrightarrow> breaker_ok r'"
  by (auto simp: breaker_ok_def calms_def)

lemma calms_circuit: "calms r r' \<Longrightarrow> \<not> rt_circuit_open r \<Longrightarrow> \<not> rt_circuit_open r'"
  by (auto simp: calms_def)

lemma evolves_fp: "evolves m m' \<Longrightarrow> lease_of m lid = Some l \<Longrightarrow>
  \<exists>l'. lease_of m' lid = Some l' \<and> cl_cache_fingerprint l' = cl_cache_fingerprint l \<and>
    cl_generation l \<le> cl_generation l'"
  unfolding evolves_def lease_evolves_def by blast

text \<open>A step of the manager alone keeps every clause.\<close>

lemma manager_step_inv:
  assumes "sched_inv s" and "moves (sc_mgr s) m"
    and "\<And>i. calms (runtime_for (sc_mgr s) i) (runtime_for m i)"
  shows "sched_inv (s\<lparr>sc_mgr := m\<rparr>)"
proof -
  have wf: "wf_manager m" and ev: "evolves (sc_mgr s) m"
    using assms(1,2) by (auto simp: sched_inv_def moves_def)
  have fl: "flies (s\<lparr>sc_mgr := m\<rparr>) = flies s" by (intro ext) (simp add: flies_def)
  have fp: "fp_of (s\<lparr>sc_mgr := m\<rparr>) lid = fp_of s lid" if "fp_of s lid \<noteq> None" for lid
    using that evolves_fp [OF ev] by (auto simp: fp_of_def) blast+
  have some: "fp_of s lid \<noteq> None" if "flies s tid lid" for tid lid
    using assms(1) that unfolding sched_inv_def locks_inv_def by fastforce
  have fpf: "fp_of (s\<lparr>sc_mgr := m\<rparr>) lid = fp_of s lid" if "flies s tid lid" for tid lid
    using fp some that by blast
  have "locks_inv (s\<lparr>sc_mgr := m\<rparr>)"
    using assms(1) fpf unfolding sched_inv_def locks_inv_def fl by (simp, metis)
  moreover have "tasks_inv (s\<lparr>sc_mgr := m\<rparr>)"
    using assms(1) evolves_fp [OF ev] unfolding sched_inv_def tasks_inv_def
    by simp (meson order_trans)
  moreover have "breaker_inv (s\<lparr>sc_mgr := m\<rparr>)"
    unfolding breaker_inv_def fl
  proof (intro conjI allI impI)
    have b: "breaker_inv s" using assms(1) by (simp add: sched_inv_def)
    fix lid
    show "breaker_ok (runtime_for (sc_mgr (s\<lparr>sc_mgr := m\<rparr>)) lid)"
      using b breaker_ok_calms [OF _ assms(3)] by (simp add: breaker_inv_def)
    show "\<not> rt_circuit_open (runtime_for (sc_mgr (s\<lparr>sc_mgr := m\<rparr>)) lid)" if "flies s tid lid" for tid
      using b that calms_circuit [OF assms(3)] by (simp add: breaker_inv_def)
    show "\<exists>tid. flies s tid lid"
      if "rt_warm_request_active (runtime_for (sc_mgr (s\<lparr>sc_mgr := m\<rparr>)) lid)"
      using b that assms(3) [of lid] by (simp add: breaker_inv_def calms_def)
  qed
  ultimately show ?thesis using wf by (simp add: sched_inv_def)
qed

lemma evaluate_head_calms: "calms (runtime_for m i) (runtime_for (fst (evaluate_head m now lid)) i)"
  by (auto simp: evaluate_head_def enter_warm_def Let_def case_prod_beta calms_def split: option.splits)

lemma evaluate_head_waits:
  "evaluate_head m now lid = (m1, Want_lock g) \<Longrightarrow> \<exists>l. lease_of m1 lid = Some l \<and> g = cl_generation l"
  unfolding evaluate_head_Want_lock by auto

text \<open>Adding or dropping a task that is not in flight changes nothing else.\<close>

lemma tasks_change_inv:
  assumes "sched_inv s" and "\<And>t l. flies (s\<lparr>sc_tasks := ts\<rparr>) t l \<longleftrightarrow> flies s t l"
    and "tasks_inv (s\<lparr>sc_tasks := ts\<rparr>)"
  shows "sched_inv (s\<lparr>sc_tasks := ts\<rparr>)"
proof -
  have "flies (s\<lparr>sc_tasks := ts\<rparr>) = flies s" using assms(2) by (intro ext) simp
  moreover have "fp_of (s\<lparr>sc_tasks := ts\<rparr>) = fp_of s" by (intro ext) (simp add: fp_of_def)
  ultimately show ?thesis
    using assms(1,3) by (simp add: sched_inv_def locks_inv_def breaker_inv_def)
qed

lemma waits_inv:
  assumes "sched_inv s" and "evaluate_head (sc_mgr s) now lid = (m, Want_lock g)"
    and "tid \<notin> dkeys (sc_tasks s)"
  shows "sched_inv (s\<lparr>sc_mgr := m, sc_tasks := dset (sc_tasks s) tid (Waiting lid g)\<rparr>)"
proof -
  have m: "sched_inv (s\<lparr>sc_mgr := m\<rparr>)"
    using manager_step_inv [OF assms(1) step_ok_moves] evaluate_head_ok evaluate_head_calms assms(2)
    by (metis fst_conv)
  have none: "dget (sc_tasks s) tid = None" using assms(3) by (simp add: dget_None_iff)
  have "tasks_inv ((s\<lparr>sc_mgr := m\<rparr>)\<lparr>sc_tasks := dset (sc_tasks s) tid (Waiting lid g)\<rparr>)"
    using m evaluate_head_waits [OF assms(2)] by (auto simp: sched_inv_def tasks_inv_def)
  moreover have "flies ((s\<lparr>sc_mgr := m\<rparr>)\<lparr>sc_tasks := dset (sc_tasks s) tid (Waiting lid g)\<rparr>) t l \<longleftrightarrow>
      flies (s\<lparr>sc_mgr := m\<rparr>) t l" for t l
    using none by (auto simp: flies_def)
  ultimately show ?thesis
    using tasks_change_inv [OF m, of "dset (sc_tasks s) tid (Waiting lid g)"] by simp
qed

lemma declined_inv:
  assumes "sched_inv s" and "dget (sc_tasks s) tid = Some (Waiting lid g)"
  shows "sched_inv (s\<lparr>sc_tasks := dpop (sc_tasks s) tid\<rparr>)"
proof (rule tasks_change_inv [OF assms(1)])
  show "flies (s\<lparr>sc_tasks := dpop (sc_tasks s) tid\<rparr>) t l \<longleftrightarrow> flies s t l" for t l
    using assms(2) by (auto simp: flies_def)
  show "tasks_inv (s\<lparr>sc_tasks := dpop (sc_tasks s) tid\<rparr>)"
    using assms(1) by (auto simp: sched_inv_def tasks_inv_def)
qed

lemma under_lock_begins:
  assumes "under_lock m lid g = (m', Inr snap)"
  shows "(\<exists>l. lease_of m lid = Some l \<and> cl_generation l = g \<and> cl_active_targets l \<noteq> {} \<and>
      m' = put_lease (put_runtime m lid ((runtime_for m lid)\<lparr>rt_warm_request_active := True\<rparr>)) lid
             (l\<lparr>cl_state := WARMING\<rparr>)) \<and>
    \<not> rt_circuit_open (runtime_for m lid) \<and> \<not> rt_real_request_active (runtime_for m lid)"
  using assms by (auto simp: under_lock_def Let_def split: option.splits if_splits)

lemma begins_inv:
  assumes inv: "sched_inv s" and t: "dget (sc_tasks s) tid = Some (Waiting lid g)"
    and l: "lease_of (sc_mgr s) lid = Some l" and free: "cl_cache_fingerprint l \<notin> sc_locked s"
    and u: "under_lock (sc_mgr s) lid g = (m, Inr snap)"
  shows "sched_inv (s\<lparr>sc_mgr := m, sc_locked := insert (cl_cache_fingerprint l) (sc_locked s),
     sc_tasks := dset (sc_tasks s) tid (In_flight lid g snap)\<rparr>)" (is "sched_inv ?s'")
proof -
  have m: "m = put_lease (put_runtime (sc_mgr s) lid
        ((runtime_for (sc_mgr s) lid)\<lparr>rt_warm_request_active := True\<rparr>)) lid (l\<lparr>cl_state := WARMING\<rparr>)"
    and c: "\<not> rt_circuit_open (runtime_for (sc_mgr s) lid)"
    using under_lock_begins [OF u] l by auto
  have fl: "flies ?s' t k \<longleftrightarrow> (if t = tid then k = lid else flies s t k)" for t k
    by (auto simp: flies_def)
  have notfl: "\<not> flies s tid k" for k using t by (auto simp: flies_def)
  have fp: "fp_of ?s' k = fp_of s k" for k using l by (simp add: fp_of_def m)
  have fpl: "fp_of s lid = Some (cl_cache_fingerprint l)" using l by (simp add: fp_of_def)
  have li: "locks_inv s" and ti: "tasks_inv s" and bi: "breaker_inv s" and wf: "wf_manager (sc_mgr s)"
    using inv by (simp_all add: sched_inv_def)
  have other: "fp_of s k \<noteq> Some (cl_cache_fingerprint l)" if "flies s t k" for t k
    using li that free unfolding locks_inv_def by fastforce
  have "wf_manager m"
    using under_lock_ok [of "sc_mgr s" lid g] wf u by (simp add: step_ok_def)
  moreover have "locks_inv ?s'"
    unfolding locks_inv_def fl fp
  proof (intro conjI allI ballI impI)
    fix t k assume "if t = tid then k = lid else flies s t k"
    then show "\<exists>fp \<in> sc_locked ?s'. fp_of s k = Some fp"
      using li fpl unfolding locks_inv_def by (auto split: if_splits)
  next
    fix fp assume "fp \<in> sc_locked ?s'"
    then consider "fp = cl_cache_fingerprint l" | "fp \<in> sc_locked s" by auto
    then show "\<exists>t k. (if t = tid then k = lid else flies s t k) \<and> fp_of s k = Some fp"
    proof cases
      case 1
      then show ?thesis using fpl by auto
    next
      case 2
      then obtain t k where "flies s t k" "fp_of s k = Some fp"
        using li unfolding locks_inv_def by blast
      then show ?thesis using notfl by (intro exI [of _ t] exI [of _ k]) auto
    qed
  next
    fix t1 l1 t2 l2
    assume "if t1 = tid then l1 = lid else flies s t1 l1" "if t2 = tid then l2 = lid else flies s t2 l2"
      "fp_of s l1 = fp_of s l2"
    note a = this
    have u: "flies s t1 l1 \<Longrightarrow> flies s t2 l2 \<Longrightarrow> t1 = t2"
      using li a(3) unfolding locks_inv_def by blast
    have d1: "t1 \<noteq> tid \<Longrightarrow> flies s t1 l1 \<and> fp_of s l1 \<noteq> Some (cl_cache_fingerprint l)"
      and d2: "t2 \<noteq> tid \<Longrightarrow> flies s t2 l2 \<and> fp_of s l2 \<noteq> Some (cl_cache_fingerprint l)"
      using a(1,2) other by auto
    have e1: "t1 = tid \<Longrightarrow> fp_of s l1 = Some (cl_cache_fingerprint l)"
      and e2: "t2 = tid \<Longrightarrow> fp_of s l2 = Some (cl_cache_fingerprint l)"
      using a(1,2) fpl by auto
    show "t1 = t2" using d1 d2 e1 e2 u a(3) by metis
  qed
  moreover have "tasks_inv ?s'"
    unfolding tasks_inv_def
  proof (intro allI impI)
    fix t k h assume "dget (sc_tasks ?s') t = Some (Waiting k h)"
    then have "dget (sc_tasks s) t = Some (Waiting k h)" by (simp split: if_splits)
    then obtain x where "lease_of (sc_mgr s) k = Some x" "h \<le> cl_generation x"
      using ti unfolding tasks_inv_def by blast
    then show "\<exists>x. lease_of (sc_mgr ?s') k = Some x \<and> h \<le> cl_generation x"
      using l by (cases "k = lid") (simp_all add: m)
  qed
  moreover have "breaker_inv ?s'"
  proof -
    have r: "runtime_for (sc_mgr ?s') k = (if k = lid
        then (runtime_for (sc_mgr s) lid)\<lparr>rt_warm_request_active := True\<rparr> else runtime_for (sc_mgr s) k)" for k
      by (simp add: m)
    show ?thesis
      unfolding breaker_inv_def fl
    proof (intro conjI allI impI)
      fix k show "breaker_ok (runtime_for (sc_mgr ?s') k)"
        using bi unfolding r breaker_inv_def by (simp add: breaker_ok_def)
    next
      fix t k assume "if t = tid then k = lid else flies s t k"
      then have "\<not> rt_circuit_open (runtime_for (sc_mgr s) k)"
        using bi c unfolding breaker_inv_def by (metis (full_types))
      then show "\<not> rt_circuit_open (runtime_for (sc_mgr ?s') k)" unfolding r by auto
    next
      fix k assume "rt_warm_request_active (runtime_for (sc_mgr ?s') k)"
      then have "k = lid \<or> rt_warm_request_active (runtime_for (sc_mgr s) k)"
        unfolding r by (simp split: if_splits)
      then show "\<exists>t. if t = tid then k = lid else flies s t k"
        using bi notfl unfolding breaker_inv_def by metis
    qed
  qed
  ultimately show ?thesis by (simp add: sched_inv_def)
qed

lemma finish_warm_breaker:
  assumes "lease_of m lid = Some l" and "finish_warm m now lid answer = (m', d)"
    and "breaker_ok (runtime_for m lid)" and "\<not> rt_circuit_open (runtime_for m lid)"
  shows "breaker_ok (runtime_for m' lid) \<and> \<not> rt_warm_request_active (runtime_for m' lid) \<and>
    (\<forall>i. i \<noteq> lid \<longrightarrow> runtime_for m' i = runtime_for m i)"
proof -
  obtain l' r' d' where a: "apply_warm_result now (lease_arm l)
      ((runtime_for m lid)\<lparr>rt_warm_request_active := False\<rparr>) (opt_or answer failed_warm) = (l', r', d')"
    by (metis prod_cases3)
  have m': "m' = put_lease (put_runtime m lid r') lid l'"
    using finish_warm_eq [OF assms(1) a] assms(2) by simp
  have le: "rt_consecutive_warm_misses (runtime_for m lid) \<le> 1"
    using assms(3,4) unfolding breaker_ok_def by linarith
  have "breaker_ok r'"
    using apply_warm_result_breaker [OF a] le assms(4) by (auto simp: breaker_ok_def unconfirmed_def)
  then show ?thesis
    using apply_warm_result_fields(10) [OF a] by (simp add: m')
qed

lemma finishes_inv:
  assumes inv: "sched_inv s" and t: "dget (sc_tasks s) tid = Some (In_flight lid g snap)"
    and l: "lease_of (sc_mgr s) lid = Some l"
    and f: "finish_warm (sc_mgr s) now lid answer = (m, d)"
  shows "sched_inv (s\<lparr>sc_mgr := m, sc_locked := sc_locked s - {cl_cache_fingerprint l},
     sc_tasks := dpop (sc_tasks s) tid\<rparr>)" (is "sched_inv ?s'")
proof -
  have li: "locks_inv s" and ti: "tasks_inv s" and bi: "breaker_inv s" and wf: "wf_manager (sc_mgr s)"
    using inv by (simp_all add: sched_inv_def)
  have me: "flies s tid lid" using t by (auto simp: flies_def)
  have fl: "flies ?s' u k \<longleftrightarrow> u \<noteq> tid \<and> flies s u k" for u k by (auto simp: flies_def)
  have ok: "step_ok (sc_mgr s) m" using finish_warm_ok [of "sc_mgr s" now lid answer] f by simp
  then have ev: "evolves (sc_mgr s) m" and wf': "wf_manager m" using wf by (simp_all add: step_ok_def)
  have b: "breaker_ok (runtime_for m lid)" "\<not> rt_warm_request_active (runtime_for m lid)"
    "\<And>i. i \<noteq> lid \<Longrightarrow> runtime_for m i = runtime_for (sc_mgr s) i"
    using finish_warm_breaker [OF l f] bi me unfolding breaker_inv_def by blast+
  have fpl: "fp_of s lid = Some (cl_cache_fingerprint l)" using l by (simp add: fp_of_def)
  have fp: "fp_of ?s' k = fp_of s k" if "fp_of s k \<noteq> None" for k
    using that evolves_fp [OF ev] by (auto simp: fp_of_def) blast+
  have fpf: "fp_of ?s' k = fp_of s k" if "flies s u k" for u k
    using fp li that unfolding locks_inv_def by (metis option.distinct(1))
  have uniq: "u = tid" if "flies s u k" "fp_of s k = fp_of s lid" for u k
    using li that me unfolding locks_inv_def by blast
  have "locks_inv ?s'"
    unfolding locks_inv_def fl
  proof (intro conjI allI ballI impI)
    fix u k assume a: "u \<noteq> tid \<and> flies s u k"
    then obtain x where x: "x \<in> sc_locked s" "fp_of s k = Some x"
      using li unfolding locks_inv_def by blast
    have "x \<noteq> cl_cache_fingerprint l" using uniq [of u k] a x fpl by auto
    then show "\<exists>x \<in> sc_locked ?s'. fp_of ?s' k = Some x" using x a fpf by auto
  next
    fix x assume "x \<in> sc_locked ?s'"
    then have x: "x \<in> sc_locked s" "x \<noteq> cl_cache_fingerprint l" by auto
    then obtain u k where u: "flies s u k" "fp_of s k = Some x" using li unfolding locks_inv_def by blast
    have "u \<noteq> tid" using u t x fpl by (auto simp: flies_def)
    moreover have "fp_of ?s' k = Some x" using fpf [OF u(1)] u(2) by simp
    ultimately show "\<exists>u k. (u \<noteq> tid \<and> flies s u k) \<and> fp_of ?s' k = Some x" using u(1) by blast
  next
    fix t1 l1 t2 l2
    assume "t1 \<noteq> tid \<and> flies s t1 l1" "t2 \<noteq> tid \<and> flies s t2 l2" "fp_of ?s' l1 = fp_of ?s' l2"
    then show "t1 = t2" using li fpf unfolding locks_inv_def by metis
  qed
  moreover have "tasks_inv ?s'"
    unfolding tasks_inv_def
  proof (intro allI impI)
    fix u k h assume "dget (sc_tasks ?s') u = Some (Waiting k h)"
    then have "dget (sc_tasks s) u = Some (Waiting k h)" by (simp split: if_splits)
    then obtain x where "lease_of (sc_mgr s) k = Some x" "h \<le> cl_generation x"
      using ti unfolding tasks_inv_def by blast
    then show "\<exists>x. lease_of (sc_mgr ?s') k = Some x \<and> h \<le> cl_generation x"
      using evolves_fp [OF ev, of k x] by auto
  qed
  moreover have "breaker_inv ?s'"
    unfolding breaker_inv_def fl
  proof (intro conjI allI impI)
    fix k show "breaker_ok (runtime_for (sc_mgr ?s') k)"
      using b bi by (cases "k = lid") (simp_all add: breaker_inv_def)
  next
    fix u k assume a: "u \<noteq> tid \<and> flies s u k"
    then have "k \<noteq> lid" using uniq [of u k] by auto
    moreover have "\<not> rt_circuit_open (runtime_for (sc_mgr s) k)"
      using a bi unfolding breaker_inv_def by blast
    ultimately show "\<not> rt_circuit_open (runtime_for (sc_mgr ?s') k)" using b(3) by simp
  next
    fix k assume a: "rt_warm_request_active (runtime_for (sc_mgr ?s') k)"
    then have k: "k \<noteq> lid" using b(2) by auto
    then obtain u where "flies s u k" using a b(3) bi by (auto simp: breaker_inv_def)
    moreover have "u \<noteq> tid" using calculation t k by (auto simp: flies_def)
    ultimately show "\<exists>u. u \<noteq> tid \<and> flies s u k" by blast
  qed
  ultimately show ?thesis using wf' by (simp add: sched_inv_def)
qed

lemma sched_step_inv: "sched_step s e s' \<Longrightarrow> sched_inv s \<Longrightarrow> sched_inv s'"
proof (induction rule: sched_step.induct)
  case (evaluated s now lid m d tid)
  then show ?case
    using manager_step_inv [OF evaluated.prems step_ok_moves] evaluate_head_ok evaluate_head_calms
    by (metis fst_conv)
next
  case (waits s now lid m g tid)
  then show ?case using waits_inv by simp
next
  case (declined s tid lid g l m d)
  then have "m = sc_mgr s" using under_lock_Inl by blast
  then show ?case using declined_inv [OF declined.prems declined.hyps(1)] by simp
next
  case (begins s tid lid g l m snap)
  then show ?case using begins_inv by simp
next
  case (finishes s tid lid g snap l now answer m d)
  then show ?case using finishes_inv by simp
next
  case (operates s op m)
  then show ?case
    using manager_step_inv [OF operates.prems] apply_mgr_op_moves apply_mgr_op_calms
    by (simp add: sched_inv_def)
qed simp

lemma finish_ok: "finish_warm m now lid answer = (m', d) \<Longrightarrow> step_ok m m'"
  using finish_warm_ok [of m now lid answer] by simp

lemma sched_step_moves: "sched_step s e s' \<Longrightarrow> sched_inv s \<Longrightarrow> moves (sc_mgr s) (sc_mgr s')"
proof (induction rule: sched_step.induct)
  case (evaluated s now lid m d tid)
  then show ?case using step_ok_moves [OF evaluate_head_ok [of "sc_mgr s" now lid]] by simp
next
  case (waits s now lid m g tid)
  then show ?case using step_ok_moves [OF evaluate_head_ok [of "sc_mgr s" now lid]] by simp
next
  case (declined s tid lid g l m d)
  then show ?case using step_ok_moves [OF under_lock_ok [of "sc_mgr s" lid g]] by simp
next
  case (begins s tid lid g l m snap)
  then show ?case using step_ok_moves [OF under_lock_ok [of "sc_mgr s" lid g]] by simp
next
  case (finishes s tid lid g snap l now answer m d)
  then show ?case using step_ok_moves [OF finish_ok [OF finishes.hyps(3)]] by simp
next
  case (operates s op m)
  then show ?case using apply_mgr_op_moves by (simp add: sched_inv_def)
qed (simp add: moves_def)

lemma sched_start_inv: "sched_start s \<Longrightarrow> sched_inv s"
  by (simp add: sched_start_def sched_inv_def locks_inv_def tasks_inv_def breaker_inv_def flies_def
      breaker_ok_def runtime_for_def initial_runtime_def)

lemma reachable_inv: "sys.reachable s \<Longrightarrow> sched_inv s"
  by (rule sys.invariant) (auto intro: sched_start_inv sched_step_inv)

section \<open>A run that warms\<close>

definition idle_manager :: lease_manager where
  "idle_manager = due_manager\<lparr>lm_snapshot_store := Some [], lm_leases := [],
     lm_by_cache_fingerprint := []\<rparr>"

definition armed_manager :: lease_manager where
  "armed_manager = due_manager\<lparr>lm_runtime := [(''L1'', initial_runtime)]\<rparr>"

definition sched_of :: "lease_manager \<Rightarrow> sched" where
  "sched_of m = \<lparr>sc_mgr = m, sc_locked = {}, sc_tasks = []\<rparr>"

fun run_ops :: "lease_manager \<Rightarrow> mgr_op list \<Rightarrow> py_error + lease_manager" where
  "run_ops m [] = Inr m"
| "run_ops m (op # ops) = res_bind (apply_mgr_op m op) (\<lambda>m. run_ops m ops)"

fun ops_fresh :: "lease_manager \<Rightarrow> mgr_op list \<Rightarrow> bool" where
  "ops_fresh m [] = True"
| "ops_fresh m (op # ops) =
     (op_fresh m op \<and> (case apply_mgr_op m op of Inl e \<Rightarrow> False | Inr m' \<Rightarrow> ops_fresh m' ops))"

lemma reachable_run_ops:
  "sys.reachable (sched_of m) \<Longrightarrow> ops_fresh m ops \<Longrightarrow> run_ops m ops = Inr m' \<Longrightarrow>
   sys.reachable (sched_of m')"
proof (induction ops arbitrary: m)
  case (Cons op ops)
  then obtain m1 where m1: "apply_mgr_op m op = Inr m1" "op_fresh m op" "ops_fresh m1 ops"
    "run_ops m1 ops = Inr m'" by (auto split: sum.splits)
  have "sched_step (sched_of m) (Ev_op op) (sched_of m1)"
    using sched_step.operates [of "sched_of m" op m1] m1 by (simp add: sched_of_def)
  then show ?case using Cons.IH m1 sys.reachable_step Cons.prems(1) by blast
qed simp

definition open_ops :: "mgr_op list" where
  "open_ops = [Op_find (sample_request ''s'' ''fp'') ''L1'', Op_snapshots (OpStore sample_snapshot),
     Op_target_started ''L1'' ''bg-1'', Op_after 0 ''L1'' SUCCESS_UNVERIFIED]"

lemmas run_eval = open_ops_def idle_manager_def armed_manager_def due_manager_def due_lease_def
  open_eval op_fresh_def snapshot_change_def snap_store_def snap_init_def sample_snapshot_def
  target_started_def after_normal_request_def lease_arm_def initial_runtime_def
  default_settings_def Let_def

lemma open_ops_run: "run_ops idle_manager open_ops = Inr armed_manager" "ops_fresh idle_manager open_ops"
  by (simp_all add: run_eval)

lemma armed_reachable: "sys.reachable (sched_of armed_manager)"
proof (rule reachable_run_ops [OF _ open_ops_run(2,1)])
  have "sched_start (sched_of idle_manager)"
    by (simp add: sched_start_def sched_of_def wf_manager_def idle_manager_def due_manager_def
        sample_manager_def mk_manager_def lease_of_def)
  then show "sys.reachable (sched_of idle_manager)" by (rule sys.reachable_start)
qed

lemma armed_facts:
  "lease_of armed_manager lid = lease_of due_manager lid"
  "runtime_for armed_manager ''L1'' = initial_runtime"
  "next_deadline armed_manager l = next_deadline due_manager l"
  "lm_settings armed_manager = lm_settings due_manager"
  "lm_has_executor armed_manager" "lm_snapshot_store armed_manager = Some [(''fp'', sample_snapshot)]"
  using due_manager_facts(8,9)
  by (simp_all add: armed_manager_def lease_of_def runtime_for_def next_deadline_def
      network_margin_def jitter_for_def split: option.split)

lemma sample_warm_run:
  obtains s s' where "sys.reachable s" "sched_step s (Ev_acquire 0) s'" "flies s' 0 ''L1''"
    "lease_of (sc_mgr s') ''L1'' \<noteq> None" "sys.reachable s'"
proof -
  obtain due where d: "next_deadline due_manager due_lease = Some due" "due \<le> 1000"
    using due_by_1000 by blast
  obtain m1 where m1: "evaluate_head armed_manager 1000 ''L1'' = (m1, Want_lock (cl_generation due_lease))"
    unfolding evaluate_head_Want_lock
    using d by (simp add: armed_facts due_manager_facts initial_runtime_def economic_gate_snd)
  then have m1': "m1 = put_runtime (put_lease armed_manager ''L1'' (fst (economic_gate armed_manager due_lease)))
      ''L1'' initial_runtime"
    unfolding evaluate_head_Want_lock
    by (auto simp: armed_facts due_manager_facts initial_runtime_def)
  define s where "s = (sched_of armed_manager)\<lparr>sc_mgr := m1, sc_tasks :=
     dset [] 0 (Waiting ''L1'' (cl_generation due_lease))\<rparr>"
  have "sched_step (sched_of armed_manager) (Ev_evaluate 0 1000 ''L1'') s"
    using sched_step.waits [of "sched_of armed_manager" 1000 "''L1''" m1 "cl_generation due_lease" 0] m1
    by (simp add: s_def sched_of_def)
  then have r: "sys.reachable s" using armed_reachable sys.reachable_step by blast
  have "\<exists>m2. under_lock m1 ''L1'' (cl_generation due_lease) = (m2, Inr sample_snapshot)"
    unfolding under_lock_Inr
    by (simp add: m1' armed_facts due_manager_facts initial_runtime_def snap_get_def)
  then obtain m2 where m2: "under_lock m1 ''L1'' (cl_generation due_lease) = (m2, Inr sample_snapshot)" ..
  define s' where "s' = s\<lparr>sc_mgr := m2, sc_locked := {''fp''},
     sc_tasks := [(0, In_flight ''L1'' (cl_generation due_lease) sample_snapshot)]\<rparr>"
  have st: "sched_step s (Ev_acquire 0) s'"
    using sched_step.begins [of s 0 "''L1''" "cl_generation due_lease"
        "fst (economic_gate armed_manager due_lease)" m2 sample_snapshot] m2
    by (simp add: s_def s'_def sched_of_def m1' due_manager_facts)
  have l: "lease_of (sc_mgr s') ''L1'' \<noteq> None"
    using under_lock_begins [OF m2] by (auto simp: s'_def)
  show ?thesis
    using that [OF r st _ l] sys.reachable_step [OF r st] by (simp add: s'_def flies_def)
qed

section \<open>Properties under interleaving\<close>

text \<open>C1: At most one warm per cache identity. However evaluations, warms, requests and target
  changes interleave, a cache identity is locked exactly while one warm of it is in flight, and
  there is never a second.\<close>

theorem one_warm_per_identity:
  assumes "sys.reachable s"
  shows "(\<forall>fp. fp \<in> sc_locked s \<longleftrightarrow> (\<exists>tid lid. flies s tid lid \<and> fp_of s lid = Some fp)) \<and>
    (\<forall>t1 l1 t2 l2. flies s t1 l1 \<and> flies s t2 l2 \<and> fp_of s l1 = fp_of s l2 \<longrightarrow> t1 = t2)"
proof -
  have "locks_inv s" using reachable_inv [OF assms] by (simp add: sched_inv_def)
  then show ?thesis unfolding locks_inv_def by (metis option.inject)
qed

theorem one_warm_per_identity_witness: "\<exists>s fp. sys.reachable s \<and> fp \<in> sc_locked s"
proof -
  obtain s s' where s: "flies s' 0 ''L1''" "lease_of (sc_mgr s') ''L1'' \<noteq> None" "sys.reachable s'"
    using sample_warm_run by blast
  then obtain fp where "fp_of s' ''L1'' = Some fp" by (auto simp: fp_of_def)
  with one_warm_per_identity [OF s(3)] s show ?thesis by blast
qed

text \<open>C14: The circuit breaker bounds unverified warms. In every reachable state each lease has at
  most two consecutive misses, its breaker is open exactly at two, no warm of a lease with an open
  breaker is in flight, and a lease marked as warming has a warm in flight.\<close>

theorem breaker_bounds_misses:
  assumes "sys.reachable s"
  shows "rt_consecutive_warm_misses (runtime_for (sc_mgr s) lid) \<le> 2 \<and>
    (rt_circuit_open (runtime_for (sc_mgr s) lid) \<longleftrightarrow>
       rt_consecutive_warm_misses (runtime_for (sc_mgr s) lid) = 2) \<and>
    (rt_circuit_open (runtime_for (sc_mgr s) lid) \<longrightarrow> (\<forall>tid. \<not> flies s tid lid)) \<and>
    (is_warming (sc_mgr s) lid \<longrightarrow> (\<exists>tid. flies s tid lid))"
  using reachable_inv [OF assms]
  by (simp add: sched_inv_def breaker_inv_def breaker_ok_def is_warming_def) blast

theorem breaker_bounds_misses_witness:
  "\<exists>s. sys.reachable s \<and> flies s 0 ''L1'' \<and> \<not> rt_circuit_open (runtime_for (sc_mgr s) ''L1'')"
proof -
  obtain s s' where s: "flies s' 0 ''L1''" "sys.reachable s'" using sample_warm_run by blast
  with breaker_bounds_misses [OF s(2), of "''L1''"] show ?thesis by blast
qed



text \<open>Monotone identity. Along every run no lease disappears or changes its session, provider or
  cache identity, and its generation and warm count never decrease.\<close>

theorem runs_evolve:
  assumes "sys.reachable s" and "sys.run s es s'" and "lease_of (sc_mgr s) lid = Some l"
  shows "\<exists>l'. lease_of (sc_mgr s') lid = Some l' \<and> cl_session_id l' = cl_session_id l \<and>
    cl_provider l' = cl_provider l \<and> cl_cache_fingerprint l' = cl_cache_fingerprint l \<and>
    cl_generation l \<le> cl_generation l' \<and> cl_warm_count l \<le> cl_warm_count l'"
proof -
  have st: "sched_inv b \<and> evolves (sc_mgr a) (sc_mgr b)" if "sched_inv a" "sched_step a e b" for a e b
    using sched_step_moves [OF that(2,1)] sched_step_inv [OF that(2,1)] that(1)
    by (simp add: moves_def sched_inv_def)
  have "evolves (sc_mgr s) (sc_mgr s')"
    by (rule sys.run_related [where R = "\<lambda>a b. evolves (sc_mgr a) (sc_mgr b)" and I = sched_inv,
          OF assms(2) reachable_inv [OF assms(1)]])
      (use st evolves_trans in auto)
  then show ?thesis using assms(3) unfolding evolves_def lease_evolves_def by blast
qed

theorem runs_evolve_witness:
  "\<exists>s l l'. sys.reachable s \<and> lease_of (sc_mgr s) ''L1'' = Some l \<and>
     lease_of (sc_mgr s) ''L1'' = Some l' \<and> cl_warm_count l \<le> cl_warm_count l'"
proof -
  obtain s s' where s: "lease_of (sc_mgr s') ''L1'' \<noteq> None" "sys.reachable s'"
    using sample_warm_run by blast
  then obtain l where l: "lease_of (sc_mgr s') ''L1'' = Some l" by blast
  from runs_evolve [OF s(2) sys.run_nil l] l s show ?thesis by blast
qed

section \<open>What the code does not guarantee\<close>

text \<open>
  The \<open>finally\<close> block arms the lease whatever happened during the warm, so a lease whose last
  target finished while the warm was in flight ends up armed with no target.
\<close>

lemma finish_arms_without_targets:
  assumes "lease_of m lid = Some l" and "cl_active_targets l = {}" and "cl_state l = INACTIVE"
  shows "\<exists>m' d l'. finish_warm m now lid answer = (m', d) \<and> lease_of m' lid = Some l' \<and>
    cl_active_targets l' = {} \<and> cl_state l' = ARMED"
proof -
  obtain l' r' d where a: "apply_warm_result now (lease_arm l)
      ((runtime_for m lid)\<lparr>rt_warm_request_active := False\<rparr>) (opt_or answer failed_warm) = (l', r', d)"
    by (metis prod_cases3)
  show ?thesis
    unfolding finish_warm_eq [OF assms(1) a] using apply_warm_result_fields [OF a] assms by simp
qed

text \<open>
  The real-request flag is one bit, not a count: when two natural requests of a lease overlap, the
  end of the first clears the flag while the second is still in flight.
\<close>

lemma overlapping_requests_lose_the_flag:
  assumes "lease_of m lid = Some l"
  shows "\<exists>m1 m2 m3. before_normal_request m t1 lid = Inr m1 \<and> before_normal_request m1 t2 lid = Inr m2 \<and>
    after_normal_request m2 t3 lid out = Inr m3 \<and> \<not> rt_real_request_active (runtime_for m3 lid)"
  using assms by (simp add: before_normal_request_def after_normal_request_def Let_def)

text \<open>
  Completing the targets of an invalidated lease makes it inactive, and the next target arms it:
  an invalidated lease can be armed again.
\<close>

lemma invalidated_lease_rearmed:
  assumes "lease_of m lid = Some l" and "cl_state l = INVALIDATED" and "t \<noteq> []"
    and "cl_active_targets l = {t}"
  shows "\<exists>m1 m2. target_finished m lid t = Inr m1 \<and> target_started m1 lid t = Inr m2 \<and>
    map_option cl_state (lease_of m2 lid) = Some ARMED"
  using assms by (simp add: target_finished_def target_started_def lease_disarm_def lease_arm_def)

end
