(* ===== verification/RouteIntel.thy ===== *)
theory RouteIntel
  imports Identity Ttl
begin

text \<open>
  Route intelligence, \<open>cachepilot_core/route_intel.py\<close>: the observable route identity with its
  hash and its text form, the router-miss classifier and the persisted route-change event. The
  lemmas say exactly which misses are blamed on the route and that the text form loses nothing.
\<close>

record route_identity =
  ri_gateway :: "string option"
  ri_upstream_provider :: "string option"
  ri_endpoint :: "string option"
  ri_region :: "string option"
  ri_deployment :: "string option"

definition route_dump :: "route_identity \<Rightarrow> (string \<times> json) list" where
  "route_dump r = [(''gateway'', opt_json (ri_gateway r)),
     (''upstream_provider'', opt_json (ri_upstream_provider r)),
     (''endpoint'', opt_json (ri_endpoint r)), (''region'', opt_json (ri_region r)),
     (''deployment'', opt_json (ri_deployment r))]"

definition route_to_str :: "route_identity \<Rightarrow> string" where
  \<comment> \<open>No field is a float, so the float printer is never called.\<close>
  "route_to_str r = canonical_json (\<lambda>_. []) (JObj (route_dump r))"

definition observable :: "string option \<Rightarrow> bool" where
  "observable f = (case f of None \<Rightarrow> False | Some s \<Rightarrow> s \<noteq> [])"

definition route_hash :: "route_identity \<Rightarrow> string option" where
  "route_hash r =
     (if \<not> list_ex observable [ri_gateway r, ri_upstream_provider r, ri_endpoint r, ri_region r,
           ri_deployment r]
      then None else Some (sha256_hex (route_to_str r)))"

datatype route_miss_verdict = ROUTE_INSTABILITY | SHORT_TTL | CLEAN

fun verdict_value :: "route_miss_verdict \<Rightarrow> string" where
  "verdict_value ROUTE_INSTABILITY = ''route_instability''"
| "verdict_value SHORT_TTL = ''short_ttl''"
| "verdict_value CLEAN = ''clean''"

record route_change_event =
  re_timestamp :: timestamp
  re_session_hash :: "string option"
  re_cache_fingerprint :: string
  re_request_fingerprint :: "string option"
  re_previous_route_hash :: "string option"
  re_new_route_hash :: "string option"
  re_identity :: route_identity
  re_verdict :: route_miss_verdict

definition classify_miss ::
  "outcome option \<Rightarrow> string option \<Rightarrow> outcome \<Rightarrow> string option \<Rightarrow> bool \<Rightarrow> route_miss_verdict" where
  "classify_miss prev_outcome prev_route cur_outcome cur_route identity_stable =
     (if prev_route \<noteq> cur_route then
        (if prev_route \<noteq> None \<and> cur_route \<noteq> None \<and> identity_stable \<and>
            prev_outcome = Some CONFIRMED_HIT \<and> cur_outcome = MISS_REBUILT
         then ROUTE_INSTABILITY else CLEAN)
      else if identity_stable \<and> prev_outcome = Some CONFIRMED_HIT \<and> cur_outcome = MISS_REBUILT
      then SHORT_TTL else CLEAN)"

record route_intel_stats =
  rs_route_switches :: nat
  rs_instability_verdicts :: nat
  rs_short_ttl_verdicts :: nat
  rs_last_switch_at :: "timestamp option"

section \<open>The text form\<close>

lemma canonical_route:
  "route_to_str r =
     ''{'' @ json_string ''deployment'' @ '':'' @ canonical_json (\<lambda>_. []) (opt_json (ri_deployment r)) @ '','' @
     json_string ''endpoint'' @ '':'' @ canonical_json (\<lambda>_. []) (opt_json (ri_endpoint r)) @ '','' @
     json_string ''gateway'' @ '':'' @ canonical_json (\<lambda>_. []) (opt_json (ri_gateway r)) @ '','' @
     json_string ''region'' @ '':'' @ canonical_json (\<lambda>_. []) (opt_json (ri_region r)) @ '','' @
     json_string ''upstream_provider'' @ '':'' @
       canonical_json (\<lambda>_. []) (opt_json (ri_upstream_provider r)) @ ''}''"
  by (simp add: route_to_str_def route_dump_def sort_keys_def)

lemma opt_json_close_inject:
  "canonical_json frepr (opt_json a) @ CHR ''}'' # x = canonical_json frepr (opt_json b) @ CHR ''}'' # y
     \<longleftrightarrow> a = b \<and> x = y"
  using json_string_inject by (auto simp: opt_json_def json_string_def split: option.splits)

lemma route_to_str_inject: "route_to_str r = route_to_str s \<longleftrightarrow> r = s"
proof
  assume "route_to_str r = route_to_str s"
  then have "ri_deployment r = ri_deployment s \<and> ri_endpoint r = ri_endpoint s \<and>
      ri_gateway r = ri_gateway s \<and> ri_region r = ri_region s \<and>
      ri_upstream_provider r = ri_upstream_provider s"
    unfolding canonical_route
    using opt_json_close_inject [of _ "ri_upstream_provider r" "[]" "ri_upstream_provider s" "[]"]
    by (simp add: opt_json_inject)
  then show "r = s" by simp
qed simp

text \<open>The classifier blames exactly the right misses, and the route's text form is lossless. A
  miss is route instability exactly when a stable logical request that had a confirmed hit on one
  observed route misses on another observed one; it is short time to live exactly when the route did
  not change; every other pair is clean. Two route identities have the same text form only if they
  are the same, so the same hash only if they are the same or their text forms collide.\<close>

theorem classifier_exact:
  "(classify_miss po pr co cr same = ROUTE_INSTABILITY \<longleftrightarrow>
      (\<exists>a b. pr = Some a \<and> cr = Some b \<and> a \<noteq> b) \<and> same \<and> po = Some CONFIRMED_HIT \<and> co = MISS_REBUILT) \<and>
   (classify_miss po pr co cr same = SHORT_TTL \<longleftrightarrow>
      pr = cr \<and> same \<and> po = Some CONFIRMED_HIT \<and> co = MISS_REBUILT) \<and>
   (route_to_str r = route_to_str s \<longleftrightarrow> r = s) \<and>
   (route_hash r = None \<longleftrightarrow>
      filter observable [ri_gateway r, ri_upstream_provider r, ri_endpoint r, ri_region r, ri_deployment r] = [])"
  unfolding route_to_str_inject by (auto simp: classify_miss_def route_hash_def)

end
