(* ===== verification/Storage.thy ===== *)
theory Storage
  imports TtlLearner RouteIntel Leases
begin

text \<open>
  The telemetry store, \<open>cachepilot_core/storage.py\<close>, as a connected database: each table is its
  rows in insertion order with the row ids an \<open>AUTOINCREMENT\<close> column gives (a counter that never
  goes back), and each method is its SQL statement on them. Timestamps are microseconds since the
  epoch, which the fixed-width ISO text orders the same way; a price is the number its text denotes.
  How a row lies in SQLite cells is theory Columns, the schema and its migrations theory Schema; the
  connection object, its lock and the WAL mode are not modelled.

  The interpretation at the end discharges the learner's store contract for these tables.
\<close>

section \<open>Rows\<close>

record telemetry_event =
  te_request_fingerprint :: string
  te_cache_fingerprint :: string
  te_provider :: string
  te_model :: string
  te_route_hash :: "string option"
  te_usage :: token_usage
  te_outcome :: outcome
  te_request_kind :: string
  te_session_hash :: "string option"
  te_timestamp :: timestamp
  te_system_hash :: "string option"
  te_tools_hash :: "string option"
  te_history_hash :: "string option"
  te_tools_set_hash :: "string option"

record churn_event =
  ce_timestamp :: timestamp
  ce_session_hash :: "string option"
  ce_previous_cache_fingerprint :: string
  ce_new_cache_fingerprint :: string
  ce_provider :: "string option"
  ce_model :: "string option"
  ce_route_hash :: "string option"
  ce_system_changed :: bool
  ce_tools_changed :: bool
  ce_history_changed :: bool
  ce_route_changed :: bool
  ce_cache_key_changed :: bool
  ce_model_changed :: bool
  ce_likely_cause :: "string option"
  ce_confidence :: "flt option"
  ce_estimated_prefix_loss_tokens :: "int option"
  ce_first_divergent_offset :: "int option"
  ce_first_divergent_layer :: "string option"

record stored_request_event =
  sr_id :: int
  sr_session_hash :: "string option"
  sr_timestamp :: timestamp
  sr_provider :: string
  sr_model :: string
  sr_route_hash :: "string option"
  sr_request_fingerprint :: string
  sr_cache_fingerprint :: string
  sr_system_hash :: "string option"
  sr_tools_hash :: "string option"
  sr_history_hash :: "string option"
  sr_input_tokens :: int
  sr_output_tokens :: int
  sr_cache_read_tokens :: int
  sr_cache_write_tokens :: int
  sr_cost_usd :: "flt option"
  sr_request_kind :: string
  sr_outcome :: outcome
  sr_tools_set_hash :: "string option"

record stored_lease =
  sl_lease_id :: string
  sl_session_hash :: "string option"
  sl_provider :: string
  sl_model :: string
  sl_api_mode :: string
  sl_base_url_hash :: string
  sl_auth_scope_hash :: string
  sl_route_fingerprint :: "string option"
  sl_request_fingerprint :: string
  sl_cache_fingerprint :: string
  sl_system_fingerprint :: string
  sl_tools_fingerprint :: string
  sl_history_prefix_fingerprint :: string
  sl_last_real_request_at :: flt
  sl_last_cache_touch_at :: "flt option"
  sl_last_confirmed_hit_at :: "flt option"
  sl_estimated_ttl_s :: flt
  sl_ttl_confidence :: flt
  sl_active_targets :: "string list"
  sl_generation :: int
  sl_warm_count :: int
  sl_warm_cost_usd :: flt
  sl_estimated_cold_resume_cost_usd :: "flt option"
  sl_estimated_cached_resume_cost_usd :: "flt option"
  sl_state :: string
  sl_updated_at :: timestamp

section \<open>Tables\<close>

record 'r table =
  tb_seq :: int
  tb_rows :: "(int \<times> 'r) list"

definition empty_table :: "'r table" where
  "empty_table = \<lparr>tb_seq = 0, tb_rows = []\<rparr>"

definition insert_row :: "'r table \<Rightarrow> 'r \<Rightarrow> 'r table \<times> int" where
  "insert_row t r =
     (\<lparr>tb_seq = tb_seq t + 1, tb_rows = tb_rows t @ [(tb_seq t + 1, r)]\<rparr>, tb_seq t + 1)"

definition delete_rows :: "('r \<Rightarrow> bool) \<Rightarrow> 'r table \<Rightarrow> 'r table" where
  "delete_rows P t = t\<lparr>tb_rows := filter (\<lambda>(i, r). \<not> P r) (tb_rows t)\<rparr>"

definition newest :: "nat \<Rightarrow> ('r \<Rightarrow> bool) \<Rightarrow> 'r table \<Rightarrow> (int \<times> 'r) list" where
  \<comment> \<open>\<open>WHERE P ORDER BY id DESC LIMIT n\<close>\<close>
  "newest n P t = take n (rev (filter (\<lambda>(i, r). P r) (tb_rows t)))"

record db =
  db_requests :: "stored_request_event table"
  db_churn :: "churn_event table"
  db_leases :: "stored_lease table"
  db_profiles :: "(string, ttl_profile) dict"
  db_ttl :: "stored_ttl_observation table"
  db_routes :: "route_change_event table"

definition fresh_db :: db where
  "fresh_db = \<lparr>db_requests = empty_table, db_churn = empty_table, db_leases = empty_table,
     db_profiles = [], db_ttl = empty_table, db_routes = empty_table\<rparr>"

section \<open>Writes\<close>

definition request_row :: "telemetry_event \<Rightarrow> stored_request_event" where
  "request_row e = \<lparr>sr_id = 0, sr_session_hash = te_session_hash e, sr_timestamp = te_timestamp e,
     sr_provider = te_provider e, sr_model = te_model e, sr_route_hash = te_route_hash e,
     sr_request_fingerprint = te_request_fingerprint e,
     sr_cache_fingerprint = te_cache_fingerprint e, sr_system_hash = te_system_hash e,
     sr_tools_hash = te_tools_hash e, sr_history_hash = te_history_hash e,
     sr_input_tokens = prompt_tokens (te_usage e), sr_output_tokens = completion_tokens (te_usage e),
     sr_cache_read_tokens = cache_read_tokens (te_usage e),
     sr_cache_write_tokens = cache_write_tokens (te_usage e), sr_cost_usd = cost (te_usage e),
     sr_request_kind = te_request_kind e, sr_outcome = te_outcome e,
     sr_tools_set_hash = te_tools_set_hash e\<rparr>"

definition record_request :: "db \<Rightarrow> telemetry_event \<Rightarrow> db \<times> int" where
  "record_request d e =
     (let (t, i) = insert_row (db_requests d) (request_row e) in (d\<lparr>db_requests := t\<rparr>, i))"

definition record_churn :: "db \<Rightarrow> churn_event \<Rightarrow> db \<times> int" where
  "record_churn d e = (let (t, i) = insert_row (db_churn d) e in (d\<lparr>db_churn := t\<rparr>, i))"

fun lease_state_value :: "lease_state \<Rightarrow> string" where
  "lease_state_value INACTIVE = ''inactive''"
| "lease_state_value ARMED = ''armed''"
| "lease_state_value WARM_SCHEDULED = ''warm_scheduled''"
| "lease_state_value WARMING = ''warming''"
| "lease_state_value ECONOMIC_STOP_state = ''economic_stop''"
| "lease_state_value INVALIDATED = ''invalidated''"

definition lease_row_values :: "timestamp \<Rightarrow> cache_lease \<Rightarrow> stored_lease" where
  "lease_row_values now l = \<lparr>sl_lease_id = cl_lease_id l,
     sl_session_hash = (if cl_session_id l \<noteq> [] then Some (sha256_hex (cl_session_id l)) else None),
     sl_provider = cl_provider l, sl_model = cl_model l, sl_api_mode = cl_api_mode l,
     sl_base_url_hash = sha256_hex (cl_base_url l), sl_auth_scope_hash = cl_auth_scope_hash l,
     sl_route_fingerprint = cl_route_fingerprint l,
     sl_request_fingerprint = cl_request_fingerprint l,
     sl_cache_fingerprint = cl_cache_fingerprint l,
     sl_system_fingerprint = cl_system_fingerprint l,
     sl_tools_fingerprint = cl_tools_fingerprint l,
     sl_history_prefix_fingerprint = cl_history_prefix_fingerprint l,
     sl_last_real_request_at = cl_last_real_request_at l,
     sl_last_cache_touch_at = cl_last_cache_touch_at l,
     sl_last_confirmed_hit_at = cl_last_confirmed_hit_at l,
     sl_estimated_ttl_s = cl_estimated_ttl_s l, sl_ttl_confidence = cl_ttl_confidence l,
     sl_active_targets = sorted_list_of_set (cl_active_targets l),
     sl_generation = cl_generation l, sl_warm_count = cl_warm_count l,
     sl_warm_cost_usd = cl_warm_cost_usd l,
     sl_estimated_cold_resume_cost_usd = cl_estimated_cold_resume_cost_usd l,
     sl_estimated_cached_resume_cost_usd = cl_estimated_cached_resume_cost_usd l,
     sl_state = lease_state_value (cl_state l), sl_updated_at = now\<rparr>"

definition record_lease :: "timestamp \<Rightarrow> db \<Rightarrow> cache_lease \<Rightarrow> db \<times> int" where
  "record_lease now d l =
     (let (t, i) = insert_row (db_leases d) (lease_row_values now l) in (d\<lparr>db_leases := t\<rparr>, i))"

definition update_lease :: "timestamp \<Rightarrow> db \<Rightarrow> cache_lease \<Rightarrow> db" where
  "update_lease now d l =
     (let d = d\<lparr>db_leases := delete_rows (\<lambda>r. sl_lease_id r = cl_lease_id l) (db_leases d)\<rparr>
      in fst (record_lease now d l))"

definition merge_profile :: "ttl_profile \<Rightarrow> ttl_profile \<Rightarrow> ttl_profile" where
  \<comment> \<open>\<open>DO UPDATE SET\<close>: the identity columns keep the stored values.\<close>
  "merge_profile old p = old\<lparr>lower_bound_s := lower_bound_s p, upper_bound_s := upper_bound_s p,
     tp_estimated_ttl_s := tp_estimated_ttl_s p, confidence := confidence p,
     sample_count := sample_count p, tp_updated_at := tp_updated_at p\<rparr>"

definition upsert_profile :: "timestamp \<Rightarrow> db \<Rightarrow> ttl_profile \<Rightarrow> db" where
  "upsert_profile now d p =
     (let p = p\<lparr>tp_updated_at := Some (opt_or (tp_updated_at p) now)\<rparr>;
          row = (case dget (db_profiles d) (profile_key p) of
                   None \<Rightarrow> p | Some old \<Rightarrow> merge_profile old p)
      in d\<lparr>db_profiles := dset (db_profiles d) (profile_key p) row\<rparr>)"

definition record_ttl_observation :: "db \<Rightarrow> stored_ttl_observation \<Rightarrow> db \<times> int" where
  "record_ttl_observation d r =
     (let (t, i) = insert_row (db_ttl d) r in (d\<lparr>db_ttl := t\<rparr>, i))"

definition record_route_event :: "db \<Rightarrow> route_change_event \<Rightarrow> db \<times> int" where
  "record_route_event d e = (let (t, i) = insert_row (db_routes d) e in (d\<lparr>db_routes := t\<rparr>, i))"

section \<open>Reads\<close>

definition row_to_request_event :: "int \<times> stored_request_event \<Rightarrow> stored_request_event" where
  "row_to_request_event row = (snd row)\<lparr>sr_id := fst row\<rparr>"

definition recent_events :: "db \<Rightarrow> nat \<Rightarrow> stored_request_event list" where
  "recent_events d limit = map row_to_request_event (newest limit (\<lambda>_. True) (db_requests d))"

definition first_row :: "'a list \<Rightarrow> 'a option" where
  "first_row xs = (case xs of [] \<Rightarrow> None | x # _ \<Rightarrow> Some x)"

definition last_event_for_session :: "db \<Rightarrow> string \<Rightarrow> stored_request_event option" where
  "last_event_for_session d sh =
     map_option row_to_request_event
       (first_row (newest 1 (\<lambda>r. sr_session_hash r = Some sh) (db_requests d)))"

definition list_leases :: "db \<Rightarrow> nat \<Rightarrow> (int \<times> stored_lease) list" where
  "list_leases d limit = newest limit (\<lambda>_. True) (db_leases d)"

definition count_rows :: "('r \<Rightarrow> bool) \<Rightarrow> 'r table \<Rightarrow> nat" where
  "count_rows P t = length (filter (\<lambda>(i, r). P r) (tb_rows t))"

definition aggregates :: "db \<Rightarrow> health_stats" where
  "aggregates d = \<lparr>total = count_rows (\<lambda>_. True) (db_requests d),
     confirmed_hits = count_rows (\<lambda>r. sr_outcome r = CONFIRMED_HIT) (db_requests d),
     misses = count_rows (\<lambda>r. sr_outcome r = MISS_REBUILT) (db_requests d),
     unverified = count_rows (\<lambda>r. sr_outcome r = SUCCESS_UNVERIFIED) (db_requests d),
     failed = count_rows (\<lambda>r. sr_outcome r = FAILED) (db_requests d),
     churn_events = count_rows (\<lambda>_. True) (db_churn d),
     route_changes = count_rows ce_route_changed (db_churn d)\<rparr>"

definition sum_costs :: "flt option list \<Rightarrow> flt option" where
  \<comment> \<open>SQL \<open>SUM\<close>: NULLs are skipped, and the sum of no value is NULL.\<close>
  "sum_costs cs = (let vs = List.map_filter id cs in if vs = [] then None else Some (sum_list vs))"

definition provider_summary :: "db \<Rightarrow> (string \<times> nat \<times> flt option) list" where
  "provider_summary d =
     (let rows = map snd (tb_rows (db_requests d))
      in map (\<lambda>p. let rs = filter (\<lambda>r. sr_provider r = p) rows
                  in (p, length rs, sum_costs (map sr_cost_usd rs)))
           (sort (remdups (map sr_provider rows))))"

fun cost_loop :: "stored_request_event list \<Rightarrow> (string, flt) dict \<Rightarrow> (string, flt) dict" where
  "cost_loop [] totals = totals"
| "cost_loop (r # rs) totals =
     (case sr_cost_usd r of
        None \<Rightarrow> cost_loop rs totals
      | Some c \<Rightarrow>
          cost_loop rs (dset totals (sr_provider r) (opt_or (dget totals (sr_provider r)) 0 + c)))"

definition cost_totals :: "db \<Rightarrow> (string, flt) dict" where
  "cost_totals d = cost_loop (map snd (tb_rows (db_requests d))) []"

definition churn_list :: "db \<Rightarrow> nat \<Rightarrow> string option \<Rightarrow> (int \<times> churn_event) list" where
  "churn_list d limit session =
     (case session of
        None \<Rightarrow> newest limit (\<lambda>_. True) (db_churn d)
      | Some sh \<Rightarrow> newest limit (\<lambda>e. ce_session_hash e = Some sh) (db_churn d))"

definition route_changes_list :: "db \<Rightarrow> nat \<Rightarrow> (int \<times> churn_event) list" where
  "route_changes_list d limit = newest limit ce_route_changed (db_churn d)"

definition profile_for :: "db \<Rightarrow> string \<Rightarrow> ttl_profile option" where
  "profile_for d key = dget (db_profiles d) key"

definition list_profiles :: "db \<Rightarrow> nat \<Rightarrow> ttl_profile list" where
  "list_profiles d limit =
     take limit (rev (sort_key (\<lambda>p. opt_or (tp_updated_at p) 0) (map snd (db_profiles d))))"

definition row_to_ttl_observation :: "int \<times> stored_ttl_observation \<Rightarrow> stored_ttl_observation" where
  "row_to_ttl_observation row = (snd row)\<lparr>s_id := fst row\<rparr>"

definition recent_ttl_observations :: "db \<Rightarrow> string \<Rightarrow> nat \<Rightarrow> stored_ttl_observation list" where
  "recent_ttl_observations d fp limit =
     map row_to_ttl_observation (newest limit (\<lambda>r. s_cache_fingerprint r = fp) (db_ttl d))"

definition last_ttl_observation :: "db \<Rightarrow> string \<Rightarrow> stored_ttl_observation option" where
  "last_ttl_observation d fp = map_option row_to_ttl_observation
     (first_row (newest 1 (\<lambda>r. s_cache_fingerprint r = fp) (db_ttl d)))"

definition clean_observations_for_profile ::
  "db \<Rightarrow> string \<Rightarrow> string \<Rightarrow> string \<Rightarrow> string \<Rightarrow> string option \<Rightarrow> stored_ttl_observation list" where
  "clean_observations_for_profile d provider model api_mode eh route =
     map row_to_ttl_observation (filter (\<lambda>(i, r). s_clean r \<and> s_provider r = Some provider \<and>
       s_model r = Some model \<and> s_api_mode r = Some api_mode \<and> s_endpoint_hash r = Some eh \<and>
       s_route_hash r = route) (tb_rows (db_ttl d)))"

definition churn_between :: "db \<Rightarrow> string \<Rightarrow> timestamp \<Rightarrow> timestamp \<Rightarrow> bool" where
  "churn_between d fp start stop =
     list_ex (\<lambda>(i, e). (ce_previous_cache_fingerprint e = fp \<or> ce_new_cache_fingerprint e = fp) \<and>
       start \<le> ce_timestamp e \<and> ce_timestamp e \<le> stop) (tb_rows (db_churn d))"

definition recent_route_events :: "db \<Rightarrow> nat \<Rightarrow> (int \<times> route_change_event) list" where
  "recent_route_events d limit = newest limit (\<lambda>_. True) (db_routes d)"

definition last_route_event_for_session ::
  "db \<Rightarrow> string \<Rightarrow> timestamp option \<Rightarrow> (int \<times> route_change_event) option" where
  "last_route_event_for_session d sh since =
     first_row (newest 1 (\<lambda>e. re_session_hash e = Some sh \<and>
       (case since of None \<Rightarrow> True | Some t \<Rightarrow> t \<le> re_timestamp e)) (db_routes d))"

definition route_intel_stats_of :: "db \<Rightarrow> route_intel_stats" where
  "route_intel_stats_of d = \<lparr>rs_route_switches = count_rows (\<lambda>_. True) (db_routes d),
     rs_instability_verdicts = count_rows (\<lambda>e. re_verdict e = ROUTE_INSTABILITY) (db_routes d),
     rs_short_ttl_verdicts = count_rows (\<lambda>e. re_verdict e = SHORT_TTL) (db_routes d),
     rs_last_switch_at = map_option (\<lambda>(i, e). re_timestamp e)
       (first_row (newest 1 (\<lambda>_. True) (db_routes d)))\<rparr>"

section \<open>Invariant\<close>

definition wf_table :: "'r table \<Rightarrow> bool" where
  "wf_table t \<longleftrightarrow> sorted_wrt (<) (map fst (tb_rows t)) \<and> (\<forall>i\<in>set (map fst (tb_rows t)). 0 < i \<and> i \<le> tb_seq t) \<and>
     0 \<le> tb_seq t"

definition wf_profiles :: "(string, ttl_profile) dict \<Rightarrow> bool" where
  "wf_profiles ps \<longleftrightarrow> distinct (map fst ps) \<and> (\<forall>k p. dget ps k = Some p \<longrightarrow> profile_key p = k)"

definition wf_db :: "db \<Rightarrow> bool" where
  "wf_db d \<longleftrightarrow> wf_table (db_requests d) \<and> wf_table (db_churn d) \<and> wf_table (db_leases d) \<and>
     wf_table (db_ttl d) \<and> wf_table (db_routes d) \<and> wf_profiles (db_profiles d)"

lemma wf_fresh_db: "wf_db fresh_db"
  by (simp add: wf_db_def fresh_db_def wf_table_def empty_table_def wf_profiles_def)

lemma wf_insert_row: "wf_table t \<Longrightarrow> wf_table (fst (insert_row t r))"
  by (auto simp: wf_table_def insert_row_def sorted_wrt_append)

lemma wf_delete_rows: "wf_table t \<Longrightarrow> wf_table (delete_rows P t)"
  by (auto simp: wf_table_def delete_rows_def sorted_wrt_map sorted_wrt_filter)

lemma insert_row_rows [simp]:
  "tb_rows (fst (insert_row t r)) = tb_rows t @ [(snd (insert_row t r), r)]"
  by (simp add: insert_row_def)

lemma newest_insert:
  "newest n P (fst (insert_row t r)) =
     (if P r then (case n of 0 \<Rightarrow> [] | Suc k \<Rightarrow> (snd (insert_row t r), r) # newest k P t)
      else newest n P t)"
  by (cases n) (simp_all add: newest_def)

lemma merge_profile_key [simp]: "profile_key (merge_profile old p) = profile_key old"
  by (simp add: merge_profile_def profile_key_def)

lemma wf_upsert_profile: assumes "wf_profiles (db_profiles d)"
  shows "wf_profiles (db_profiles (upsert_profile now d p))"
proof -
  have k: "profile_key (p\<lparr>tp_updated_at := t\<rparr>) = profile_key p" for t by (simp add: profile_key_def)
  show ?thesis
    using assms by (auto simp: wf_profiles_def upsert_profile_def Let_def k split: option.splits)
qed

lemma wf_writes:
  assumes "wf_db d"
  shows "wf_db (fst (record_request d e))" "wf_db (fst (record_churn d c))"
    "wf_db (fst (record_lease now d l))" "wf_db (update_lease now d l)"
    "wf_db (upsert_profile now d p)" "wf_db (fst (record_ttl_observation d r))"
    "wf_db (fst (record_route_event d re))"
proof -
  have p: "db_requests (upsert_profile now d p) = db_requests d"
    "db_churn (upsert_profile now d p) = db_churn d" "db_leases (upsert_profile now d p) = db_leases d"
    "db_ttl (upsert_profile now d p) = db_ttl d" "db_routes (upsert_profile now d p) = db_routes d"
    by (simp_all add: upsert_profile_def Let_def)
  show "wf_db (upsert_profile now d p)"
    using assms p wf_upsert_profile [of d now p] by (simp add: wf_db_def)
  show "wf_db (fst (record_request d e))" "wf_db (fst (record_churn d c))"
    "wf_db (fst (record_lease now d l))" "wf_db (update_lease now d l)"
    "wf_db (fst (record_ttl_observation d r))" "wf_db (fst (record_route_event d re))"
    using assms
    by (simp_all add: wf_db_def record_request_def record_churn_def record_lease_def
        update_lease_def record_ttl_observation_def record_route_event_def case_prod_beta Let_def
        wf_insert_row wf_delete_rows)
qed

section \<open>The learner's store\<close>

interpretation store: ttl_store profile_for "upsert_profile now" last_ttl_observation
    "\<lambda>d r. fst (record_ttl_observation d r)" churn_between wf_db for now
proof
  have k: "profile_key (p\<lparr>tp_updated_at := t\<rparr>) = profile_key p" for p t
    by (simp add: profile_key_def)
  fix d r f key p
  show "profile_for (fst (record_ttl_observation d r)) key = profile_for d key"
    by (simp add: profile_for_def record_ttl_observation_def case_prod_beta)
  show "key \<noteq> profile_key p \<Longrightarrow> profile_for (upsert_profile now d p) key = profile_for d key"
    by (simp add: profile_for_def upsert_profile_def Let_def k)
  show "\<exists>q. profile_for (upsert_profile now d p) (profile_key p) = Some q \<and> learned_cols q = learned_cols p"
    if "wf_db d" "tp_updated_at p \<noteq> None"
    using that
    by (auto simp: profile_for_def upsert_profile_def Let_def k learned_cols_def merge_profile_def
        split: option.split)
  show "wf_db d \<Longrightarrow> profile_for d key = Some p \<Longrightarrow> profile_key p = key"
    by (simp add: wf_db_def wf_profiles_def profile_for_def)
  show "\<exists>r'. last_ttl_observation (fst (record_ttl_observation d r)) (s_cache_fingerprint r) = Some r' \<and>
      same_row r' r"
    by (simp add: last_ttl_observation_def record_ttl_observation_def case_prod_beta newest_insert
        first_row_def row_to_ttl_observation_def same_row_def)
  show "f \<noteq> s_cache_fingerprint r \<Longrightarrow>
      last_ttl_observation (fst (record_ttl_observation d r)) f = last_ttl_observation d f"
    by (simp add: last_ttl_observation_def record_ttl_observation_def case_prod_beta newest_insert)
  show "last_ttl_observation (upsert_profile now d p) f = last_ttl_observation d f"
    by (simp add: last_ttl_observation_def upsert_profile_def Let_def)
  show "wf_db d \<Longrightarrow> wf_db (fst (record_ttl_observation d r))" by (rule wf_writes)
  show "wf_db d \<Longrightarrow> wf_db (upsert_profile now d p)" by (rule wf_writes)
qed

definition learn_db :: "timestamp \<Rightarrow> db \<Rightarrow> ttl_observation \<Rightarrow> db \<times> (py_error + ttl_profile option)" where
  "learn_db now = learn profile_for (upsert_profile now) last_ttl_observation
     (\<lambda>d r. fst (record_ttl_observation d r)) churn_between"



section \<open>Aggregates\<close>

lemma stats_fold:
  "foldl stats_record s outs = s\<lparr>total := total s + length outs,
     confirmed_hits := confirmed_hits s + length (filter (\<lambda>out. out = CONFIRMED_HIT) outs),
     misses := misses s + length (filter (\<lambda>out. out = MISS_REBUILT) outs),
     unverified := unverified s + length (filter (\<lambda>out. out = SUCCESS_UNVERIFIED) outs),
     failed := failed s + length (filter (\<lambda>out. out = FAILED) outs)\<rparr>"
proof (induction outs arbitrary: s)
  case (Cons x outs)
  then show ?case by (cases x) simp_all
qed simp

definition logged_outcomes :: "db \<Rightarrow> outcome list" where
  "logged_outcomes d = map (\<lambda>(i, r). sr_outcome r) (tb_rows (db_requests d))"

text \<open>The SQL aggregate is the reference aggregate. Over any database the grouped counts of
  \<open>aggregates\<close> are what recording the stored outcomes one by one gives, with the churn counters read
  from the churn table; recording a request adds exactly its outcome.\<close>

theorem aggregates_refine:
  "aggregates d = (from_outcomes (logged_outcomes d))\<lparr>churn_events := length (tb_rows (db_churn d)),
     route_changes := count_rows ce_route_changed (db_churn d)\<rparr> \<and>
   logged_outcomes (fst (record_request d e)) = logged_outcomes d @ [te_outcome e]"
proof
  have c: "count_rows (\<lambda>r. sr_outcome r = out) (db_requests d) =
      length (filter (\<lambda>x. x = out) (logged_outcomes d))" for out
    by (simp add: count_rows_def logged_outcomes_def filter_map comp_def split_beta')
  have n: "count_rows (\<lambda>_. True) t = length (tb_rows t)" for t :: "'x table"
    by (simp add: count_rows_def split_beta')
  show "aggregates d = (from_outcomes (logged_outcomes d))\<lparr>churn_events := length (tb_rows (db_churn d)),
     route_changes := count_rows ce_route_changed (db_churn d)\<rparr>"
    by (simp add: aggregates_def from_outcomes_def stats_fold empty_stats_def c n)
      (simp add: logged_outcomes_def)
  show "logged_outcomes (fst (record_request d e)) = logged_outcomes d @ [te_outcome e]"
    by (simp add: logged_outcomes_def record_request_def split_beta' request_row_def Let_def)
qed

definition sample_event :: telemetry_event where
  "sample_event = \<lparr>te_request_fingerprint = ''rq'', te_cache_fingerprint = ''f'', te_provider = ''p'',
     te_model = ''m'', te_route_hash = None, te_usage = empty_usage, te_outcome = CONFIRMED_HIT,
     te_request_kind = ''normal'', te_session_hash = Some ''h'', te_timestamp = 0,
     te_system_hash = None, te_tools_hash = None, te_history_hash = None, te_tools_set_hash = None\<rparr>"

section \<open>Costs\<close>

lemma cost_loop_get:
  "dget (cost_loop rs totals) p =
     (let vs = List.map_filter sr_cost_usd (filter (\<lambda>r. sr_provider r = p) rs) in
      if vs = [] then dget totals p else Some (opt_or (dget totals p) 0 + sum_list vs))"
proof (induction rs arbitrary: totals)
  case (Cons r rs)
  show ?case
    by (cases "sr_cost_usd r")
      (auto simp: Cons.IH Let_def List.map_filter_simps add.assoc)
qed (simp add: List.map_filter_simps)

lemma sum_costs_map:
  "sum_costs (map sr_cost_usd rs) =
     (let vs = List.map_filter sr_cost_usd rs in if vs = [] then None else Some (sum_list vs))"
proof -
  have "List.map_filter id (map sr_cost_usd rs) = List.map_filter sr_cost_usd rs"
    by (induction rs) (auto simp: List.map_filter_simps split: option.split)
  then show ?thesis by (simp add: sum_costs_def)
qed

text \<open>The two cost reports agree. The provider summary lists every provider that has requests
  once, in order, and its recorded cost is exactly what the running per-provider totals hold: a
  provider with no recorded cost is unknown in both, never zero.\<close>

theorem cost_reports_agree:
  "sorted (map fst (provider_summary d)) \<and> distinct (map fst (provider_summary d)) \<and>
   set (map fst (provider_summary d)) = (\<lambda>(i, r). sr_provider r) ` set (tb_rows (db_requests d)) \<and>
   (\<forall>p n c. (p, n, c) \<in> set (provider_summary d) \<longrightarrow>
      c = dget (cost_totals d) p \<and>
      n = length (filter (\<lambda>(i, r). sr_provider r = p) (tb_rows (db_requests d))))"
proof (intro conjI allI impI)
  have f: "map fst (provider_summary d) =
      sort (remdups (map sr_provider (map snd (tb_rows (db_requests d)))))"
    by (simp add: provider_summary_def Let_def comp_def)
  show "sorted (map fst (provider_summary d))" "distinct (map fst (provider_summary d))"
    unfolding f by simp_all
  show "set (map fst (provider_summary d)) = (\<lambda>(i, r). sr_provider r) ` set (tb_rows (db_requests d))"
    unfolding f by (simp add: image_image split_beta')
  fix p n c assume "(p, n, c) \<in> set (provider_summary d)"
  then have nc: "n = length (filter (\<lambda>r. sr_provider r = p) (map snd (tb_rows (db_requests d))))"
    "c = sum_costs (map sr_cost_usd (filter (\<lambda>r. sr_provider r = p) (map snd (tb_rows (db_requests d)))))"
    by (auto simp: provider_summary_def Let_def)
  show "c = dget (cost_totals d) p"
    unfolding nc sum_costs_map cost_totals_def cost_loop_get by (simp add: Let_def)
  show "n = length (filter (\<lambda>(i, r). sr_provider r = p) (tb_rows (db_requests d)))"
    unfolding nc by (simp add: filter_map comp_def split_beta')
qed

theorem cost_reports_agree_witness:
  "dget (cost_totals (fst (record_request fresh_db (sample_event\<lparr>te_usage := empty_usage\<lparr>cost := Some 2\<rparr>\<rparr>)))) ''p''
     = Some 2"
proof -
  define d where "d = fst (record_request fresh_db (sample_event\<lparr>te_usage := empty_usage\<lparr>cost := Some 2\<rparr>\<rparr>))"
  have "(''p'', 1, Some 2) \<in> set (provider_summary d)"
    by (simp add: d_def provider_summary_def Let_def record_request_def insert_row_def fresh_db_def
        empty_table_def request_row_def sample_event_def sum_costs_def List.map_filter_simps)
  then have "Some 2 = dget (cost_totals d) ''p''" using cost_reports_agree [of d] by blast
  then show ?thesis by (simp add: d_def)
qed

section \<open>Logs and snapshots\<close>

definition leases_of :: "string \<Rightarrow> db \<Rightarrow> (int \<times> stored_lease) list" where
  "leases_of lid d = filter (\<lambda>(i, r). sl_lease_id r = lid) (tb_rows (db_leases d))"

lemma leases_of_update:
  "leases_of lid (update_lease now d l) =
     (if lid = cl_lease_id l then [(tb_seq (db_leases d) + 1, lease_row_values now l)]
      else leases_of lid d)"
  by (auto simp: leases_of_def update_lease_def record_lease_def insert_row_def delete_rows_def
      Let_def filter_filter case_prod_beta' lease_row_values_def filter_empty_conv intro: filter_cong)

text \<open>The lease table is a snapshot. After \<open>update_lease\<close> it holds exactly one row of the lease,
  the current one, which is also the newest; the rows of every other lease are untouched; and the
  stored row depends on the session only through its hash, so two leases that differ only in
  sessions with the same digest are stored alike.\<close>

theorem lease_table_is_snapshot:
  "leases_of (cl_lease_id l) (update_lease now d l) =
     [(tb_seq (db_leases d) + 1, lease_row_values now l)] \<and>
   list_leases (update_lease now d l) 1 = [(tb_seq (db_leases d) + 1, lease_row_values now l)] \<and>
   (\<forall>lid. lid \<noteq> cl_lease_id l \<longrightarrow> leases_of lid (update_lease now d l) = leases_of lid d) \<and>
   (\<forall>s t. s \<noteq> [] \<and> t \<noteq> [] \<and> sha256_hex s = sha256_hex t \<longrightarrow>
      lease_row_values now (l\<lparr>cl_session_id := s\<rparr>) = lease_row_values now (l\<lparr>cl_session_id := t\<rparr>))"
  unfolding leases_of_update
  by (simp add: list_leases_def update_lease_def record_lease_def Let_def case_prod_beta newest_def)
    (simp add: lease_row_values_def insert_row_def delete_rows_def)

definition sample_stored_lease :: cache_lease where
  "sample_stored_lease = \<lparr>cl_lease_id = ''L'', cl_session_id = ''s'', cl_provider = ''p'', cl_model = ''m'',
     cl_api_mode = ''chat'', cl_base_url = ''u'', cl_auth_scope_hash = ''a'', cl_route_fingerprint = None,
     cl_request_fingerprint = ''rq'', cl_cache_fingerprint = ''f'', cl_system_fingerprint = ''y'',
     cl_tools_fingerprint = ''t'', cl_history_prefix_fingerprint = ''h'', cl_last_real_request_at = 0,
     cl_last_cache_touch_at = None, cl_last_confirmed_hit_at = None, cl_estimated_ttl_s = 300,
     cl_ttl_confidence = 1 / 2, cl_active_targets = {}, cl_generation = 1, cl_warm_count = 0,
     cl_warm_cost_usd = 0, cl_estimated_cold_resume_cost_usd = None,
     cl_estimated_cached_resume_cost_usd = None, cl_prefix_tokens = None, cl_next_warm_cost_usd = None,
     cl_last_warm_decision = None, cl_state = INACTIVE\<rparr>"

theorem lease_table_is_snapshot_witness:
  "leases_of ''K'' (update_lease 0 fresh_db sample_stored_lease) = []"
proof -
  have "''K'' \<noteq> cl_lease_id sample_stored_lease" by (simp add: sample_stored_lease_def)
  then have "leases_of ''K'' (update_lease 0 fresh_db sample_stored_lease) = leases_of ''K'' fresh_db"
    using lease_table_is_snapshot [of sample_stored_lease 0 fresh_db] by blast
  then show ?thesis by (simp add: leases_of_def fresh_db_def empty_table_def)
qed

text \<open>The event log only grows and reads back what was written. Recording a request gives it an
  id above every id in use; the newest read returns it with that id, the earlier ones follow in
  their order, and a session's last event is the one just written.\<close>

theorem event_log_roundtrip:
  assumes "wf_db d"
  shows "wf_db (fst (record_request d e)) \<and>
    (\<forall>i\<in>set (map fst (tb_rows (db_requests d))). i < snd (record_request d e)) \<and>
    recent_events (fst (record_request d e)) (Suc n) =
      (request_row e)\<lparr>sr_id := snd (record_request d e)\<rparr> # recent_events d n \<and>
    (\<forall>sh. last_event_for_session (fst (record_request d e)) sh =
       (if te_session_hash e = Some sh then Some ((request_row e)\<lparr>sr_id := snd (record_request d e)\<rparr>)
        else last_event_for_session d sh))"
proof (intro conjI allI ballI)
  have r: "db_requests (fst (record_request d e)) = fst (insert_row (db_requests d) (request_row e))"
    "snd (record_request d e) = snd (insert_row (db_requests d) (request_row e))"
    by (simp_all add: record_request_def case_prod_beta Let_def)
  show "wf_db (fst (record_request d e))" by (rule wf_writes(1) [OF assms])
  fix i assume i: "i \<in> set (map fst (tb_rows (db_requests d)))"
  have "wf_table (db_requests d)" using assms by (simp add: wf_db_def)
  then have "i \<le> tb_seq (db_requests d)" using i unfolding wf_table_def by blast
  then show "i < snd (record_request d e)" by (simp add: r insert_row_def)
next
  have r: "db_requests (fst (record_request d e)) = fst (insert_row (db_requests d) (request_row e))"
    "snd (record_request d e) = snd (insert_row (db_requests d) (request_row e))"
    by (simp_all add: record_request_def case_prod_beta Let_def)
  show "recent_events (fst (record_request d e)) (Suc n) =
      (request_row e)\<lparr>sr_id := snd (record_request d e)\<rparr> # recent_events d n"
    by (simp add: recent_events_def r newest_insert row_to_request_event_def)
  show "last_event_for_session (fst (record_request d e)) sh =
       (if te_session_hash e = Some sh then Some ((request_row e)\<lparr>sr_id := snd (record_request d e)\<rparr>)
        else last_event_for_session d sh)" for sh
    by (simp add: last_event_for_session_def r newest_insert row_to_request_event_def first_row_def)
      (simp add: request_row_def)
qed

theorem event_log_roundtrip_witness:
  "recent_events (fst (record_request fresh_db sample_event)) 1 =
     [(request_row sample_event)\<lparr>sr_id := 1\<rparr>]"
proof -
  have "snd (record_request fresh_db sample_event) = 1" "recent_events fresh_db 0 = []"
    by (simp_all add: record_request_def insert_row_def fresh_db_def empty_table_def
        recent_events_def newest_def)
  then show ?thesis
    using event_log_roundtrip [OF wf_fresh_db, of sample_event 0] by simp
qed

end
