(* ===== verification/Observation.thy ===== *)
theory Observation
  imports RouteIntel Adapters
begin

text \<open>
  What the relay reads off a physical request, \<open>cachepilot_relay/observation.py\<close>: the correlation
  headers it strips, the identity form of an upstream URL, the authentication scope, the target
  count, the API mode, the canonical request and the route identity, with the cache of the last
  request bodies. \<open>loads\<close> is \<open>json.loads\<close> on the body's bytes (\<open>None\<close> when it raises),
  \<open>frepr\<close> the \<open>repr\<close> of a float and \<open>as_int\<close> pydantic's validation of a JSON value as
  an \<open>int\<close> field (\<open>None\<close> when it refuses).
\<close>

section \<open>Headers\<close>

type_synonym headers = "(string, string) dict"

definition CORRELATION_HEADERS :: "string list" where
  "CORRELATION_HEADERS = [''x-cachepilot-session'', ''x-cachepilot-request'',
     ''x-cachepilot-turn'', ''x-cachepilot-targets'']"

fun strip_loop :: "string list \<Rightarrow> headers \<Rightarrow> headers" where
  \<comment> \<open>The loop over the names present when it starts.\<close>
  "strip_loop [] hs = hs"
| "strip_loop (n # ns) hs =
     strip_loop ns (if py_lower n \<in> set CORRELATION_HEADERS then dpop hs n else hs)"

definition strip_correlation_headers :: "headers \<Rightarrow> headers" where
  "strip_correlation_headers hs = strip_loop (map fst hs) hs"

definition derive_auth_scope :: "headers \<Rightarrow> string" where
  "derive_auth_scope hs =
     (case dget hs ''authorization'' of
        None \<Rightarrow> ''relay-default''
      | Some auth \<Rightarrow> if auth = [] then ''relay-default''
                     else ''auth-'' @ take 16 (sha256_hex auth))"

definition hash_correlation_value :: "string option \<Rightarrow> string option" where
  "hash_correlation_value v =
     (case v of None \<Rightarrow> None | Some s \<Rightarrow> if s = [] then None else Some (sha256_hex s))"

definition parse_targets_count :: "string option \<Rightarrow> int" where
  "parse_targets_count v =
     (case v of
        None \<Rightarrow> 0
      | Some s \<Rightarrow> if s = [] then 0
                  else case py_int_of_string (py_strip s) of None \<Rightarrow> 0 | Some n \<Rightarrow> max 0 n)"

section \<open>URLs\<close>

fun partition_at :: "string \<Rightarrow> string \<Rightarrow> (string \<times> string) option" where
  \<comment> \<open>\<open>s.partition(sep)\<close> at the first occurrence; \<open>None\<close> when there is none.\<close>
  "partition_at sep [] = (if sep = [] then Some ([], []) else None)"
| "partition_at sep (c # cs) =
     (if starts_with sep (c # cs) then Some ([], drop (length sep) (c # cs))
      else case partition_at sep cs of None \<Rightarrow> None | Some (a, b) \<Rightarrow> Some (c # a, b))"

definition before_first :: "char \<Rightarrow> string \<Rightarrow> string" where
  \<comment> \<open>\<open>s.split(c, 1)[0]\<close>\<close>
  "before_first c s = takeWhile (\<lambda>x. x \<noteq> c) s"

definition after_last :: "char \<Rightarrow> string \<Rightarrow> string" where
  \<comment> \<open>\<open>s.rsplit(c, 1)[-1]\<close>\<close>
  "after_last c s = rev (takeWhile (\<lambda>x. x \<noteq> c) (rev s))"

definition before_last :: "char \<Rightarrow> string \<Rightarrow> string" where
  \<comment> \<open>\<open>s.rsplit(c, 1)[0]\<close>: the whole text when \<open>c\<close> is not in it.\<close>
  "before_last c s = (if c \<in> set s then rev (tl (dropWhile (\<lambda>x. x \<noteq> c) (rev s))) else s)"

definition KNOWN_GATEWAYS :: "(string, string) dict" where
  "KNOWN_GATEWAYS = [(''api.openai.com'', ''openai''), (''api.anthropic.com'', ''anthropic''),
     (''openrouter.ai'', ''openrouter''), (''api.deepseek.com'', ''deepseek'')]"

definition provider_from_upstream :: "string \<Rightarrow> string" where
  "provider_from_upstream url =
     (let rest = (case partition_at ''://'' url of None \<Rightarrow> url | Some (_, r) \<Rightarrow> r);
          host = py_lower (before_last (CHR '':'') (before_first (CHR ''/'') rest))
      in opt_or (dget KNOWN_GATEWAYS host) host)"

definition endpoint_identity :: "string \<Rightarrow> string" where
  "endpoint_identity url =
     (let without_query = before_first (CHR ''?'') (before_first (CHR ''#'') url);
          (scheme, separator, rest) =
            (case partition_at ''://'' without_query of
               None \<Rightarrow> ([], [], without_query)
             | Some (s, r) \<Rightarrow> (s, ''://'', r));
          authority = before_first (CHR ''/'') rest;
          slash_path = dropWhile (\<lambda>x. x \<noteq> CHR ''/'') rest;
          authority = (if CHR ''@'' \<in> set authority then after_last (CHR ''@'') authority
                       else authority)
      in scheme @ separator @ authority @ slash_path)"

section \<open>The payload\<close>

definition json_or_none :: "(byte list \<Rightarrow> json option) \<Rightarrow> byte list \<Rightarrow> json_body option" where
  "json_or_none loads body =
     (if body = [] then None
      else case loads body of Some (JObj kvs) \<Rightarrow> Some kvs | _ \<Rightarrow> None)"

fun ends_with :: "string \<Rightarrow> string \<Rightarrow> bool" where
  "ends_with suf s = starts_with (rev suf) (rev s)"

definition infer_api_mode :: "string \<Rightarrow> json_body option \<Rightarrow> api_mode" where
  "infer_api_mode path payload =
     (let lowered = py_lower path in
      if partition_at ''responses'' lowered \<noteq> None then RESPONSES
      else if partition_at ''chat'' lowered \<noteq> None then CHAT
      else if ends_with ''/completions'' lowered then COMPLETION
      else case payload of
             None \<Rightarrow> CHAT
           | Some kvs \<Rightarrow>
               if has_key kvs ''messages'' then CHAT
               else if has_key kvs ''prompt'' then COMPLETION else CHAT)"

fun json_iter :: "json \<Rightarrow> py_error + json list" where
  \<comment> \<open>Iterating over \<open>value or []\<close>.\<close>
  "json_iter (JArr xs) = Inr xs"
| "json_iter (JObj kvs) = Inr (map (\<lambda>(k, v). JStr k) kvs)"
| "json_iter (JStr s) = Inr (map (\<lambda>c. JStr [c]) s)"
| "json_iter v = (if json_truthy v then Inl TypeError else Inr [])"

fun is_system_message :: "json \<Rightarrow> bool" where
  "is_system_message (JObj kvs) = (json_field ''role'' kvs = JStr ''system'')"
| "is_system_message _ = False"

fun message_text :: "(pyfloat \<Rightarrow> string) \<Rightarrow> json \<Rightarrow> string" where
  "message_text frepr (JObj kvs) =
     (case json_field ''content'' kvs of JStr s \<Rightarrow> s | v \<Rightarrow> canonical_json frepr v)"
| "message_text frepr _ = []"

definition system_content :: "(pyfloat \<Rightarrow> string) \<Rightarrow> json_body \<Rightarrow> py_error + string option" where
  "system_content frepr kvs =
     (case json_field ''system'' kvs of
        JStr s \<Rightarrow> Inr (Some s)
      | JNull \<Rightarrow> res_bind (json_iter (json_field ''messages'' kvs)) (\<lambda>ms.
          let texts = map (message_text frepr) (filter is_system_message ms)
          in Inr (if texts = [] then None else Some (py_join [char_of (10::nat)] texts)))
      | v \<Rightarrow> Inr (Some (canonical_json frepr v)))"

definition non_system_messages :: "json_body \<Rightarrow> py_error + json list" where
  "non_system_messages kvs =
     res_bind (json_iter (json_field ''messages'' kvs)) (\<lambda>ms.
       Inr (filter (\<lambda>m. \<not> is_system_message m) ms))"

definition model_field :: "json_body \<Rightarrow> py_error + string" where
  \<comment> \<open>\<open>get("model") or "unknown"\<close>, as the validated \<open>str\<close> field takes it.\<close>
  "model_field kvs =
     (let v = json_field ''model'' kvs in
      if \<not> json_truthy v then Inr ''unknown''
      else case v of JStr s \<Rightarrow> Inr s | _ \<Rightarrow> Inl ValidationError)"

definition max_tokens_field ::
  "(json \<Rightarrow> int option) \<Rightarrow> json_body \<Rightarrow> py_error + int option" where
  "max_tokens_field as_int kvs =
     (case json_field ''max_tokens'' kvs of
        JNull \<Rightarrow> Inr None
      | v \<Rightarrow> (case as_int v of None \<Rightarrow> Inl ValidationError | Some n \<Rightarrow> Inr (Some n)))"

definition tools_field :: "json_body \<Rightarrow> json list option" where
  "tools_field kvs =
     (let t = json_field ''tools'' kvs; v = (if json_truthy t then t else json_field ''functions'' kvs)
      in case v of JArr ts \<Rightarrow> Some ts | _ \<Rightarrow> None)"

definition history_text :: "(pyfloat \<Rightarrow> string) \<Rightarrow> json list \<Rightarrow> string option" where
  "history_text frepr ms = (if ms = [] then None else Some (canonical_json frepr (JArr ms)))"

section \<open>The canonical request and the route identity\<close>

definition build_canonical_request ::
  "(byte list \<Rightarrow> json option) \<Rightarrow> (pyfloat \<Rightarrow> string) \<Rightarrow> (json \<Rightarrow> int option) \<Rightarrow> byte list \<Rightarrow> string \<Rightarrow>
   string \<Rightarrow> string option \<Rightarrow> string \<Rightarrow> py_error + canonical_request" where
  "build_canonical_request loads frepr as_int body path upstream_url route auth_scope =
     (let payload = json_or_none loads body; kvs = opt_or payload [];
          endpoint = endpoint_identity upstream_url
      in res_bind (model_field kvs) (\<lambda>model.
         res_bind (non_system_messages kvs) (\<lambda>messages.
         res_bind (system_content frepr kvs) (\<lambda>system.
         res_bind (max_tokens_field as_int kvs) (\<lambda>max_tokens.
           from_content frepr (provider_from_upstream endpoint) model (infer_api_mode path payload)
             endpoint auth_scope (history_text frepr messages) system (tools_field kvs) route
             max_tokens (json_truthy (json_field ''stream'' kvs)) None)))))"

definition extract_history_hash ::
  "(byte list \<Rightarrow> json option) \<Rightarrow> (pyfloat \<Rightarrow> string) \<Rightarrow> byte list \<Rightarrow> py_error + string option" where
  "extract_history_hash loads frepr body =
     res_bind (non_system_messages (opt_or (json_or_none loads body) [])) (\<lambda>ms.
       Inr (map_option (\<lambda>t. hash_content (CStr t)) (history_text frepr ms)))"

definition first_present :: "string list \<Rightarrow> headers \<Rightarrow> string option" where
  \<comment> \<open>The value of the first of the names that is present.\<close>
  "first_present names hs =
     (case filter (\<lambda>n. dget hs n \<noteq> None) names of [] \<Rightarrow> None | n # _ \<Rightarrow> dget hs n)"

definition lower_headers :: "headers \<Rightarrow> headers" where
  \<comment> \<open>The comprehension: a later name wins over an equal earlier one.\<close>
  "lower_headers hs = foldl (\<lambda>d (k, v). dset d (py_lower k) v) [] hs"

definition HEADER_UPSTREAM_PROVIDER :: "string list" where
  "HEADER_UPSTREAM_PROVIDER = [''x-provider'', ''x-cachepilot-provider'']"

definition HEADER_REGION :: "string list" where
  "HEADER_REGION = [''x-region'', ''x-cachepilot-region'']"

definition HEADER_DEPLOYMENT :: "string list" where
  "HEADER_DEPLOYMENT = [''x-served-by'', ''x-cachepilot-deployment'']"

definition observed_route_identity :: "string \<Rightarrow> headers \<Rightarrow> route_identity" where
  \<comment> \<open>\<open>extract_route_identity\<close>\<close>
  "observed_route_identity upstream_url response_headers =
     (let endpoint = endpoint_identity upstream_url; lower = lower_headers response_headers
      in \<lparr>ri_gateway = Some (provider_from_upstream endpoint),
          ri_upstream_provider = first_present HEADER_UPSTREAM_PROVIDER lower,
          ri_endpoint = Some endpoint, ri_region = first_present HEADER_REGION lower,
          ri_deployment = first_present HEADER_DEPLOYMENT lower\<rparr>)"

definition request_route_identity :: "string \<Rightarrow> route_identity" where
  "request_route_identity upstream_url =
     (let endpoint = endpoint_identity upstream_url
      in \<lparr>ri_gateway = Some (provider_from_upstream endpoint), ri_upstream_provider = None,
          ri_endpoint = Some endpoint, ri_region = None, ri_deployment = None\<rparr>)"

section \<open>The last request bodies\<close>

type_synonym body_cache = "(string, byte list) dict"

definition BODY_CACHE_MAX_BYTES :: nat where
  "BODY_CACHE_MAX_BYTES = 1048576"

definition BODY_CACHE_MAX_SESSIONS :: nat where
  "BODY_CACHE_MAX_SESSIONS = 32"

definition remember_body ::
  "bool \<Rightarrow> body_cache \<Rightarrow> string option \<Rightarrow> byte list option \<Rightarrow> body_cache \<times> byte list option" where
  "remember_body churn_detection_enabled cache session body =
     (case (session, body) of
        (Some s, Some b) \<Rightarrow>
          if \<not> churn_detection_enabled then (cache, None)
          else if BODY_CACHE_MAX_BYTES < length b then (cache, None)
          else
            (let previous = dget cache s;
                 cache = (if s \<notin> dkeys cache \<and> BODY_CACHE_MAX_SESSIONS \<le> length cache
                          then tl cache else cache)
             in (dset cache s b, previous))
      | _ \<Rightarrow> (cache, None))"

section \<open>Stripping\<close>

lemma strip_loop_filter:
  "distinct (map fst hs) \<Longrightarrow> strip_loop ns hs =
     filter (\<lambda>(n, v). \<not> (n \<in> set ns \<and> py_lower n \<in> set CORRELATION_HEADERS)) hs"
proof (induction ns arbitrary: hs)
  case (Cons n ns)
  have "filter (\<lambda>(m, v). \<not> (m \<in> set ns \<and> py_lower m \<in> set CORRELATION_HEADERS)) (dpop hs n) =
      filter (\<lambda>(m, v). \<not> (m \<in> set (n # ns) \<and> py_lower m \<in> set CORRELATION_HEADERS)) hs"
    if "py_lower n \<in> set CORRELATION_HEADERS"
    unfolding AList.delete_eq filter_filter
    using that by (intro filter_cong) auto
  moreover have "filter (\<lambda>(m, v). \<not> (m \<in> set ns \<and> py_lower m \<in> set CORRELATION_HEADERS)) hs =
      filter (\<lambda>(m, v). \<not> (m \<in> set (n # ns) \<and> py_lower m \<in> set CORRELATION_HEADERS)) hs"
    if "py_lower n \<notin> set CORRELATION_HEADERS"
    using that by (intro filter_cong) auto
  ultimately show ?case using Cons by simp
qed simp

lemma strip_correlation_filter:
  "distinct (map fst hs) \<Longrightarrow> strip_correlation_headers hs =
     filter (\<lambda>(n, v). py_lower n \<notin> set CORRELATION_HEADERS) hs"
  unfolding strip_correlation_headers_def
  by (subst strip_loop_filter) (auto intro!: filter_cong simp: image_iff)

section \<open>URL identity\<close>

lemma partition_at_Some: "partition_at sep s = Some (a, b) \<Longrightarrow> s = a @ sep @ b"
  by (induction sep s arbitrary: a rule: partition_at.induct)
    (auto simp: starts_with_iff split: if_splits option.splits)

lemma partition_at_None: "partition_at sep s = None \<longleftrightarrow> (\<forall>a b. s \<noteq> a @ sep @ b)"
proof (induction sep s rule: partition_at.induct)
  case (2 sep c cs)
  have "(\<exists>a b. c # cs = a @ sep @ b) \<longleftrightarrow> starts_with sep (c # cs) \<or> (\<exists>a b. cs = a @ sep @ b)"
    by (auto simp: starts_with_iff Cons_eq_append_conv)
  then show ?case using 2 by (auto split: option.splits)
qed simp

lemma partition_at_prefix:
  assumes "partition_at sep s = Some (a, b)" "sep \<noteq> []"
  shows "partition_at sep (a @ sep @ b') = Some (a, b')"
  using assms
proof (induction sep s arbitrary: a rule: partition_at.induct)
  case (2 sep c cs)
  show ?case
  proof (cases "starts_with sep (c # cs)")
    case True
    then have "a = []" using 2(2) by simp
    then show ?thesis using 2(3) using starts_with_append [of sep b'] by (cases sep) auto
  next
    case False
    then obtain a' where a': "partition_at sep cs = Some (a', b)" "a = c # a'"
      using 2(2) by (auto split: option.splits)
    have cs: "cs = a' @ sep @ b" using a'(1) by (rule partition_at_Some)
    have sw: "starts_with sep (c # a' @ sep @ x) = (take (length sep) (c # a' @ sep) = sep)" for x
      using take_append [of "length sep" "c # a' @ sep" x] by (simp add: starts_with_def)
    have "\<not> starts_with sep (c # a' @ sep @ b')" using False cs sw by metis
    then show ?thesis using 2(1) [OF False a'(1) 2(3)] a'(2) by simp
  qed
qed simp

lemma takeWhile_prefix_absorb:
  "takeWhile P (takeWhile Q (u @ x # v)) = takeWhile P (takeWhile Q u)" if "\<not> P x \<or> \<not> Q x"
  using that by (induction u) auto

lemma before_first_query:
  "before_first (CHR ''?'') (before_first (CHR ''#'') (u @ CHR ''?'' # q)) =
   before_first (CHR ''?'') (before_first (CHR ''#'') u)"
  "before_first (CHR ''?'') (before_first (CHR ''#'') (u @ CHR ''#'' # q)) =
   before_first (CHR ''?'') (before_first (CHR ''#'') u)"
  unfolding before_first_def by (rule takeWhile_prefix_absorb, simp)+

lemma endpoint_drops:
  "endpoint_identity (u @ CHR ''?'' # q) = endpoint_identity u"
  "endpoint_identity (u @ CHR ''#'' # q) = endpoint_identity u"
  unfolding endpoint_identity_def before_first_query by simp_all

lemma before_first_id: "c \<notin> set s \<Longrightarrow> before_first c s = s"
  unfolding before_first_def by (induction s) auto

lemma not_in_before_first: "c \<notin> set (before_first c s)" "set (before_first d s) \<subseteq> set s"
  unfolding before_first_def by (auto dest: set_takeWhileD)

lemma after_last_no: "c \<notin> set (after_last c s)"
  unfolding after_last_def by (auto dest: set_takeWhileD)

lemma after_last_suffix: "\<exists>p. s = p @ after_last c s"
proof -
  have "rev s = takeWhile (\<lambda>x. x \<noteq> c) (rev s) @ dropWhile (\<lambda>x. x \<noteq> c) (rev s)" by simp
  then have "s = rev (dropWhile (\<lambda>x. x \<noteq> c) (rev s)) @ after_last c s"
    unfolding after_last_def by (metis rev_append rev_rev_ident)
  then show ?thesis by blast
qed

lemma after_last_append: "after_last c (p @ c # s) = (if c \<in> set s then after_last c s else s)"
proof (cases "c \<in> set s")
  case True
  then show ?thesis unfolding after_last_def by (simp add: takeWhile_append1)
next
  case False
  then have "takeWhile (\<lambda>x. x \<noteq> c) (rev s @ c # rev p) = rev s" by (subst takeWhile_append2) auto
  then show ?thesis using False unfolding after_last_def by simp
qed

text \<open>What is left of an authority once the user information is gone.\<close>

definition bare_authority :: "string \<Rightarrow> string" where
  "bare_authority a = (if CHR ''@'' \<in> set a then after_last (CHR ''@'') a else a)"

lemma bare_authority_no: "CHR ''@'' \<notin> set (bare_authority a)"
  by (simp add: bare_authority_def after_last_no)

lemma bare_authority_suffix: "\<exists>p. a = p @ bare_authority a"
  using after_last_suffix [of a] by (auto simp: bare_authority_def)

lemma bare_authority_idem [simp]: "bare_authority (bare_authority a) = bare_authority a"
  using bare_authority_no [of a] by (simp add: bare_authority_def)

lemma bare_authority_user: "bare_authority (u @ CHR ''@'' # a) = bare_authority a"
  by (simp add: bare_authority_def after_last_append)

definition clean_rest :: "string \<Rightarrow> string" where
  "clean_rest rest = bare_authority (before_first (CHR ''/'') rest) @
     dropWhile (\<lambda>x. x \<noteq> CHR ''/'') rest"

lemma before_first_split:
  "c \<notin> set a \<Longrightarrow> before_first c (a @ dropWhile (\<lambda>x. x \<noteq> c) r) = a"
  "c \<notin> set a \<Longrightarrow> dropWhile (\<lambda>x. x \<noteq> c) (a @ dropWhile (\<lambda>x. x \<noteq> c) r) = dropWhile (\<lambda>x. x \<noteq> c) r"
proof -
  assume a: "c \<notin> set a"
  have "takeWhile (\<lambda>x. x \<noteq> c) (dropWhile (\<lambda>x. x \<noteq> c) r) = []"
    by (induction r) auto
  then show "before_first c (a @ dropWhile (\<lambda>x. x \<noteq> c) r) = a"
    unfolding before_first_def using a by (subst takeWhile_append2) auto
  show "dropWhile (\<lambda>x. x \<noteq> c) (a @ dropWhile (\<lambda>x. x \<noteq> c) r) = dropWhile (\<lambda>x. x \<noteq> c) r"
    using a by (subst dropWhile_append2) auto
qed

lemma clean_rest_idem: "clean_rest (clean_rest r) = clean_rest r"
proof -
  have "CHR ''/'' \<notin> set (bare_authority (before_first (CHR ''/'') r))"
    using bare_authority_suffix [of "before_first (CHR ''/'') r"]
      not_in_before_first(1) [of "CHR ''/''" r] by (metis Un_iff set_append)
  then show ?thesis unfolding clean_rest_def by (simp add: before_first_split)
qed

lemma clean_rest_suffix: "\<exists>p. r = p @ clean_rest r"
  using bare_authority_suffix [of "before_first (CHR ''/'') r"]
  unfolding clean_rest_def before_first_def by (metis append.assoc takeWhile_dropWhile_id)

lemma endpoint_identity_conv:
  "endpoint_identity url =
     (let q = before_first (CHR ''?'') (before_first (CHR ''#'') url) in
      case partition_at ''://'' q of None \<Rightarrow> clean_rest q | Some (s, r) \<Rightarrow> s @ ''://'' @ clean_rest r)"
  by (simp add: endpoint_identity_def clean_rest_def bare_authority_def Let_def split: option.split)

lemma endpoint_chars:
  "CHR ''?'' \<notin> set (endpoint_identity u)" "CHR ''#'' \<notin> set (endpoint_identity u)"
proof -
  define q where "q = before_first (CHR ''?'') (before_first (CHR ''#'') u)"
  have q: "CHR ''?'' \<notin> set q" "CHR ''#'' \<notin> set q"
    using not_in_before_first(1) [of "CHR ''?''" "before_first (CHR ''#'') u"]
      not_in_before_first(2) [of "CHR ''?''" "before_first (CHR ''#'') u"]
      not_in_before_first(1) [of "CHR ''#''" u] unfolding q_def by blast+
  have r: "set (clean_rest r) \<subseteq> set r" for r
    using clean_rest_suffix [of r] by (metis Un_upper2 set_append)
  have "set (endpoint_identity u) \<subseteq> set q"
  proof (cases "partition_at ''://'' q")
    case None
    then show ?thesis using r [of q] unfolding endpoint_identity_conv q_def [symmetric] Let_def by simp
  next
    case (Some sr)
    obtain a b where sr: "sr = (a, b)" by (cases sr)
    then have "q = a @ ''://'' @ b" using Some partition_at_Some by metis
    then show ?thesis
      using r [of b] Some sr unfolding endpoint_identity_conv q_def [symmetric] Let_def by auto
  qed
  then show "CHR ''?'' \<notin> set (endpoint_identity u)" "CHR ''#'' \<notin> set (endpoint_identity u)"
    using q by blast+
qed

lemma endpoint_identity_idem: "endpoint_identity (endpoint_identity u) = endpoint_identity u"
proof -
  define q where "q = before_first (CHR ''?'') (before_first (CHR ''#'') u)"
  have e: "endpoint_identity u =
      (case partition_at ''://'' q of None \<Rightarrow> clean_rest q | Some (s, r) \<Rightarrow> s @ ''://'' @ clean_rest r)"
    unfolding endpoint_identity_conv Let_def q_def by (rule refl)
  have e2: "endpoint_identity (endpoint_identity u) =
      (case partition_at ''://'' (endpoint_identity u) of None \<Rightarrow> clean_rest (endpoint_identity u)
       | Some (s, r) \<Rightarrow> s @ ''://'' @ clean_rest r)"
    using endpoint_chars [of u] endpoint_identity_conv [of "endpoint_identity u"]
    by (simp add: before_first_id Let_def)
  show ?thesis
  proof (cases "partition_at ''://'' q")
    case None
    obtain p where p: "q = p @ clean_rest q" using clean_rest_suffix by blast
    have "partition_at ''://'' (clean_rest q) = None"
      using None p unfolding partition_at_None by (metis append.assoc)
    then show ?thesis using e e2 None by (simp add: clean_rest_idem)
  next
    case (Some sr)
    then obtain a b where sr: "partition_at ''://'' q = Some (a, b)" by (cases sr) auto
    then have "partition_at ''://'' (a @ ''://'' @ clean_rest b) = Some (a, clean_rest b)"
      by (rule partition_at_prefix) simp
    then show ?thesis using e e2 sr by (simp add: clean_rest_idem)
  qed
qed

lemma partition_at_scheme:
  assumes "CHR '':'' \<notin> set s" shows "partition_at ''://'' (s @ ''://'' @ r) = Some (s, r)"
  using assms by (induction s) (auto simp: starts_with_def)

lemma endpoint_drops_user:
  assumes "CHR '':'' \<notin> set scheme" "set user \<inter> {CHR ''/'', CHR ''?'', CHR ''#''} = {}"
    and "set scheme \<inter> {CHR ''?'', CHR ''#''} = {}"
  shows "endpoint_identity (scheme @ ''://'' @ user @ CHR ''@'' # rest) =
    endpoint_identity (scheme @ ''://'' @ rest)"
proof -
  have bf: "before_first c (s @ x) = s @ before_first c x" if "c \<notin> set s" for c s x
    using that unfolding before_first_def by (subst takeWhile_append2) auto
  have cut: "before_first c (user @ CHR ''@'' # x) = user @ CHR ''@'' # before_first c x"
    "before_first c (scheme @ ''://'' @ x) = scheme @ ''://'' @ before_first c x"
    if "c \<in> {CHR ''?'', CHR ''#''}" for c x
  proof -
    have c: "c \<notin> set (scheme @ ''://'')" "c \<notin> set (user @ ''@'')"
      using that assms by auto
    show "before_first c (user @ CHR ''@'' # x) = user @ CHR ''@'' # before_first c x"
      using bf [OF c(2), of x] by simp
    show "before_first c (scheme @ ''://'' @ x) = scheme @ ''://'' @ before_first c x"
      using bf [OF c(1), of x] by simp
  qed
  have u: "CHR ''/'' \<notin> set (user @ ''@'')" using assms(2) by auto
  have "dropWhile (\<lambda>c. c \<noteq> CHR ''/'') ((user @ ''@'') @ x) = dropWhile (\<lambda>c. c \<noteq> CHR ''/'') x" for x
    using u by (subst dropWhile_append2) auto
  then have cl: "clean_rest (user @ CHR ''@'' # x) = clean_rest x" for x
    using bf [OF u, of x] bare_authority_user [of user "before_first (CHR ''/'') x"]
    by (simp add: clean_rest_def)
  show ?thesis
    unfolding endpoint_identity_conv Let_def
    by (simp only: cut insert_iff simp_thms partition_at_scheme [OF assms(1)] option.case prod.case cl)
qed

text \<open>The endpoint that enters cache identity and the telemetry database carries nothing
  request-specific or secret: the query string and the fragment are dropped whatever they hold, user
  information in front of the host is dropped, the result has neither a question mark nor a hash
  sign, and normalising an already normalised endpoint changes nothing.\<close>

theorem endpoint_identity_normal_form:
  assumes "CHR '':'' \<notin> set scheme" "set user \<inter> {CHR ''/'', CHR ''?'', CHR ''#''} = {}"
    and "set scheme \<inter> {CHR ''?'', CHR ''#''} = {}"
  shows "endpoint_identity (scheme @ ''://'' @ user @ CHR ''@'' # rest) =
      endpoint_identity (scheme @ ''://'' @ rest) \<and>
    endpoint_identity (u @ CHR ''?'' # query) = endpoint_identity u \<and>
    endpoint_identity (u @ CHR ''#'' # fragment) = endpoint_identity u \<and>
    CHR ''?'' \<notin> set (endpoint_identity u) \<and> CHR ''#'' \<notin> set (endpoint_identity u) \<and>
    endpoint_identity (endpoint_identity u) = endpoint_identity u"
  using endpoint_drops_user [OF assms] endpoint_drops endpoint_chars endpoint_identity_idem by simp

theorem endpoint_identity_normal_form_witness:
  "endpoint_identity ''https://me:pw@h:8/v1?key=s'' = endpoint_identity ''https://h:8/v1?key=s''"
  using endpoint_identity_normal_form [of "''https''" "''me:pw''" "''h:8/v1?key=s''"] by simp

section \<open>Route identities\<close>

abbreviation route_signals :: "string list" where
  "route_signals \<equiv> HEADER_UPSTREAM_PROVIDER @ HEADER_REGION @ HEADER_DEPLOYMENT"

lemma dkeys_lower_headers: "dkeys (lower_headers hs) = py_lower ` dkeys hs"
proof -
  have "dkeys (foldl (\<lambda>d (k, v). dset d (py_lower k) v) acc hs) = dkeys acc \<union> py_lower ` dkeys hs" for acc
  proof (induction hs arbitrary: acc)
    case (Cons p hs)
    show ?case
      by (cases p) (simp only: foldl_Cons prod.case Cons.IH dkeys_dset, auto)
  qed simp
  then show ?thesis by (simp add: lower_headers_def)
qed

lemma first_present_None: "first_present names hs = None \<longleftrightarrow> set names \<inter> dkeys hs = {}"
proof -
  have "filter (\<lambda>n. dget hs n \<noteq> None) names = [] \<longleftrightarrow> set names \<inter> dkeys hs = {}"
    by (simp only: filter_empty_conv dict_simps) blast
  moreover have "first_present names hs = None \<longleftrightarrow> filter (\<lambda>n. dget hs n \<noteq> None) names = []"
  proof (cases "filter (\<lambda>n. dget hs n \<noteq> None) names")
    case (Cons n ns)
    then have "n \<in> set (filter (\<lambda>n. dget hs n \<noteq> None) names)" by simp
    then show ?thesis using Cons by (simp add: first_present_def)
  qed (simp add: first_present_def)
  ultimately show ?thesis by simp
qed

lemma observed_is_request_route:
  "observed_route_identity u hs = request_route_identity u \<longleftrightarrow>
     filter (\<lambda>(n, v). py_lower n \<in> set route_signals) hs = []"
proof -
  have "observed_route_identity u hs = request_route_identity u \<longleftrightarrow>
      (\<forall>ns\<in>{HEADER_UPSTREAM_PROVIDER, HEADER_REGION, HEADER_DEPLOYMENT}.
         first_present ns (lower_headers hs) = None)"
    by (simp add: observed_route_identity_def request_route_identity_def Let_def)
  also have "\<dots> \<longleftrightarrow> set route_signals \<inter> py_lower ` dkeys hs = {}"
    unfolding first_present_None dkeys_lower_headers set_append Int_Un_distrib2 Un_empty by simp
  also have "\<dots> \<longleftrightarrow> filter (\<lambda>(n, v). py_lower n \<in> set route_signals) hs = []"
    unfolding filter_empty_conv disjoint_iff by (auto simp del: set_append) (metis image_eqI fst_conv)+
  finally show ?thesis .
qed

lemma route_hash_eq:
  assumes "observable (ri_endpoint r)" "observable (ri_endpoint s)"
  shows "route_hash r = route_hash s \<longleftrightarrow>
    r = s \<or> sha_collision (utf8 (route_to_str r)) (utf8 (route_to_str s))"
  using assms by (auto simp: route_hash_def sha256_hex_def sha_collision_def route_to_str_inject)

text \<open>The lease keys its route by what is known before the response, the observer by what the
  response headers add. For a request to a non-empty endpoint the two route hashes agree exactly when
  the response carries none of the six provider, region and deployment headers, whatever the case of
  its names, or else the two text forms are a SHA-256 collision.\<close>

theorem route_keys_agree:
  assumes "endpoint_identity u \<noteq> []"
  shows "route_hash (observed_route_identity u hs) = route_hash (request_route_identity u) \<longleftrightarrow>
    filter (\<lambda>(n, v). py_lower n \<in> set route_signals) hs = [] \<or>
    sha_collision (utf8 (route_to_str (observed_route_identity u hs)))
      (utf8 (route_to_str (request_route_identity u)))"
  using assms unfolding observed_is_request_route [symmetric, where u = u]
  by (intro route_hash_eq)
    (simp_all add: observed_route_identity_def request_route_identity_def Let_def observable_def)

theorem route_keys_agree_witness:
  "route_hash (observed_route_identity ''https://h/v1'' [(''Date'', ''x'')]) =
   route_hash (request_route_identity ''https://h/v1'')"
proof -
  have "endpoint_identity ''https://h/v1'' \<noteq> []" by code_simp
  moreover have "filter (\<lambda>(n, v). py_lower n \<in> set route_signals) [(''Date'', ''x'' :: string)] = []"
    by code_simp
  ultimately show ?thesis using route_keys_agree [of "''https://h/v1''" "[(''Date'', ''x'')]"] by blast
qed

section \<open>The warm in the observer's eyes\<close>

lemma json_field_cong: "dget w k = dget b k \<Longrightarrow> json_field k w = json_field k b"
  by simp

lemma bound_fields_disjoint:
  assumes "k \<in> {''model'', ''messages'', ''system'', ''tools'', ''functions'', ''prompt''}"
  shows "k \<notin> insert ''stream'' (set OUTPUT_BOUND_FIELDS)"
  using assms by (auto simp: OUTPUT_BOUND_FIELDS_def)

lemma built_content:
  assumes "build_warm_request (Raw b) = Inr (Some w)"
  shows "model_field w = model_field b" "non_system_messages w = non_system_messages b"
    "system_content frepr w = system_content frepr b" "tools_field w = tools_field b"
    "infer_api_mode path (Some w) = infer_api_mode path (Some b)"
proof -
  have g: "dget w k = dget b k"
    if "k \<in> {''model'', ''messages'', ''system'', ''tools'', ''functions'', ''prompt''}" for k
    using openai.build_frame [OF assms bound_fields_disjoint [OF that]] .
  have f: "json_field k w = json_field k b"
    if "k \<in> {''model'', ''messages'', ''system'', ''tools'', ''functions'', ''prompt''}" for k
    using g [OF that] by (rule json_field_cong)
  show "model_field w = model_field b" unfolding model_field_def by (simp only: f insert_iff simp_thms)
  show "non_system_messages w = non_system_messages b"
    unfolding non_system_messages_def by (simp only: f insert_iff simp_thms)
  show "system_content frepr w = system_content frepr b"
    unfolding system_content_def by (simp only: f insert_iff simp_thms)
  show "tools_field w = tools_field b"
    unfolding tools_field_def by (simp only: f insert_iff simp_thms)
  show "infer_api_mode path (Some w) = infer_api_mode path (Some b)"
    unfolding infer_api_mode_def has_key_def by (simp only: g insert_iff simp_thms option.case)
qed

lemma built_fields:
  assumes "build_warm_request (Raw b) = Inr (Some w)"
  shows "\<not> json_truthy (json_field ''stream'' w)"
    "json_field ''max_tokens'' w \<in> {JInt 1, json_field ''max_tokens'' b}"
proof -
  obtain f where f: "f \<in> set OUTPUT_BOUND_FIELDS" "w = dset (stream_off b) f (JInt 1)"
    using build_Raw_Some [OF assms] by metis
  then have s: "f \<noteq> ''stream''" by (auto simp: OUTPUT_BOUND_FIELDS_def)
  show "\<not> json_truthy (json_field ''stream'' w)"
    using f s by (simp add: stream_off_def has_key_def)
  show "json_field ''max_tokens'' w \<in> {JInt 1, json_field ''max_tokens'' b}"
    using f by simp
qed

lemma build_canonical_fields:
  "build_canonical_request loads frepr as_int body path u r a = Inr c \<longleftrightarrow>
     (let kvs = opt_or (json_or_none loads body) []; e = endpoint_identity u in
      \<exists>m ms sy mt. model_field kvs = Inr m \<and> non_system_messages kvs = Inr ms \<and>
        system_content frepr kvs = Inr sy \<and> max_tokens_field as_int kvs = Inr mt \<and>
        from_content frepr (provider_from_upstream e) m (infer_api_mode path (json_or_none loads body))
          e a (history_text frepr ms) sy (tools_field kvs) r mt
          (json_truthy (json_field ''stream'' kvs)) None = Inr c)"
  unfolding build_canonical_request_def Let_def by (simp del: json_field.simps)

lemma from_content_bounds:
  assumes "from_content frepr p m mo e a h sy ts r mt st None = Inr c"
    and "mt' = Some 1 \<or> mt' = mt"
  shows "\<exists>c'. from_content frepr p m mo e a h sy ts r mt' st' None = Inr c' \<and>
    identity_dump c' = identity_dump c \<and> cr_stream c' = st' \<and> cr_max_tokens c' = mt' \<and>
    cr_max_tokens c = mt"
  using assms
  by (auto simp: from_content_def Let_def valid_canonical_def valid_identity_def identity_dump_def
      split: if_splits)

text \<open>C18: The warm the adapter builds from a client request is, to the relay's own observer, the same
  physical cache entry: whenever the client request has a canonical form, so has the warm, with the
  same cache fingerprint, never streaming, and with its \<open>max_tokens\<close> either 1 or the client's
  (when another output bound was the one lowered). Pydantic is only relied on to accept 1 as an
  integer.\<close>

theorem warm_keeps_cache_identity:
  assumes "json_or_none loads body = Some b" and "build_warm_request (Raw b) = Inr (Some w)"
    and "json_or_none loads warm_body = Some w" and "as_int (JInt 1) = Some 1"
    and "build_canonical_request loads frepr as_int body path u r a = Inr c"
  shows "\<exists>c'. build_canonical_request loads frepr as_int warm_body path u r a = Inr c' \<and>
    cache_fingerprint frepr c' = cache_fingerprint frepr c \<and> \<not> cr_stream c' \<and>
    cr_max_tokens c' \<in> {Some 1, cr_max_tokens c}"
proof -
  obtain m ms sy mt where o: "model_field b = Inr m" "non_system_messages b = Inr ms"
    "system_content frepr b = Inr sy" "max_tokens_field as_int b = Inr mt"
    and fc: "from_content frepr (provider_from_upstream (endpoint_identity u)) m
      (infer_api_mode path (Some b)) (endpoint_identity u) a (history_text frepr ms) sy (tools_field b)
      r mt (json_truthy (json_field ''stream'' b)) None = Inr c"
    using assms(5) unfolding build_canonical_fields assms(1) Let_def opt_or.simps by metis
  obtain mt' where mt': "max_tokens_field as_int w = Inr mt'" "mt' = Some 1 \<or> mt' = mt"
    using built_fields(2) [OF assms(2)] o(4) assms(4)
    by (auto simp: max_tokens_field_def simp del: json_field.simps)
  obtain c' where "from_content frepr (provider_from_upstream (endpoint_identity u)) m
      (infer_api_mode path (Some b)) (endpoint_identity u) a (history_text frepr ms) sy (tools_field b)
      r mt' (json_truthy (json_field ''stream'' w)) None = Inr c'"
    "identity_dump c' = identity_dump c" "cr_stream c' = json_truthy (json_field ''stream'' w)"
    "cr_max_tokens c' = mt'" "cr_max_tokens c = mt"
    using from_content_bounds [OF fc mt'(2)] by blast
  moreover have "build_canonical_request loads frepr as_int warm_body path u r a = Inr c'"
    unfolding build_canonical_fields assms(3) Let_def opt_or.simps built_content [OF assms(2)]
    using o mt'(1) calculation(1) by blast
  ultimately show ?thesis
    using built_fields(1) [OF assms(2)] mt'(2) by (auto simp: cache_fingerprint_def)
qed

lemma hexdigest_sha_nonempty: "hexdigest (sha256 x) \<noteq> []"
  using length_hexdigest [of "sha256 x"] by auto

lemma hash_content_nonempty: "hash_content x \<noteq> []"
  by (cases x) (simp_all add: hexdigest_sha_nonempty)

definition sample_loads :: "byte list \<Rightarrow> json option" where
  "sample_loads b = (if b = [1] then Some (JObj (snap_body sample_snapshot))
     else if b = [2] then Some (JObj [(''model'', JStr ''m''), (''stream'', JBool False),
        (''max_completion_tokens'', JInt 1)]) else None)"

definition sample_int :: "json \<Rightarrow> int option" where
  "sample_int v = (case v of JInt n \<Rightarrow> Some n | _ \<Rightarrow> None)"

lemma sample_json:
  "json_or_none sample_loads [1] = Some (snap_body sample_snapshot)"
  "json_or_none sample_loads [2] = Some [(''model'', JStr ''m''), (''stream'', JBool False),
     (''max_completion_tokens'', JInt 1)]"
  by (simp_all add: json_or_none_def sample_loads_def)

lemma sample_url:
  "endpoint_identity ''https://h/v1'' = ''https://h/v1''" "provider_from_upstream ''https://h/v1'' = ''h''"
  by code_simp+

lemma sample_canonical:
  "\<exists>c. build_canonical_request sample_loads (\<lambda>_. ''0'') sample_int [1] ''/v1/chat/completions''
     ''https://h/v1'' None ''a'' = Inr c"
  by (simp add: build_canonical_request_def sample_json sample_url sample_snapshot_def model_field_def
      non_system_messages_def system_content_def max_tokens_field_def from_content_def
      valid_canonical_def valid_identity_def hexdigest_sha_nonempty hash_content_nonempty Let_def
      split: option.split)

lemma sample_warm_canonical:
  "\<exists>c. build_canonical_request sample_loads (\<lambda>_. ''0'') sample_int [2] ''/v1/chat/completions''
     ''https://h/v1'' None ''a'' = Inr c"
  by (simp add: build_canonical_request_def sample_json sample_url model_field_def
      non_system_messages_def system_content_def max_tokens_field_def from_content_def
      valid_canonical_def valid_identity_def hexdigest_sha_nonempty hash_content_nonempty Let_def
      split: option.split)

theorem warm_keeps_cache_identity_witness:
  "\<exists>c'. build_canonical_request sample_loads (\<lambda>_. ''0'') sample_int [2] ''/v1/chat/completions''
     ''https://h/v1'' None ''a'' = Inr c' \<and> \<not> cr_stream c'"
proof -
  have b: "build_warm_request (Raw (snap_body sample_snapshot)) =
      Inr (Some [(''model'', JStr ''m''), (''stream'', JBool False), (''max_completion_tokens'', JInt 1)])"
    by (simp add: build_Raw stream_off_def has_key_def OUTPUT_BOUND_FIELDS_def sample_snapshot_def)
  obtain c where c: "build_canonical_request sample_loads (\<lambda>_. ''0'') sample_int [1]
      ''/v1/chat/completions'' ''https://h/v1'' None ''a'' = Inr c"
    using sample_canonical ..
  have "sample_int (JInt 1) = Some 1" by (simp add: sample_int_def)
  from warm_keeps_cache_identity [OF sample_json(1) b sample_json(2) this c] show ?thesis by blast
qed

section \<open>The body cache is bounded and first-in first-out\<close>

definition cache_ok :: "body_cache \<Rightarrow> bool" where
  "cache_ok cache \<longleftrightarrow> distinct (map fst cache) \<and> length cache \<le> BODY_CACHE_MAX_SESSIONS \<and>
     (\<forall>s b. dget cache s = Some b \<longrightarrow> length b \<le> BODY_CACHE_MAX_BYTES)"

lemma length_dset: "length (dset d k v) = (if k \<in> dkeys d then length d else Suc (length d))"
  by (induction d) auto

lemma dget_tl: "distinct (map fst d) \<Longrightarrow> d \<noteq> [] \<Longrightarrow>
    dget (tl d) k = (if k = fst (hd d) then None else dget d k)"
  by (cases d) (auto simp: dget_None_iff rev_image_eqI)

lemma remember_cases:
  obtains "remember_body en cache session body = (cache, None)"
  | s b where "session = Some s" "body = Some b" "length b \<le> BODY_CACHE_MAX_BYTES" "en"
      "remember_body en cache session body =
        (dset (if s \<notin> dkeys cache \<and> BODY_CACHE_MAX_SESSIONS \<le> length cache then tl cache else cache) s b,
         dget cache s)"
  by (cases session; cases body; cases "en"; cases "BODY_CACHE_MAX_BYTES < length (the body)")
    (auto simp: remember_body_def Let_def)

lemma remember_ok:
  assumes "cache_ok cache" shows "cache_ok (fst (remember_body en cache session body))"
proof (cases rule: remember_cases [of "en" cache session body])
  case 1
  then show ?thesis using assms by simp
next
  case (2 s b)
  define c where "c = (if s \<notin> dkeys cache \<and> BODY_CACHE_MAX_SESSIONS \<le> length cache then tl cache else cache)"
  have d: "distinct (map fst c)" using assms by (simp add: c_def cache_ok_def map_tl distinct_tl)
  have l: "length (dset c s b) \<le> BODY_CACHE_MAX_SESSIONS"
    using assms by (auto simp: c_def length_dset cache_ok_def BODY_CACHE_MAX_SESSIONS_def)
  have "length x \<le> BODY_CACHE_MAX_BYTES" if "dget c k = Some x" for k x
  proof -
    have "(k, x) \<in> set c" using that by (rule dget_SomeD)
    then have "(k, x) \<in> set cache" unfolding c_def by (cases cache) (auto split: if_splits)
    then show ?thesis using assms unfolding cache_ok_def by (metis map_of_eq_Some_iff)
  qed
  then show ?thesis using 2 d l by (simp add: cache_ok_def c_def [symmetric])
qed

end
