(* ===== verification/Regex.thy ===== *)
theory Regex
  imports PyText
begin

text \<open>
  The part of Python's \<open>re\<close> that the churn classifier and the duration history use: character
  classes with repetition bounds, word boundaries, sequences, alternatives and optional groups. No
  pattern of the code captures or refers back, and only the existence and the start of a match are
  used, so a pattern is the relation between the start and the end of its matches. \<open>ends\<close>
  computes it; the inductive \<open>matches\<close> is its definition by the grammar, and the two agree.
\<close>

datatype regex = Boundary | Chars "char \<Rightarrow> bool" nat "nat option" | Cat regex regex
  | Alt regex regex | Opt regex

definition is_word :: "char \<Rightarrow> bool" where
  \<comment> \<open>\<open>\w\<close> on one code point below 256.\<close>
  "is_word c \<longleftrightarrow> (let n = code c in 48 \<le> n \<and> n \<le> 57 \<or> 65 \<le> n \<and> n \<le> 90 \<or> n = 95 \<or>
     97 \<le> n \<and> n \<le> 122 \<or> n \<in> {170, 178, 179, 181, 185, 186, 188, 189, 190} \<or>
     192 \<le> n \<and> n \<noteq> 215 \<and> n \<noteq> 247)"

definition word_at :: "string \<Rightarrow> nat \<Rightarrow> bool" where
  "word_at s i \<longleftrightarrow> i < length s \<and> is_word (s ! i)"

definition at_boundary :: "string \<Rightarrow> nat \<Rightarrow> bool" where
  "at_boundary s i \<longleftrightarrow> (0 < i \<and> word_at s (i - 1)) \<noteq> word_at s i"

fun ends :: "regex \<Rightarrow> string \<Rightarrow> nat \<Rightarrow> nat list" where
  "ends Boundary s i = (if at_boundary s i then [i] else [])"
| "ends (Chars p lo hi) s i =
     (let n = length (takeWhile p (drop i s)); m = (case hi of None \<Rightarrow> n | Some h \<Rightarrow> min h n)
      in map (\<lambda>k. i + k) [lo..<Suc m])"
| "ends (Cat a b) s i = concat (map (ends b s) (ends a s i))"
| "ends (Alt a b) s i = ends a s i @ ends b s i"
| "ends (Opt a) s i = i # ends a s i"

definition search :: "regex \<Rightarrow> string \<Rightarrow> nat option" where
  \<comment> \<open>\<open>pattern.search(s)\<close>, as the start of the match.\<close>
  "search r s = find (\<lambda>i. ends r s i \<noteq> []) [0..<Suc (length s)]"

section \<open>Building patterns\<close>

definition lit :: "char \<Rightarrow> regex" where
  "lit c = Chars (\<lambda>x. x = c) 1 (Some 1)"

definition lit_ci :: "char \<Rightarrow> regex" where
  "lit_ci c = Chars (\<lambda>x. lower_char x = c) 1 (Some 1)"

definition one_of :: "string \<Rightarrow> regex" where
  "one_of cs = Chars (\<lambda>x. x \<in> set cs) 1 (Some 1)"

definition digits :: "nat \<Rightarrow> nat \<Rightarrow> regex" where
  "digits lo hi = Chars is_digit lo (Some hi)"

fun seq :: "regex list \<Rightarrow> regex" where
  "seq [] = Chars (\<lambda>_. False) 0 (Some 0)"
| "seq [r] = r"
| "seq (r # rs) = Cat r (seq rs)"

fun any_of :: "regex list \<Rightarrow> regex" where
  "any_of [] = Chars (\<lambda>_. False) 1 (Some 1)"
| "any_of [r] = r"
| "any_of (r # rs) = Alt r (any_of rs)"

section \<open>What a pattern matches\<close>

inductive matches :: "string \<Rightarrow> regex \<Rightarrow> nat \<Rightarrow> nat \<Rightarrow> bool" for s where
  m_boundary: "at_boundary s i \<Longrightarrow> matches s Boundary i i"
| m_chars: "lo \<le> k \<Longrightarrow> (case hi of None \<Rightarrow> True | Some h \<Rightarrow> k \<le> h) \<Longrightarrow> i + k \<le> max i (length s) \<Longrightarrow>
    list_all p (take k (drop i s)) \<Longrightarrow> matches s (Chars p lo hi) i (i + k)"
| m_cat: "matches s a i j \<Longrightarrow> matches s b j k \<Longrightarrow> matches s (Cat a b) i k"
| m_left: "matches s a i j \<Longrightarrow> matches s (Alt a b) i j"
| m_right: "matches s b i j \<Longrightarrow> matches s (Alt a b) i j"
| m_skip: "matches s (Opt a) i i"
| m_take: "matches s a i j \<Longrightarrow> matches s (Opt a) i j"

inductive_simps matches_simps [simp]:
  "matches s Boundary i j" "matches s (Chars p lo hi) i j" "matches s (Cat a b) i j"
  "matches s (Alt a b) i j" "matches s (Opt a) i j"

lemma takeWhile_run:
  "k \<le> length (takeWhile p t) \<longleftrightarrow> k \<le> length t \<and> list_all p (take k t)"
proof (induction t arbitrary: k)
  case (Cons c t)
  then show ?case by (cases k) auto
qed auto

theorem ends_matches: "j \<in> set (ends r s i) \<longleftrightarrow> matches s r i j"
proof (induction r arbitrary: i j)
  case (Chars p lo hi)
  have "j \<in> set (ends (Chars p lo hi) s i) \<longleftrightarrow>
      (\<exists>k. j = i + k \<and> lo \<le> k \<and> k \<le> length (takeWhile p (drop i s)) \<and>
         (case hi of None \<Rightarrow> True | Some h \<Rightarrow> k \<le> h))"
    by (cases hi) (auto simp: Let_def image_iff less_Suc_eq_le)
  also have "\<dots> \<longleftrightarrow> matches s (Chars p lo hi) i j"
    unfolding takeWhile_run by (cases "i \<le> length s") (auto simp: le_diff_conv2 max_def)
  finally show ?case .
qed auto

lemma find_upt: "find P [0..<n] = Some i \<longleftrightarrow> i < n \<and> P i \<and> (\<forall>k<i. \<not> P k)"
  by (auto simp: find_Some_iff)

theorem search_leftmost:
  "search r s = Some i \<longleftrightarrow>
     i \<le> length s \<and> (\<exists>j. matches s r i j) \<and> (\<forall>k<i. \<forall>j. \<not> matches s r k j)"
proof -
  have "ends r s k \<noteq> [] \<longleftrightarrow> (\<exists>j. matches s r k j)" for k
    by (metis ends_matches last_in_set list.set_intros(1) neq_Nil_conv empty_iff list.set(1))
  then show ?thesis unfolding search_def find_upt by (simp add: less_Suc_eq_le)
qed

lemma search_bound: "search r s = Some i \<Longrightarrow> i \<le> length s"
  by (simp add: search_leftmost)

end
