(* ===== verification/Churn.thy ===== *)
theory Churn
  imports Regex Observation "HOL-Library.Sublist"
begin

text \<open>
  The cache churn detector, \<open>cachepilot_core/churn.py\<close>: the layers of a prompt, their hashes,
  the classification of a transition between two requests with its cause and confidence, and the
  first divergent byte. The \<open>snippet\<close> of a divergence is its text with two flags for the
  ellipses around it. The lemmas show when the layered view agrees with the hashes the relay stores,
  and that a reported divergence is a real one.
\<close>

section \<open>Layers\<close>

datatype layer = System_prefix | System_suffix | Tools | History | History_tail | Route | Model
  | Cache_key

definition CONTENT_LAYER_ORDER :: "layer list" where
  "CONTENT_LAYER_ORDER = [System_prefix, System_suffix, Tools, History, History_tail]"

fun layer_index :: "layer \<Rightarrow> nat" where
  "layer_index System_prefix = 0" | "layer_index System_suffix = 1" | "layer_index Tools = 2"
| "layer_index History = 3" | "layer_index History_tail = 4" | "layer_index Route = 5"
| "layer_index Model = 6" | "layer_index Cache_key = 7"

lemma layer_index_inject [simp]: "layer_index a = layer_index b \<longleftrightarrow> a = b"
  by (cases a; cases b) auto

text \<open>Layers are ordered by where they stand in the prompt.\<close>

instantiation layer :: linorder
begin

definition less_eq_layer :: "layer \<Rightarrow> layer \<Rightarrow> bool" where
  "less_eq_layer a b \<longleftrightarrow> layer_index a \<le> layer_index b"

definition less_layer :: "layer \<Rightarrow> layer \<Rightarrow> bool" where
  "less_layer a b \<longleftrightarrow> layer_index a < layer_index b"

instance
  by standard (auto simp: less_eq_layer_def less_layer_def)

end

lemma content_layers_sorted:
  "sorted CONTENT_LAYER_ORDER" "l \<in> set CONTENT_LAYER_ORDER \<Longrightarrow>
     takeWhile (\<lambda>k. k \<noteq> l) CONTENT_LAYER_ORDER = filter (\<lambda>k. k < l) CONTENT_LAYER_ORDER"
  by (auto simp: CONTENT_LAYER_ORDER_def less_eq_layer_def less_layer_def)

definition is_hex_char :: "char \<Rightarrow> bool" where
  "is_hex_char c \<longleftrightarrow> is_digit c \<or> 97 \<le> code c \<and> code c \<le> 102 \<or> 65 \<le> code c \<and> code c \<le> 70"

definition hexes :: "nat \<Rightarrow> regex" where
  "hexes n = Chars is_hex_char n (Some n)"

definition date_regex :: regex where
  "date_regex = seq [digits 4 4, lit CHR ''-'', digits 2 2, lit CHR ''-'', digits 2 2]"

definition clock_regex :: regex where
  \<comment> \<open>Hours and minutes with optional seconds.\<close>
  "clock_regex = seq [digits 1 2, lit CHR '':'', digits 2 2, Opt (seq [lit CHR '':'', digits 2 2])]"

definition VOLATILE_PATTERNS :: "regex list" where
  "VOLATILE_PATTERNS =
    [seq [Boundary, date_regex, one_of ''T '', clock_regex,
       Opt (seq [lit CHR ''.'', Chars is_digit 1 None]),
       Opt (any_of [lit CHR ''Z'',
              seq [one_of ''+-'', digits 2 2, Opt (lit CHR '':''), digits 2 2]]),
       Boundary],
     seq [Boundary, date_regex, Boundary],
     seq [Boundary, clock_regex, Chars is_space 0 None,
       Opt (any_of [seq [lit CHR ''A'', lit CHR ''M''], seq [lit CHR ''P'', lit CHR ''M''],
              seq [lit CHR ''a'', lit CHR ''m''], seq [lit CHR ''p'', lit CHR ''m'']]),
       Boundary],
     seq [Boundary, hexes 8, lit CHR ''-'', hexes 4, lit CHR ''-'', hexes 4, lit CHR ''-'', hexes 4,
       lit CHR ''-'', hexes 12, Boundary]]"

definition is_label_sep :: "char \<Rightarrow> bool" where
  "is_label_sep c \<longleftrightarrow> c \<in> set ''-_:'' \<or> is_space c"

definition is_label_char :: "char \<Rightarrow> bool" where
  "is_label_char c \<longleftrightarrow> is_digit c \<or> 65 \<le> code c \<and> code c \<le> 90 \<or> 97 \<le> code c \<and> code c \<le> 122 \<or>
     c \<in> set ''_-''"

definition PREFIX_VOLATILE_PATTERNS :: "regex list" where
  "PREFIX_VOLATILE_PATTERNS =
    [seq [Boundary, any_of [seq [lit CHR ''1'', one_of ''6789''], seq [lit CHR ''2'', lit CHR ''0'']],
       digits 8 8, Boundary],
     seq [Boundary, Chars is_hex_char 8 None, Boundary],
     seq [Boundary,
       any_of (map (\<lambda>w. seq (map lit_ci w)) [''session'', ''run'', ''turn'', ''attempt'', ''job'', ''id'']),
       Chars is_label_sep 1 None, Chars is_label_char 4 None, Boundary]]"

definition PREFIX_VOLATILE_RADIUS :: nat where "PREFIX_VOLATILE_RADIUS = 20"

definition SNIPPET_RADIUS :: nat where "SNIPPET_RADIUS = 40"

definition CHARS_PER_TOKEN :: nat where "CHARS_PER_TOKEN = 4"

fun split_at_first :: "regex list \<Rightarrow> string \<Rightarrow> string \<times> string" where
  \<comment> \<open>The loop over the patterns: the first pattern with a match decides.\<close>
  "split_at_first [] s = (s, [])"
| "split_at_first (r # rs) s =
     (case search r s of Some i \<Rightarrow> (take i s, drop i s) | None \<Rightarrow> split_at_first rs s)"

definition split_system_layers :: "string \<Rightarrow> string \<times> string" where
  "split_system_layers s = (if s = [] then ([], []) else split_at_first VOLATILE_PATTERNS s)"

record layered_hashes =
  lh_system_prefix :: "string option"
  lh_system_suffix :: "string option"
  lh_system :: "string option"
  lh_tools :: "string option"
  lh_tools_set :: "string option"
  lh_history :: "string option"
  lh_history_prefix :: "string option"
  lh_history_tail :: "string option"
  lh_route :: "string option"
  lh_model :: "string option"
  lh_cache_key :: "string option"

record request_content =
  rc_system :: "string option"
  rc_messages :: "json list"
  rc_tools :: "json list option"
  rc_route_hash :: "string option"
  rc_model :: "string option"
  rc_cache_key :: "string option"

section \<open>Content\<close>

definition system_layer :: "request_content \<Rightarrow> string \<times> string" where
  "system_layer c = split_system_layers (opt_or (rc_system c) [])"

definition tools_json :: "request_content \<Rightarrow> json" where
  "tools_json c = (case rc_tools c of None \<Rightarrow> JNull | Some ts \<Rightarrow> JArr ts)"

definition history_prefix :: "request_content \<Rightarrow> json" where
  \<comment> \<open>\<open>messages[:-1]\<close>\<close>
  "history_prefix c = JArr (butlast (rc_messages c))"

definition history_tail :: "request_content \<Rightarrow> json" where
  \<comment> \<open>\<open>messages[-1:]\<close>\<close>
  "history_tail c = JArr (if rc_messages c = [] then [] else [last (rc_messages c)])"

definition hash_text :: "string \<Rightarrow> string" where
  "hash_text s = hash_content (CStr s)"

definition to_hashes :: "(pyfloat \<Rightarrow> string) \<Rightarrow> request_content \<Rightarrow> layered_hashes" where
  "to_hashes frepr c =
     \<lparr>lh_system_prefix = Some (hash_text (fst (system_layer c))),
      lh_system_suffix = Some (hash_text (snd (system_layer c))),
      lh_system = Some (hash_content (content_of (rc_system c))),
      lh_tools = Some (case rc_tools c of
          Some ts \<Rightarrow> hash_text (canonical_json frepr (JArr ts)) | None \<Rightarrow> hash_content CNone),
      lh_tools_set = Some (tools_set_hash frepr (rc_tools c)),
      lh_history = (if rc_messages c = [] then None
                    else Some (hash_text (canonical_json frepr (JArr (rc_messages c))))),
      lh_history_prefix = Some (hash_text (canonical_json frepr (history_prefix c))),
      lh_history_tail = Some (hash_text (canonical_json frepr (history_tail c))),
      lh_route = rc_route_hash c, lh_model = rc_model c, lh_cache_key = rc_cache_key c\<rparr>"

definition serialize :: "(pyfloat \<Rightarrow> string) \<Rightarrow> request_content \<Rightarrow> string" where
  "serialize frepr c = canonical_json frepr (JObj
     [(''system'', opt_json (rc_system c)), (''messages'', JArr (rc_messages c)),
      (''tools'', tools_json c), (''route_hash'', opt_json (rc_route_hash c)),
      (''model'', opt_json (rc_model c)), (''cache_key'', opt_json (rc_cache_key c))])"

fun is_object :: "json \<Rightarrow> bool" where
  "is_object (JObj kvs) = True"
| "is_object _ = False"

definition request_content_from_payload ::
  "(pyfloat \<Rightarrow> string) \<Rightarrow> json_body \<Rightarrow> string option \<Rightarrow> string option \<Rightarrow> string option \<Rightarrow>
     py_error + request_content" where
  \<comment> \<open>The \<open>ValidationError\<close>s are those of the \<open>Sequence[Mapping]\<close> and \<open>str\<close> fields.\<close>
  "request_content_from_payload frepr kvs route model cache_key =
     res_bind (json_iter (json_field ''messages'' kvs)) (\<lambda>ms.
       let texts = map (message_text frepr) (filter is_system_message ms);
           sys = (case json_field ''system'' kvs of
                    JStr s \<Rightarrow> Some s
                  | _ \<Rightarrow> if texts = [] then None else Some (py_join [char_of (10::nat)] texts));
           tools = tools_field kvs
       in if \<not> list_all is_object (opt_or tools []) then Inl ValidationError
          else res_bind
            (case model of Some m \<Rightarrow> Inr (Some m)
             | None \<Rightarrow> (case json_field ''model'' kvs of
                 JNull \<Rightarrow> Inr None | JStr s \<Rightarrow> Inr (Some s) | _ \<Rightarrow> Inl ValidationError))
            (\<lambda>model. Inr \<lparr>rc_system = sys, rc_messages = filter (\<lambda>m. \<not> is_system_message m) ms,
               rc_tools = tools, rc_route_hash = route, rc_model = model, rc_cache_key = cache_key\<rparr>))"

section \<open>Classification\<close>

record snippet =
  sn_cut_before :: bool
  sn_text :: string
  sn_cut_after :: bool

record divergence_hint =
  dh_layer :: layer
  dh_offset :: nat
  dh_snippet :: snippet

datatype cause = Router_affinity_loss | Provider_failover | Changing_memory_prefixes
  | Volatile_value_inserted | Tool_list_mutation | History_rewritten | History_boundary_churn
  | Cache_key_mutation | System_suffix_churn | Volatile_value_in_prefix | System_prompt_changed
  | History_changed | Outside_tracked_layers

record churn_classification =
  cc_system_changed :: bool
  cc_tools_changed :: bool
  cc_history_changed :: bool
  cc_route_changed :: bool
  cc_cache_key_changed :: bool
  cc_model_changed :: bool
  cc_system_prefix_changed :: "bool option"
  cc_system_suffix_changed :: "bool option"
  cc_history_prefix_changed :: "bool option"
  cc_history_tail_changed :: "bool option"
  cc_first_divergent_byte :: "divergence_hint option"
  cc_estimated_prefix_loss_tokens :: "nat option"
  cc_likely_cause :: "cause option"
  cc_confidence :: "flt option"

definition empty_classification :: churn_classification where
  "empty_classification = \<lparr>cc_system_changed = False, cc_tools_changed = False,
     cc_history_changed = False, cc_route_changed = False, cc_cache_key_changed = False,
     cc_model_changed = False, cc_system_prefix_changed = None, cc_system_suffix_changed = None,
     cc_history_prefix_changed = None, cc_history_tail_changed = None,
     cc_first_divergent_byte = None, cc_estimated_prefix_loss_tokens = None,
     cc_likely_cause = None, cc_confidence = None\<rparr>"

definition changed_layers :: "churn_classification \<Rightarrow> layer list" where
  "changed_layers c =
     (if cc_system_prefix_changed c = Some True then [System_prefix] else []) @
     (if cc_system_suffix_changed c = Some True then [System_suffix] else []) @
     (if cc_tools_changed c then [Tools] else []) @
     (if cc_history_prefix_changed c = Some True then [History] else []) @
     (if cc_history_tail_changed c = Some True then [History_tail] else []) @
     (if cc_route_changed c then [Route] else []) @
     (if cc_model_changed c then [Model] else []) @
     (if cc_cache_key_changed c then [Cache_key] else [])"

fun CAUSE_AND_BASE :: "layer \<Rightarrow> cause \<times> flt" where
  "CAUSE_AND_BASE Route = (Router_affinity_loss, 92 / 100)"
| "CAUSE_AND_BASE Model = (Provider_failover, 85 / 100)"
| "CAUSE_AND_BASE System_prefix = (Changing_memory_prefixes, 90 / 100)"
| "CAUSE_AND_BASE System_suffix = (Volatile_value_inserted, 85 / 100)"
| "CAUSE_AND_BASE Tools = (Tool_list_mutation, 80 / 100)"
| "CAUSE_AND_BASE History = (History_rewritten, 75 / 100)"
| "CAUSE_AND_BASE History_tail = (History_boundary_churn, 70 / 100)"
| "CAUSE_AND_BASE Cache_key = (Cache_key_mutation, 70 / 100)"

definition only_system_changed :: "churn_classification \<Rightarrow> bool" where
  "only_system_changed c \<longleftrightarrow> cc_system_changed c \<and>
     \<not> (cc_tools_changed c \<or> cc_history_changed c \<or> cc_route_changed c \<or> cc_cache_key_changed c \<or>
        cc_model_changed c)"

definition primary_cause :: "churn_classification \<Rightarrow> bool \<Rightarrow> (cause \<times> flt) option" where
  "primary_cause c cache_identity_changed =
     (if cc_route_changed c then Some (CAUSE_AND_BASE Route)
      else if cc_model_changed c then Some (CAUSE_AND_BASE Model)
      else if cc_system_suffix_changed c = Some True \<and> cc_system_prefix_changed c = Some False then
        (if only_system_changed c then Some (System_suffix_churn, 85 / 100)
         else Some (CAUSE_AND_BASE System_suffix))
      else if cc_system_prefix_changed c = Some True \<and> cc_system_suffix_changed c = Some False then
        Some (CAUSE_AND_BASE System_prefix)
      else
        (case filter (\<lambda>l. l \<in> set (changed_layers c)) CONTENT_LAYER_ORDER of
           l # _ \<Rightarrow> Some (CAUSE_AND_BASE l)
         | [] \<Rightarrow>
             if cc_system_changed c then Some (System_prompt_changed, 65 / 100)
             else if cc_history_changed c then Some (History_changed, 65 / 100)
             else if cc_cache_key_changed c then Some (CAUSE_AND_BASE Cache_key)
             else if cache_identity_changed then Some (Outside_tracked_layers, 60 / 100)
             else None))"

definition flat_flags :: "churn_classification \<Rightarrow> bool list" where
  "flat_flags c = [cc_system_changed c, cc_tools_changed c, cc_history_changed c,
     cc_route_changed c, cc_cache_key_changed c, cc_model_changed c]"

definition confidence_of :: "flt \<Rightarrow> churn_classification \<Rightarrow> flt" where
  "confidence_of base c =
     (let changed = int (length (filter (\<lambda>b. b) (flat_flags c)))
      in round_to 2 (max (50 / 100) (base - 10 / 100 * of_int (max 0 (changed - 1)))))"

definition maybe_differs :: "string option \<Rightarrow> string option \<Rightarrow> bool option" where
  "maybe_differs p c = (case (p, c) of (Some a, Some b) \<Rightarrow> Some (a \<noteq> b) | _ \<Rightarrow> None)"

definition classify_snapshots ::
  "layered_hashes \<Rightarrow> layered_hashes \<Rightarrow> bool \<Rightarrow> churn_classification" where
  "classify_snapshots p c cache_identity_changed =
     (let k = empty_classification\<lparr>cc_system_changed := lh_system p \<noteq> lh_system c,
            cc_tools_changed := lh_tools p \<noteq> lh_tools c,
            cc_history_changed := lh_history p \<noteq> lh_history c,
            cc_route_changed := lh_route p \<noteq> lh_route c, cc_model_changed := lh_model p \<noteq> lh_model c,
            cc_cache_key_changed := lh_cache_key p \<noteq> lh_cache_key c,
            cc_system_prefix_changed := maybe_differs (lh_system_prefix p) (lh_system_prefix c),
            cc_system_suffix_changed := maybe_differs (lh_system_suffix p) (lh_system_suffix c),
            cc_history_prefix_changed := maybe_differs (lh_history_prefix p) (lh_history_prefix c),
            cc_history_tail_changed := maybe_differs (lh_history_tail p) (lh_history_tail c)\<rparr>
      in case primary_cause k cache_identity_changed of
           None \<Rightarrow> k
         | Some (cause, base) \<Rightarrow>
             k\<lparr>cc_likely_cause := Some cause, cc_confidence := Some (confidence_of base k)\<rparr>)"

fun first_differing_index :: "string \<Rightarrow> string \<Rightarrow> nat" where
  "first_differing_index (a # as) (b # bs) =
     (if a = b then Suc (first_differing_index as bs) else 0)"
| "first_differing_index _ _ = 0"

definition snippet_at :: "string \<Rightarrow> nat \<Rightarrow> snippet" where
  "snippet_at text offset =
     (let start = offset - SNIPPET_RADIUS; stop = min (length text) (offset + SNIPPET_RADIUS)
      in \<lparr>sn_cut_before = (0 < start), sn_text = drop start (take stop text),
          sn_cut_after = (stop < length text)\<rparr>)"

fun layer_text :: "(pyfloat \<Rightarrow> string) \<Rightarrow> request_content \<Rightarrow> layer \<Rightarrow> string" where
  "layer_text frepr c System_prefix = fst (system_layer c)"
| "layer_text frepr c System_suffix = snd (system_layer c)"
| "layer_text frepr c Tools = canonical_json frepr (tools_json c)"
| "layer_text frepr c History = canonical_json frepr (history_prefix c)"
| "layer_text frepr c History_tail = canonical_json frepr (history_tail c)"
| "layer_text frepr c _ = []"

fun layer_hash :: "layered_hashes \<Rightarrow> layer \<Rightarrow> string option" where
  "layer_hash h System_prefix = lh_system_prefix h"
| "layer_hash h System_suffix = lh_system_suffix h"
| "layer_hash h Tools = lh_tools h"
| "layer_hash h History = lh_history_prefix h"
| "layer_hash h History_tail = lh_history_tail h"
| "layer_hash h _ = None"

definition first_divergence ::
  "(pyfloat \<Rightarrow> string) \<Rightarrow> request_content \<Rightarrow> request_content \<Rightarrow> layered_hashes \<Rightarrow> layered_hashes \<Rightarrow>
     divergence_hint option" where
  "first_divergence frepr p c hp hc =
     (case filter (\<lambda>l. layer_hash hp l \<noteq> layer_hash hc l) CONTENT_LAYER_ORDER of
        [] \<Rightarrow> None
      | l # _ \<Rightarrow>
          (let offset = first_differing_index (layer_text frepr p l) (layer_text frepr c l)
           in Some \<lparr>dh_layer = l, dh_offset = offset,
                dh_snippet = snippet_at (layer_text frepr c l) offset\<rparr>))"

definition prefix_window :: "string \<Rightarrow> nat \<Rightarrow> string" where
  "prefix_window pre offset =
     (let start = offset - PREFIX_VOLATILE_RADIUS;
          stop = min (length pre) (offset + PREFIX_VOLATILE_RADIUS)
      in drop start (take stop pre))"

definition refine_prefix_volatility ::
  "churn_classification \<Rightarrow> request_content \<Rightarrow> churn_classification" where
  "refine_prefix_volatility k c =
     (if cc_likely_cause k \<noteq> Some Changing_memory_prefixes then k
      else if \<not> (cc_system_prefix_changed k = Some True \<and> cc_system_suffix_changed k = Some False) then k
      else if \<not> only_system_changed k then k
      else case (cc_first_divergent_byte k, rc_system c) of
             (Some hint, Some s) \<Rightarrow>
               (let pre = fst (split_system_layers s) in
                if dh_layer hint \<noteq> System_prefix \<or> pre = [] then k
                else if list_ex (\<lambda>r. search r (prefix_window pre (dh_offset hint)) \<noteq> None)
                          PREFIX_VOLATILE_PATTERNS
                then k\<lparr>cc_likely_cause := Some Volatile_value_in_prefix,
                       cc_confidence := Some (confidence_of (85 / 100) k)\<rparr>
                else k)
           | _ \<Rightarrow> k)"

definition churn_classify ::
  "(pyfloat \<Rightarrow> string) \<Rightarrow> request_content \<Rightarrow> request_content \<Rightarrow> bool \<Rightarrow> churn_classification" where
  "churn_classify frepr p c cache_identity_changed =
     (let hp = to_hashes frepr p; hc = to_hashes frepr c;
          k = classify_snapshots hp hc cache_identity_changed;
          pt = serialize frepr p; ct = serialize frepr c;
          k = k\<lparr>cc_estimated_prefix_loss_tokens := Some (if pt = ct then 0
                  else (length pt - first_differing_index pt ct) div CHARS_PER_TOKEN)\<rparr>;
          k = k\<lparr>cc_first_divergent_byte := first_divergence frepr p c hp hc\<rparr>
      in refine_prefix_volatility k c)"

definition classify_hashes ::
  "layered_hashes \<Rightarrow> layered_hashes \<Rightarrow> bool \<Rightarrow> churn_classification" where
  "classify_hashes p c cache_identity_changed = classify_snapshots p c cache_identity_changed"

definition changed_frequency :: "bool list \<Rightarrow> string \<Rightarrow> string" where
  "changed_frequency flags subject =
     (let total = length flags; changed = length (filter (\<lambda>b. b) flags) in
      if total = 0 then ''no observations''
      else if changed = 0 then ''unchanged in the last '' @ nat_str total @ '' '' @ subject
      else ''changed '' @ nat_str changed @ ''/'' @ nat_str total @ '' '' @ subject)"

fun cause_text :: "cause \<Rightarrow> string" where
  "cause_text Router_affinity_loss = ''router affinity loss''"
| "cause_text Provider_failover = ''provider failover (model switched)''"
| "cause_text Changing_memory_prefixes = ''changing memory prefixes (static system prefix moved)''"
| "cause_text Volatile_value_inserted = ''volatile value inserted into prompt prefix''"
| "cause_text Tool_list_mutation = ''tool list mutation''"
| "cause_text History_rewritten = ''conversation history rewritten (compression/truncation)''"
| "cause_text History_boundary_churn = ''history-boundary churn (recent conversation tail moved)''"
| "cause_text Cache_key_mutation = ''prompt cache key mutation''"
| "cause_text System_suffix_churn = ''system_suffix_churn (volatile value in dynamic system suffix)''"
| "cause_text Volatile_value_in_prefix =
     ''volatile_value_in_prefix (volatile value inside static system prefix)''"
| "cause_text System_prompt_changed = ''system prompt changed''"
| "cause_text History_changed = ''conversation history changed''"
| "cause_text Outside_tracked_layers = ''cache identity changed outside the tracked layers''"

section \<open>The first difference is the longest common prefix\<close>

lemma first_differing_lcp: "first_differing_index a b = length (longest_common_prefix a b)"
  by (induction a b rule: first_differing_index.induct) auto

lemma first_differing_spec:
  "take (first_differing_index a b) a = take (first_differing_index a b) b"
  "first_differing_index a b \<le> length a" "first_differing_index a b \<le> length b"
  "first_differing_index a b < length a \<Longrightarrow> first_differing_index a b < length b \<Longrightarrow>
     a ! first_differing_index a b \<noteq> b ! first_differing_index a b"
  by (induction a b rule: first_differing_index.induct) auto

lemma first_differing_same: "first_differing_index a a = length a"
  by (induction a) auto

section \<open>Hashes stand for texts\<close>

definition layer_bytes :: "(pyfloat \<Rightarrow> string) \<Rightarrow> request_content \<Rightarrow> layer \<Rightarrow> byte list" where
  "layer_bytes frepr c l =
     (if l = Tools \<and> rc_tools c = None then [] else utf8 (layer_text frepr c l))"

lemma hash_text_eq: "hash_text a = hash_text b \<longleftrightarrow> a = b \<or> sha_collision (utf8 a) (utf8 b)"
  by (auto simp: hash_text_def sha_collision_def)

lemma utf8_bracket: "utf8 (CHR ''['' # s) \<noteq> []"
  by (simp add: utf8_def utf8_char_def Let_def)

lemma layer_hash_eq:
  assumes "l \<in> set CONTENT_LAYER_ORDER"
  shows "layer_hash (to_hashes frepr p) l = layer_hash (to_hashes frepr c) l \<longleftrightarrow>
    layer_text frepr p l = layer_text frepr c l \<or>
    sha_collision (layer_bytes frepr p l) (layer_bytes frepr c l)"
proof (cases "l = Tools")
  case True
  then show ?thesis
    using utf8_bracket utf8_bracket [symmetric]
    by (cases "rc_tools p"; cases "rc_tools c")
      (auto simp: to_hashes_def layer_bytes_def tools_json_def hash_text_def sha_collision_def)
next
  case False
  then show ?thesis
    using assms by (auto simp: CONTENT_LAYER_ORDER_def to_hashes_def layer_bytes_def hash_text_eq
      simp del: canonical_json.simps)
qed

section \<open>What a classification reports\<close>

lemma refine_cases:
  "refine_prefix_volatility k c = k \<or> cc_likely_cause k = Some Changing_memory_prefixes \<and>
     refine_prefix_volatility k c = k\<lparr>cc_likely_cause := Some Volatile_value_in_prefix,
       cc_confidence := Some (confidence_of (85 / 100) k)\<rparr>"
  by (cases "cc_first_divergent_byte k"; cases "rc_system c")
    (auto simp: refine_prefix_volatility_def Let_def)

lemma refine_keeps:
  "cc_first_divergent_byte (refine_prefix_volatility k c) = cc_first_divergent_byte k"
  "cc_estimated_prefix_loss_tokens (refine_prefix_volatility k c) = cc_estimated_prefix_loss_tokens k"
  using refine_cases [of k c] by auto

lemma churn_classify_fields:
  "cc_first_divergent_byte (churn_classify frepr p c chg) =
     first_divergence frepr p c (to_hashes frepr p) (to_hashes frepr c)"
  "cc_estimated_prefix_loss_tokens (churn_classify frepr p c chg) =
     Some (if serialize frepr p = serialize frepr c then 0
       else (length (serialize frepr p) - first_differing_index (serialize frepr p) (serialize frepr c))
         div CHARS_PER_TOKEN)"
  by (simp_all add: churn_classify_def Let_def refine_keeps)

lemma filter_Cons_takeWhile:
  "filter P xs = x # ys \<Longrightarrow> P x \<and> x \<in> set xs \<and> (\<forall>y\<in>set (takeWhile (\<lambda>z. z \<noteq> x) xs). \<not> P y)"
proof -
  assume a: "filter P xs = x # ys"
  then obtain us vs where x: "xs = us @ x # vs" "\<forall>u\<in>set us. \<not> P u" "P x"
    by (auto simp: filter_eq_Cons_iff)
  then have "x \<notin> set us" by blast
  then have "takeWhile (\<lambda>z. z \<noteq> x) xs = us" unfolding x(1) by (subst takeWhile_append2) auto
  then show ?thesis using x by simp
qed

text \<open>C20: A reported divergence is a real one, and the first. The two texts of the reported layer
  agree before the offset and differ at it (or one of them ends there); every layer before it in
  prefix order has the same text in both requests, up to an exhibited SHA-256 collision; and no
  divergence is reported exactly when all five layers agree in that sense. The estimated loss is a
  quarter of what the previous request has beyond the longest common prefix with the new one.\<close>

theorem divergence_is_real:
  "(case cc_first_divergent_byte (churn_classify frepr p c chg) of
      None \<Rightarrow> filter (\<lambda>l. layer_text frepr p l \<noteq> layer_text frepr c l \<and>
        \<not> sha_collision (layer_bytes frepr p l) (layer_bytes frepr c l)) CONTENT_LAYER_ORDER = []
    | Some h \<Rightarrow>
        (let a = layer_text frepr p (dh_layer h); b = layer_text frepr c (dh_layer h); n = dh_offset h
         in a \<noteq> b \<and> take n a = take n b \<and> n \<le> min (length a) (length b) \<and>
            (n = length a \<or> n = length b \<or> a ! n \<noteq> b ! n)) \<and>
        filter (\<lambda>l. layer_text frepr p l \<noteq> layer_text frepr c l \<and>
          \<not> sha_collision (layer_bytes frepr p l) (layer_bytes frepr c l))
          (filter (\<lambda>l. l < dh_layer h) CONTENT_LAYER_ORDER) = []) \<and>
   cc_estimated_prefix_loss_tokens (churn_classify frepr p c chg) =
     Some ((length (serialize frepr p) -
       length (longest_common_prefix (serialize frepr p) (serialize frepr c))) div 4)"
proof
  let ?D = "\<lambda>l. layer_hash (to_hashes frepr p) l \<noteq> layer_hash (to_hashes frepr c) l"
  let ?T = "\<lambda>l. layer_text frepr p l \<noteq> layer_text frepr c l \<and>
    \<not> sha_collision (layer_bytes frepr p l) (layer_bytes frepr c l)"
  have D: "?D l \<longleftrightarrow> ?T l" if "l \<in> set CONTENT_LAYER_ORDER" for l
    using layer_hash_eq [OF that] by blast
  show "case cc_first_divergent_byte (churn_classify frepr p c chg) of
      None \<Rightarrow> filter ?T CONTENT_LAYER_ORDER = []
    | Some h \<Rightarrow>
        (let a = layer_text frepr p (dh_layer h); b = layer_text frepr c (dh_layer h); n = dh_offset h
         in a \<noteq> b \<and> take n a = take n b \<and> n \<le> min (length a) (length b) \<and>
            (n = length a \<or> n = length b \<or> a ! n \<noteq> b ! n)) \<and>
        filter ?T (filter (\<lambda>l. l < dh_layer h) CONTENT_LAYER_ORDER) = []"
  proof (cases "filter ?D CONTENT_LAYER_ORDER")
    case Nil
    then have "filter ?T CONTENT_LAYER_ORDER = []" using D unfolding filter_empty_conv by blast
    then show ?thesis unfolding churn_classify_fields first_divergence_def Nil by simp
  next
    case (Cons l ls)
    have l: "?D l" "l \<in> set CONTENT_LAYER_ORDER"
      and e: "\<forall>k\<in>set (takeWhile (\<lambda>z. z \<noteq> l) CONTENT_LAYER_ORDER). \<not> ?D k"
      using filter_Cons_takeWhile [OF Cons] by blast+
    have "filter ?T (filter (\<lambda>k. k < l) CONTENT_LAYER_ORDER) = []"
      unfolding content_layers_sorted(2) [OF l(2), symmetric] filter_empty_conv
      using e D set_takeWhileD by metis
    moreover have "layer_text frepr p l \<noteq> layer_text frepr c l" using D [OF l(2)] l(1) by blast
    ultimately show ?thesis
      using first_differing_spec [of "layer_text frepr p l" "layer_text frepr c l"]
      unfolding churn_classify_fields first_divergence_def Cons
      by (auto simp: Let_def le_less simp del: layer_text.simps)
  qed
  show "cc_estimated_prefix_loss_tokens (churn_classify frepr p c chg) =
     Some ((length (serialize frepr p) -
       length (longest_common_prefix (serialize frepr p) (serialize frepr c))) div 4)"
    unfolding churn_classify_fields first_differing_lcp [symmetric] CHARS_PER_TOKEN_def
    by (simp add: first_differing_same)
qed

definition sample_content :: "string \<Rightarrow> request_content" where
  "sample_content s = \<lparr>rc_system = Some s, rc_messages = [], rc_tools = None, rc_route_hash = None,
     rc_model = None, rc_cache_key = None\<rparr>"

theorem divergence_is_real_witness:
  "cc_estimated_prefix_loss_tokens
     (churn_classify (\<lambda>_. ''0'') (sample_content ''be kind'') (sample_content ''be brief'') False) = Some 4"
proof -
  have "(length (serialize (\<lambda>_. ''0'') (sample_content ''be kind'')) -
     length (longest_common_prefix (serialize (\<lambda>_. ''0'') (sample_content ''be kind''))
       (serialize (\<lambda>_. ''0'') (sample_content ''be brief'')))) div 4 = (4 :: nat)"
    by code_simp
  then show ?thesis
    using conjunct2 [OF divergence_is_real [of "\<lambda>_. ''0''" "sample_content ''be kind''"
          "sample_content ''be brief''" False]] by simp
qed

section \<open>Causes\<close>

lemma base_bounds: "1 / 2 \<le> snd (CAUSE_AND_BASE l) \<and> snd (CAUSE_AND_BASE l) \<le> 92 / 100"
  by (cases l) auto

lemma primary_base_bounds:
  "primary_cause k chg = Some (cause, base) \<Longrightarrow> 1 / 2 \<le> base \<and> base \<le> 92 / 100"
  using base_bounds
  by (auto simp: primary_cause_def split: if_splits list.splits) (metis snd_conv base_bounds)+

lemma confidence_bounds:
  assumes "1 / 2 \<le> base" "base \<le> 92 / 100"
  shows "1 / 2 \<le> confidence_of base k \<and> confidence_of base k \<le> 92 / 100"
proof -
  define x where "x = max (50 / 100) (base - 10 / 100 *
    of_int (max 0 (int (length (filter (\<lambda>b. b) (flat_flags k))) - 1)))"
  have aux: "base - 10 / 100 * y \<le> 92 / 100" if "0 \<le> y" for y :: flt
    using assms(2) that by linarith
  have "0 \<le> (of_int (max 0 (int (length (filter (\<lambda>b. b) (flat_flags k))) - 1)) :: flt)" by simp
  then have "base - 10 / 100 * of_int (max 0 (int (length (filter (\<lambda>b. b) (flat_flags k))) - 1)) \<le> 92 / 100"
    by (rule aux)
  then have x: "1 / 2 \<le> x" "x \<le> 92 / 100"
    unfolding x_def using max.cobounded1 [of "50 / 100 :: flt"] by (simp_all only: max.bounded_iff) simp_all
  have "round_to 2 (1 / 2) = 1 / 2" "round_to 2 (92 / 100) = 92 / 100"
    by (simp_all add: round_to_def round_half_even_def Let_def)
  then show ?thesis
    using round_to_mono [OF x(1), of 2] round_to_mono [OF x(2), of 2]
    unfolding confidence_of_def Let_def x_def [symmetric] by simp
qed

definition honest :: "churn_classification \<Rightarrow> bool" where
  "honest k \<longleftrightarrow> (cc_likely_cause k = None \<longleftrightarrow> cc_confidence k = None) \<and>
     (\<forall>x. cc_confidence k = Some x \<longrightarrow> 1 / 2 \<le> x \<and> x \<le> 92 / 100)"

lemma classify_snapshots_honest: "honest (classify_snapshots p c chg)"
proof -
  have n: "cc_likely_cause (classify_snapshots p c chg) = None \<longleftrightarrow>
      cc_confidence (classify_snapshots p c chg) = None"
    by (simp add: classify_snapshots_def Let_def empty_classification_def split: option.split prod.split)
  have "1 / 2 \<le> x \<and> x \<le> 92 / 100" if "cc_confidence (classify_snapshots p c chg) = Some x" for x
    using that confidence_bounds [OF conjunct1 [OF primary_base_bounds] conjunct2 [OF primary_base_bounds]]
    by (auto simp: classify_snapshots_def Let_def empty_classification_def split: option.splits prod.splits)
  then show ?thesis using n by (simp add: honest_def)
qed

lemma churn_classify_honest: "honest (churn_classify frepr p c chg)"
proof -
  define k where "k = (classify_snapshots (to_hashes frepr p) (to_hashes frepr c) chg)
    \<lparr>cc_estimated_prefix_loss_tokens := cc_estimated_prefix_loss_tokens (churn_classify frepr p c chg),
     cc_first_divergent_byte := cc_first_divergent_byte (churn_classify frepr p c chg)\<rparr>"
  have "churn_classify frepr p c chg = refine_prefix_volatility k c"
    unfolding k_def churn_classify_fields by (simp add: churn_classify_def Let_def)
  moreover have "honest k"
    using classify_snapshots_honest [of "to_hashes frepr p" "to_hashes frepr c" chg]
    by (simp add: k_def honest_def)
  ultimately show ?thesis
    using refine_cases [of k c] confidence_bounds [of "85 / 100" k] by (auto simp: honest_def)
qed

text \<open>The flat flags, and with them the cause, are explained by the hashes alone.\<close>

lemma unchanged_iff:
  assumes "maybe_differs (lh_system_prefix p) (lh_system_prefix c) \<noteq> Some True"
    "maybe_differs (lh_system_suffix p) (lh_system_suffix c) \<noteq> Some True"
    "maybe_differs (lh_history_prefix p) (lh_history_prefix c) \<noteq> Some True"
    "maybe_differs (lh_history_tail p) (lh_history_tail c) \<noteq> Some True"
    "lh_system p = lh_system c" "lh_tools p = lh_tools c" "lh_history p = lh_history c"
    "lh_route p = lh_route c" "lh_model p = lh_model c" "lh_cache_key p = lh_cache_key c"
  shows "cc_likely_cause (classify_snapshots p c False) = None"
  using assms
  by (simp add: classify_snapshots_def Let_def empty_classification_def primary_cause_def
      changed_layers_def CONTENT_LAYER_ORDER_def)

lemma primary_cause_None:
  "primary_cause k chg = None \<longleftrightarrow>
     \<not> chg \<and> changed_layers k = [] \<and> \<not> cc_system_changed k \<and> \<not> cc_history_changed k"
  by (auto simp: primary_cause_def changed_layers_def CONTENT_LAYER_ORDER_def simp del: not_None_eq)

lemma content_layer_cause: "fst (CAUSE_AND_BASE l) = Router_affinity_loss \<longleftrightarrow> l = Route"
  by (cases l) auto

lemma primary_cause_route:
  "map_option fst (primary_cause k chg) = Some Router_affinity_loss \<longleftrightarrow> cc_route_changed k"
proof (cases "filter (\<lambda>l. l \<in> set (changed_layers k)) CONTENT_LAYER_ORDER")
  case Nil
  then show ?thesis by (simp add: primary_cause_def del: map_option_eq_Some)
next
  case (Cons l ls)
  then have "l \<in> set CONTENT_LAYER_ORDER" by (metis filter_is_subset list.set_intros(1) subset_iff)
  then have "l \<noteq> Route" by (auto simp: CONTENT_LAYER_ORDER_def)
  then show ?thesis using Cons content_layer_cause [of l] by (simp add: primary_cause_def del: map_option_eq_Some)
qed

definition snapshot_flags :: "layered_hashes \<Rightarrow> layered_hashes \<Rightarrow> churn_classification \<Rightarrow> bool" where
  "snapshot_flags p c k \<longleftrightarrow> (cc_system_changed k \<longleftrightarrow> lh_system p \<noteq> lh_system c) \<and>
     (cc_tools_changed k \<longleftrightarrow> lh_tools p \<noteq> lh_tools c) \<and>
     (cc_history_changed k \<longleftrightarrow> lh_history p \<noteq> lh_history c) \<and>
     (cc_route_changed k \<longleftrightarrow> lh_route p \<noteq> lh_route c) \<and>
     (cc_model_changed k \<longleftrightarrow> lh_model p \<noteq> lh_model c) \<and>
     (cc_cache_key_changed k \<longleftrightarrow> lh_cache_key p \<noteq> lh_cache_key c)"

lemma classify_snapshots_facts:
  "snapshot_flags p c (classify_snapshots p c chg)"
  "cc_likely_cause (classify_snapshots p c chg) =
     map_option fst (primary_cause (classify_snapshots p c chg) chg)"
proof -
  define k where "k = empty_classification\<lparr>cc_system_changed := lh_system p \<noteq> lh_system c,
            cc_tools_changed := lh_tools p \<noteq> lh_tools c,
            cc_history_changed := lh_history p \<noteq> lh_history c,
            cc_route_changed := lh_route p \<noteq> lh_route c, cc_model_changed := lh_model p \<noteq> lh_model c,
            cc_cache_key_changed := lh_cache_key p \<noteq> lh_cache_key c,
            cc_system_prefix_changed := maybe_differs (lh_system_prefix p) (lh_system_prefix c),
            cc_system_suffix_changed := maybe_differs (lh_system_suffix p) (lh_system_suffix c),
            cc_history_prefix_changed := maybe_differs (lh_history_prefix p) (lh_history_prefix c),
            cc_history_tail_changed := maybe_differs (lh_history_tail p) (lh_history_tail c)\<rparr>"
  have cs: "classify_snapshots p c chg = (case primary_cause k chg of None \<Rightarrow> k
      | Some (cause, base) \<Rightarrow>
          k\<lparr>cc_likely_cause := Some cause, cc_confidence := Some (confidence_of base k)\<rparr>)"
    unfolding classify_snapshots_def k_def Let_def ..
  have pc: "primary_cause (k\<lparr>cc_likely_cause := x, cc_confidence := y\<rparr>) chg = primary_cause k chg" for x y
    by (simp add: primary_cause_def changed_layers_def only_system_changed_def)
  have kf: "snapshot_flags p c k" "cc_likely_cause k = None"
    by (simp_all add: snapshot_flags_def k_def empty_classification_def)
  have up: "snapshot_flags p c (k\<lparr>cc_likely_cause := x, cc_confidence := y\<rparr>)" for x y
    using kf(1) by (simp add: snapshot_flags_def)
  show "snapshot_flags p c (classify_snapshots p c chg)"
    unfolding cs using kf up by (simp split: option.split prod.split)
  show "cc_likely_cause (classify_snapshots p c chg) =
     map_option fst (primary_cause (classify_snapshots p c chg) chg)"
    unfolding cs using kf by (cases "primary_cause k chg") (auto simp: pc)
qed

lemma refine_flags:
  "cc_system_changed (refine_prefix_volatility k c) = cc_system_changed k"
  "cc_tools_changed (refine_prefix_volatility k c) = cc_tools_changed k"
  "cc_history_changed (refine_prefix_volatility k c) = cc_history_changed k"
  "cc_route_changed (refine_prefix_volatility k c) = cc_route_changed k"
  "cc_model_changed (refine_prefix_volatility k c) = cc_model_changed k"
  "cc_cache_key_changed (refine_prefix_volatility k c) = cc_cache_key_changed k"
  "changed_layers (refine_prefix_volatility k c) = changed_layers k"
  "cc_likely_cause (refine_prefix_volatility k c) = None \<longleftrightarrow> cc_likely_cause k = None"
  "cc_likely_cause (refine_prefix_volatility k c) = Some Router_affinity_loss \<longleftrightarrow>
     cc_likely_cause k = Some Router_affinity_loss"
proof -
  define r where "r = refine_prefix_volatility k c"
  have "r = k \<or> cc_likely_cause k = Some Changing_memory_prefixes \<and>
     r = k\<lparr>cc_likely_cause := Some Volatile_value_in_prefix,
       cc_confidence := Some (confidence_of (85 / 100) k)\<rparr>"
    unfolding r_def by (rule refine_cases)
  then have "cc_system_changed r = cc_system_changed k \<and> cc_tools_changed r = cc_tools_changed k \<and>
    cc_history_changed r = cc_history_changed k \<and> cc_route_changed r = cc_route_changed k \<and>
    cc_model_changed r = cc_model_changed k \<and> cc_cache_key_changed r = cc_cache_key_changed k \<and>
    changed_layers r = changed_layers k \<and> (cc_likely_cause r = None \<longleftrightarrow> cc_likely_cause k = None) \<and>
    (cc_likely_cause r = Some Router_affinity_loss \<longleftrightarrow> cc_likely_cause k = Some Router_affinity_loss)"
    by (elim disjE conjE) (simp_all add: changed_layers_def)
  then show "cc_system_changed (refine_prefix_volatility k c) = cc_system_changed k"
  "cc_tools_changed (refine_prefix_volatility k c) = cc_tools_changed k"
  "cc_history_changed (refine_prefix_volatility k c) = cc_history_changed k"
  "cc_route_changed (refine_prefix_volatility k c) = cc_route_changed k"
  "cc_model_changed (refine_prefix_volatility k c) = cc_model_changed k"
  "cc_cache_key_changed (refine_prefix_volatility k c) = cc_cache_key_changed k"
  "changed_layers (refine_prefix_volatility k c) = changed_layers k"
  "cc_likely_cause (refine_prefix_volatility k c) = None \<longleftrightarrow> cc_likely_cause k = None"
  "cc_likely_cause (refine_prefix_volatility k c) = Some Router_affinity_loss \<longleftrightarrow>
     cc_likely_cause k = Some Router_affinity_loss"
    unfolding r_def by blast+
qed

lemma churn_classify_via_snapshots:
  "\<exists>k. churn_classify frepr p c chg = refine_prefix_volatility k c \<and>
     snapshot_flags (to_hashes frepr p) (to_hashes frepr c) k \<and>
     cc_likely_cause k = map_option fst (primary_cause k chg)"
proof -
  define s where "s = classify_snapshots (to_hashes frepr p) (to_hashes frepr c) chg"
  define k where "k = s\<lparr>cc_estimated_prefix_loss_tokens :=
      cc_estimated_prefix_loss_tokens (churn_classify frepr p c chg),
     cc_first_divergent_byte := cc_first_divergent_byte (churn_classify frepr p c chg)\<rparr>"
  have "churn_classify frepr p c chg = refine_prefix_volatility k c"
    unfolding k_def s_def churn_classify_fields by (simp add: churn_classify_def Let_def)
  moreover have "primary_cause k chg = primary_cause s chg"
    by (simp add: k_def primary_cause_def changed_layers_def only_system_changed_def)
  ultimately show ?thesis
    using classify_snapshots_facts [of "to_hashes frepr p" "to_hashes frepr c" chg]
    by (intro exI [of _ k]) (auto simp: k_def s_def snapshot_flags_def)
qed

lemma cause_named: "cc_likely_cause (churn_classify frepr p c True) \<noteq> None"
proof -
  obtain k where "churn_classify frepr p c True = refine_prefix_volatility k c"
    "cc_likely_cause k = map_option fst (primary_cause k True)"
    using churn_classify_via_snapshots by blast
  then show ?thesis using primary_cause_None [of k True] by (simp add: refine_flags)
qed


section \<open>Agreement with the stored hashes\<close>

definition plain_system :: "json_body \<Rightarrow> bool" where
  "plain_system kvs = (case json_field ''system'' kvs of JNull \<Rightarrow> True | JStr _ \<Rightarrow> True | _ \<Rightarrow> False)"

lemma payload_content:
  assumes "request_content_from_payload frepr kvs route model ck = Inr rc"
  shows "non_system_messages kvs = Inr (rc_messages rc)" "rc_tools rc = tools_field kvs"
    "plain_system kvs \<Longrightarrow> system_content frepr kvs = Inr (rc_system rc)"
    "rc_route_hash rc = route" "rc_cache_key rc = ck" "model \<noteq> None \<Longrightarrow> rc_model rc = model"
proof -
  obtain ms where ms: "json_iter (json_field ''messages'' kvs) = Inr ms"
    using assms unfolding request_content_from_payload_def by (auto simp del: json_field.simps)
  note d = assms [unfolded request_content_from_payload_def ms res_bind.simps Let_def]
  show "non_system_messages kvs = Inr (rc_messages rc)" "rc_tools rc = tools_field kvs"
    "rc_route_hash rc = route" "rc_cache_key rc = ck" "model \<noteq> None \<Longrightarrow> rc_model rc = model"
    using d by (auto simp: non_system_messages_def ms simp del: json_field.simps split: if_splits)
  show "system_content frepr kvs = Inr (rc_system rc)" if "plain_system kvs"
    using d that
    by (cases "json_field ''system'' kvs")
      (auto simp: system_content_def plain_system_def ms Let_def simp del: json_field.simps split: if_splits)
qed

lemma block_system_invisible:
  \<comment> \<open>A system prompt given as a list of blocks is not seen by the churn detector, although the
    relay hashes it: any two such prompts have the same layers.\<close>
  assumes "request_content_from_payload frepr kvs route model ck = Inr rc"
    and "json_field ''system'' kvs = JArr blocks" and "json_field ''messages'' kvs = JArr []"
  shows "rc_system rc = None \<and>
    system_content frepr kvs = Inr (Some (canonical_json frepr (JArr blocks)))"
  using assms
  by (auto simp: request_content_from_payload_def system_content_def Let_def
      simp del: json_field.simps canonical_json.simps split: if_splits)

text \<open>The churn detector and the relay hash the same content. For a request whose top-level
  system prompt is absent or a string, the layered view of its body has exactly the system, tools,
  tool-set and history hashes that the observer stores for the request, so a flag of the classifier
  says what the stored columns say.\<close>

theorem churn_hashes_agree:
  assumes "json_or_none loads body = Some kvs" and "plain_system kvs"
    and "build_canonical_request loads frepr as_int body path u r a = Inr c"
    and "request_content_from_payload frepr kvs route model ck = Inr rc"
  shows "lh_system (to_hashes frepr rc) = Some (ci_system_hash c) \<and>
    lh_tools (to_hashes frepr rc) = Some (ci_tools_hash c) \<and>
    lh_tools_set (to_hashes frepr rc) = cr_tools_set_hash c \<and>
    extract_history_hash loads frepr body = Inr (lh_history (to_hashes frepr rc))"
proof -
  obtain mt m where fc: "from_content frepr (provider_from_upstream (endpoint_identity u)) m
      (infer_api_mode path (Some kvs)) (endpoint_identity u) a (history_text frepr (rc_messages rc))
      (rc_system rc) (rc_tools rc) r mt (json_truthy (json_field ''stream'' kvs)) None = Inr c"
    using assms(3) payload_content(1,3) [OF assms(4)] payload_content(2) [OF assms(4)] assms(2)
    unfolding build_canonical_fields assms(1) Let_def opt_or.simps by auto
  have "ci_system_hash c = hash_content (content_of (rc_system rc)) \<and>
    ci_tools_hash c = (case rc_tools rc of Some ts \<Rightarrow> hash_content (CStr (canonical_json frepr (JArr ts)))
                | None \<Rightarrow> hash_content CNone) \<and> cr_tools_set_hash c = Some (tools_set_hash frepr (rc_tools rc))"
    using fc by (auto simp: from_content_def Let_def simp del: canonical_json.simps hash_content.simps
      split: if_splits)
  then show ?thesis
    using payload_content(1) [OF assms(4)]
    by (simp add: to_hashes_def hash_text_def extract_history_hash_def assms(1) history_text_def
        del: canonical_json.simps hash_content.simps split: option.split)
qed

theorem churn_hashes_agree_witness:
  "\<exists>c rc. build_canonical_request sample_loads (\<lambda>_. ''0'') sample_int [2] ''/v1/chat/completions''
     ''https://h/v1'' None ''a'' = Inr c \<and> lh_system (to_hashes (\<lambda>_. ''0'') rc) = Some (ci_system_hash c)"
proof -
  have j: "json_or_none sample_loads [2] = Some [(''model'', JStr ''m''), (''stream'', JBool False),
       (''max_completion_tokens'', JInt 1)]"
    by (simp add: json_or_none_def sample_loads_def)
  obtain c where c: "build_canonical_request sample_loads (\<lambda>_. ''0'') sample_int [2]
      ''/v1/chat/completions'' ''https://h/v1'' None ''a'' = Inr c"
    using sample_warm_canonical by blast
  have p: "plain_system [(''model'', JStr ''m''), (''stream'', JBool False),
       (''max_completion_tokens'', JInt 1)]"
    by (simp add: plain_system_def)
  obtain rc where "request_content_from_payload (\<lambda>_. ''0'') [(''model'', JStr ''m''),
      (''stream'', JBool False), (''max_completion_tokens'', JInt 1)] None None None = Inr rc"
    by (simp add: request_content_from_payload_def tools_field_def)
  from churn_hashes_agree [OF j p c this] c show ?thesis by blast
qed

end
