(* ===== verification/Observer.thy ===== *)
theory Observer
  imports Storage Churn
begin

text \<open>
  The request observer, \<open>RequestObserver\<close> of \<open>cachepilot_relay/observation.py\<close>: its state (the
  switches, the telemetry store, the counter of unverified streams and the cache of last bodies), the
  record it writes for a request, the churn and route-change events it derives from the session's
  previous request, and the observation it feeds to the TTL learner. The lemmas say what one
  observation adds to each table, and that the two derived logs never disagree with the request log.
\<close>

record observer =
  ob_enabled :: bool
  ob_route_intel_enabled :: bool
  ob_churn_detection_enabled :: bool
  ob_store :: "db option"
  ob_streaming_unverified :: nat
  ob_last_body :: body_cache

definition observer_init :: "bool \<Rightarrow> bool \<Rightarrow> bool \<Rightarrow> db option \<Rightarrow> observer" where
  "observer_init on route_intel churn_detection store =
     \<lparr>ob_enabled = on, ob_route_intel_enabled = route_intel,
      ob_churn_detection_enabled = churn_detection, ob_store = store,
      ob_streaming_unverified = 0, ob_last_body = []\<rparr>"

section \<open>Churn events\<close>

fun layer_name :: "layer \<Rightarrow> string" where
  "layer_name System_prefix = ''static system prefix''"
| "layer_name System_suffix = ''dynamic system suffix''"
| "layer_name Tools = ''tool schemas''"
| "layer_name History = ''historical conversation''"
| "layer_name History_tail = ''recent conversation tail''"
| "layer_name Route = ''route''"
| "layer_name Model = ''model''"
| "layer_name Cache_key = ''cache key''"

definition flat_hashes ::
  "string option \<Rightarrow> string option \<Rightarrow> string option \<Rightarrow> string option \<Rightarrow> string \<Rightarrow> layered_hashes" where
  "flat_hashes system tools history route model =
     \<lparr>lh_system_prefix = None, lh_system_suffix = None, lh_system = system, lh_tools = tools,
      lh_tools_set = None, lh_history = history, lh_history_prefix = None, lh_history_tail = None,
      lh_route = route, lh_model = Some model, lh_cache_key = None\<rparr>"

definition hash_only_churn :: "stored_request_event \<Rightarrow> telemetry_event \<Rightarrow> churn_classification" where
  "hash_only_churn p e = classify_hashes
     (flat_hashes (sr_system_hash p) (sr_tools_hash p) (sr_history_hash p) (sr_route_hash p) (sr_model p))
     (flat_hashes (te_system_hash e) (te_tools_hash e) (te_history_hash e) (te_route_hash e) (te_model e))
     True"

definition classify_churn ::
  "(byte list \<Rightarrow> json option) \<Rightarrow> (pyfloat \<Rightarrow> string) \<Rightarrow> stored_request_event \<Rightarrow> telemetry_event \<Rightarrow>
   byte list option \<Rightarrow> byte list option \<Rightarrow> churn_classification" where
  \<comment> \<open>The content path when both payloads parse and their views build, else the hashes.\<close>
  "classify_churn loads frepr p e previous_body current_body =
     (case (previous_body, current_body) of
        (Some pb, Some cb) \<Rightarrow>
          (case (json_or_none loads pb, json_or_none loads cb) of
             (Some pk, Some ck) \<Rightarrow>
               (case (request_content_from_payload frepr pk (sr_route_hash p) (Some (sr_model p)) None,
                      request_content_from_payload frepr ck (te_route_hash e) (Some (te_model e)) None) of
                  (Inr pc, Inr cc) \<Rightarrow> churn_classify frepr pc cc True
                | _ \<Rightarrow> hash_only_churn p e)
           | _ \<Rightarrow> hash_only_churn p e)
      | _ \<Rightarrow> hash_only_churn p e)"

definition churn_event_of ::
  "stored_request_event \<Rightarrow> telemetry_event \<Rightarrow> churn_classification \<Rightarrow> churn_event" where
  "churn_event_of p e k =
     (let system_changed = sr_system_hash p \<noteq> te_system_hash e;
          tools_changed = sr_tools_hash p \<noteq> te_tools_hash e;
          history_changed = sr_history_hash p \<noteq> te_history_hash e;
          route_changed = sr_route_hash p \<noteq> te_route_hash e;
          model_changed = sr_model p \<noteq> te_model e
      in \<lparr>ce_timestamp = te_timestamp e, ce_session_hash = te_session_hash e,
          ce_previous_cache_fingerprint = sr_cache_fingerprint p,
          ce_new_cache_fingerprint = te_cache_fingerprint e, ce_provider = Some (te_provider e),
          ce_model = Some (te_model e), ce_route_hash = te_route_hash e,
          ce_system_changed = system_changed, ce_tools_changed = tools_changed,
          ce_history_changed = history_changed, ce_route_changed = route_changed,
          ce_cache_key_changed = (\<not> (system_changed \<or> tools_changed \<or> history_changed \<or>
             route_changed \<or> model_changed)),
          ce_model_changed = model_changed,
          ce_likely_cause = map_option cause_text (cc_likely_cause k),
          ce_confidence = cc_confidence k,
          ce_estimated_prefix_loss_tokens = map_option int (cc_estimated_prefix_loss_tokens k),
          ce_first_divergent_offset = map_option (\<lambda>h. int (dh_offset h)) (cc_first_divergent_byte k),
          ce_first_divergent_layer =
            map_option (\<lambda>h. layer_name (dh_layer h)) (cc_first_divergent_byte k)\<rparr>)"

section \<open>Route events and the learner\<close>

definition identity_stable :: "stored_request_event \<Rightarrow> telemetry_event \<Rightarrow> bool" where
  "identity_stable p e \<longleftrightarrow> sr_system_hash p = te_system_hash e \<and> sr_tools_hash p = te_tools_hash e \<and>
     sr_history_hash p = te_history_hash e \<and> sr_model p = te_model e \<and> sr_provider p = te_provider e"

definition route_event_of ::
  "stored_request_event \<Rightarrow> telemetry_event \<Rightarrow> route_identity \<Rightarrow> route_change_event" where
  "route_event_of p e r =
     \<lparr>re_timestamp = te_timestamp e, re_session_hash = te_session_hash e,
      re_cache_fingerprint = te_cache_fingerprint e,
      re_request_fingerprint = Some (te_request_fingerprint e),
      re_previous_route_hash = sr_route_hash p, re_new_route_hash = te_route_hash e,
      re_identity = r,
      re_verdict = classify_miss (Some (sr_outcome p)) (sr_route_hash p) (te_outcome e)
        (te_route_hash e) (identity_stable p e)\<rparr>"

definition run_route_intel ::
  "bool \<Rightarrow> db \<Rightarrow> stored_request_event option \<Rightarrow> telemetry_event \<Rightarrow> route_identity \<Rightarrow> db" where
  "run_route_intel on d previous e r =
     (case previous of
        None \<Rightarrow> d
      | Some p \<Rightarrow> if \<not> on \<or> sr_route_hash p = te_route_hash e then d
                  else fst (record_route_event d (route_event_of p e r)))"

definition feed_ttl_learner :: "db \<Rightarrow> canonical_request \<Rightarrow> telemetry_event \<Rightarrow> db" where
  "feed_ttl_learner d c e =
     fst (learn_db (te_timestamp e) d \<lparr>o_outcome = te_outcome e,
        o_cache_fingerprint = te_cache_fingerprint e, o_route_hash = te_route_hash e,
        o_provider = ci_provider c, o_model = ci_model c, o_api_mode = api_mode_value (ci_api_mode c),
        o_endpoint = ci_endpoint c, o_timestamp = te_timestamp e\<rparr>)"

section \<open>One record\<close>

definition event_of ::
  "(pyfloat \<Rightarrow> string) \<Rightarrow> timestamp \<Rightarrow> canonical_request \<Rightarrow> token_usage \<Rightarrow> outcome \<Rightarrow> string option \<Rightarrow>
   string option \<Rightarrow> string option \<Rightarrow> telemetry_event" where
  "event_of frepr now c u outc route session history =
     \<lparr>te_request_fingerprint = request_fingerprint frepr c,
      te_cache_fingerprint = cache_fingerprint frepr c, te_provider = ci_provider c,
      te_model = ci_model c, te_route_hash = route, te_usage = u, te_outcome = outc,
      te_request_kind = ''normal'', te_session_hash = session, te_timestamp = now,
      te_system_hash = Some (ci_system_hash c), te_tools_hash = Some (ci_tools_hash c),
      te_history_hash = history, te_tools_set_hash = cr_tools_set_hash c\<rparr>"

definition observer_record ::
  "(byte list \<Rightarrow> json option) \<Rightarrow> (pyfloat \<Rightarrow> string) \<Rightarrow> timestamp \<Rightarrow> observer \<Rightarrow> canonical_request \<Rightarrow>
   token_usage \<Rightarrow> outcome \<Rightarrow> route_identity \<Rightarrow> string option \<Rightarrow> string option \<Rightarrow> byte list \<Rightarrow> observer" where
  "observer_record loads frepr now ob c u outc r session_header history body =
     (case ob_store ob of
        None \<Rightarrow> ob
      | Some d \<Rightarrow>
          (let session = hash_correlation_value session_header;
               e = event_of frepr now c u outc (route_hash r) session history;
               previous = (case session of None \<Rightarrow> None | Some sh \<Rightarrow> last_event_for_session d sh);
               (bodies, previous_body) = remember_body (ob_churn_detection_enabled ob)
                 (ob_last_body ob) session (Some body);
               d = fst (record_request d e);
               d = (case previous of
                      None \<Rightarrow> d
                    | Some p \<Rightarrow>
                        if sr_cache_fingerprint p \<noteq> te_cache_fingerprint e \<and> ob_churn_detection_enabled ob
                        then fst (record_churn d (churn_event_of p e
                               (classify_churn loads frepr p e previous_body (Some body))))
                        else d);
               d = run_route_intel (ob_route_intel_enabled ob) d previous e r;
               d = feed_ttl_learner d c e
           in ob\<lparr>ob_store := Some d, ob_last_body := bodies\<rparr>))"

section \<open>Entry points\<close>

record exchange =
  ex_body :: "byte list"
  ex_path :: string
  ex_upstream_url :: string
  ex_session_header :: "string option"
  ex_auth_headers :: headers

definition canonical_of ::
  "(byte list \<Rightarrow> json option) \<Rightarrow> (pyfloat \<Rightarrow> string) \<Rightarrow> (json \<Rightarrow> int option) \<Rightarrow> exchange \<Rightarrow>
   route_identity \<Rightarrow> py_error + canonical_request" where
  "canonical_of loads frepr as_int x r =
     build_canonical_request loads frepr as_int (ex_body x) (ex_path x) (ex_upstream_url x)
       (route_hash r) (derive_auth_scope (ex_auth_headers x))"

definition record_exchange ::
  "(byte list \<Rightarrow> json option) \<Rightarrow> (pyfloat \<Rightarrow> string) \<Rightarrow> timestamp \<Rightarrow> observer \<Rightarrow> exchange \<Rightarrow>
   canonical_request \<Rightarrow> route_identity \<Rightarrow> token_usage \<Rightarrow> outcome \<Rightarrow>
     observer \<times> (py_error + outcome option \<times> token_usage)" where
  "record_exchange loads frepr now ob x c r u outc =
     (case extract_history_hash loads frepr (ex_body x) of
        Inl e \<Rightarrow> (ob, Inl e)
      | Inr history \<Rightarrow>
          (observer_record loads frepr now ob c u outc r (ex_session_header x) history (ex_body x),
           Inr (Some outc, u)))"

definition observe_bounded ::
  "(byte list \<Rightarrow> json option) \<Rightarrow> (pyfloat \<Rightarrow> string) \<Rightarrow> (json \<Rightarrow> int option) \<Rightarrow> timestamp \<Rightarrow> observer \<Rightarrow>
   exchange \<Rightarrow> byte list \<Rightarrow> int \<Rightarrow> headers \<Rightarrow> observer \<times> (py_error + outcome option \<times> token_usage)" where
  "observe_bounded loads frepr as_int now ob x response_body status response_headers =
     (if \<not> ob_enabled ob \<or> ob_store ob = None then (ob, Inr (None, empty_usage))
      else
        (let r = observed_route_identity (ex_upstream_url x) response_headers in
         case canonical_of loads frepr as_int x r of
           Inl e \<Rightarrow> (ob, Inl e)
         | Inr c \<Rightarrow>
             (let payload = (case json_or_none loads response_body of
                               None \<Rightarrow> JNull | Some kvs \<Rightarrow> JObj kvs);
                  ok = (200 \<le> status \<and> status < 300)
              in case (if ok then normalize payload (Some (ci_provider c)) else Inr empty_usage) of
                   Inl e \<Rightarrow> (ob, Inl e)
                 | Inr u \<Rightarrow>
                     (let telemetry = (ok \<and> usage_has_cache_telemetry
                            (case payload of JObj kvs \<Rightarrow> usage_of_payload kvs | _ \<Rightarrow> JNull))
                      in record_exchange loads frepr now ob x c r u
                           (classify_outcome status telemetry (cache_read_tokens u))))))"

definition observe_streaming ::
  "(byte list \<Rightarrow> json option) \<Rightarrow> (pyfloat \<Rightarrow> string) \<Rightarrow> (json \<Rightarrow> int option) \<Rightarrow> timestamp \<Rightarrow> observer \<Rightarrow>
   exchange \<Rightarrow> int \<Rightarrow> headers \<Rightarrow> observer \<times> (py_error + outcome option)" where
  "observe_streaming loads frepr as_int now ob x status response_headers =
     (if \<not> ob_enabled ob \<or> ob_store ob = None then (ob, Inr None)
      else
        (let ob = ob\<lparr>ob_streaming_unverified := Suc (ob_streaming_unverified ob)\<rparr> in
         if \<not> (200 \<le> status \<and> status < 300) then
           apsnd (map_sum id fst) (observe_bounded loads frepr as_int now ob x [] status response_headers)
         else
           (let r = observed_route_identity (ex_upstream_url x) response_headers in
            case canonical_of loads frepr as_int x r of
              Inl e \<Rightarrow> (ob, Inl e)
            | Inr c \<Rightarrow> apsnd (map_sum id fst)
                (record_exchange loads frepr now ob x c r empty_usage SUCCESS_UNVERIFIED))))"

definition observe_failure ::
  "(byte list \<Rightarrow> json option) \<Rightarrow> (pyfloat \<Rightarrow> string) \<Rightarrow> (json \<Rightarrow> int option) \<Rightarrow> timestamp \<Rightarrow> observer \<Rightarrow>
   exchange \<Rightarrow> observer \<times> (py_error + outcome option)" where
  "observe_failure loads frepr as_int now ob x =
     (if \<not> ob_enabled ob \<or> ob_store ob = None then (ob, Inr None)
      else
        (let r = observed_route_identity (ex_upstream_url x) [] in
         case canonical_of loads frepr as_int x r of
           Inl e \<Rightarrow> (ob, Inl e)
         | Inr c \<Rightarrow> apsnd (map_sum id fst)
             (record_exchange loads frepr now ob x c r empty_usage FAILED)))"

section \<open>What one record writes\<close>

lemma learn_db_frame:
  "db_requests (fst (learn_db now d obs)) = db_requests d" "db_churn (fst (learn_db now d obs)) = db_churn d"
  "db_leases (fst (learn_db now d obs)) = db_leases d" "db_routes (fst (learn_db now d obs)) = db_routes d"
proof -
  have u: "db_requests (upsert_profile now d p) = db_requests d"
    "db_churn (upsert_profile now d p) = db_churn d" "db_leases (upsert_profile now d p) = db_leases d"
    "db_routes (upsert_profile now d p) = db_routes d" for now d p
    by (simp_all add: upsert_profile_def Let_def)
  have r: "db_requests (fst (record_ttl_observation d x)) = db_requests d"
    "db_churn (fst (record_ttl_observation d x)) = db_churn d"
    "db_leases (fst (record_ttl_observation d x)) = db_leases d"
    "db_routes (fst (record_ttl_observation d x)) = db_routes d" for d x
    by (simp_all add: record_ttl_observation_def case_prod_beta)
  show "db_requests (fst (learn_db now d obs)) = db_requests d" "db_churn (fst (learn_db now d obs)) = db_churn d"
    "db_leases (fst (learn_db now d obs)) = db_leases d" "db_routes (fst (learn_db now d obs)) = db_routes d"
    by (simp_all add: learn_db_def learn_def Let_def case_prod_beta u r split: sum.split option.split)
qed

lemma classify_churn_cause: "cc_likely_cause (classify_churn loads frepr p e pb cb) \<noteq> None"
proof -
  have h: "cc_likely_cause (hash_only_churn p e) \<noteq> None"
    unfolding hash_only_churn_def classify_hashes_def classify_snapshots_facts(2)
    using primary_cause_None by simp
  have "cc_likely_cause (churn_classify frepr a b True) \<noteq> None" for a b
    using cause_named by blast
  then show ?thesis using h
    by (simp add: classify_churn_def split: option.split sum.split)
qed

definition previous_event :: "observer \<Rightarrow> db \<Rightarrow> string option \<Rightarrow> stored_request_event option" where
  "previous_event ob d session_header =
     (case hash_correlation_value session_header of None \<Rightarrow> None | Some sh \<Rightarrow> last_event_for_session d sh)"

lemma rows_record_churn: "tb_rows (db_churn (fst (record_churn d c))) =
    tb_rows (db_churn d) @ [(snd (record_churn d c), c)]"
  by (simp add: record_churn_def case_prod_beta Let_def)

lemma rows_record_route: "tb_rows (db_routes (fst (record_route_event d c))) =
    tb_rows (db_routes d) @ [(snd (record_route_event d c), c)]"
  by (simp add: record_route_event_def case_prod_beta Let_def)

lemmas record_frames = record_request_def record_churn_def record_route_event_def case_prod_beta Let_def

lemma observer_record_db:
  assumes "ob_store ob = Some d"
    and e_def: "e = event_of frepr now c u outc (route_hash r) (hash_correlation_value sh) history"
    and prev_def: "prev = previous_event ob d sh"
  shows "\<exists>d' k. ob_store (observer_record loads frepr now ob c u outc r sh history body) = Some d' \<and>
    (wf_db d \<longrightarrow> wf_db d') \<and> db_leases d' = db_leases d \<and>
    db_requests d' = fst (insert_row (db_requests d) (request_row e)) \<and>
    map snd (tb_rows (db_churn d')) = map snd (tb_rows (db_churn d)) @
      (case prev of None \<Rightarrow> []
       | Some p \<Rightarrow> if sr_cache_fingerprint p \<noteq> te_cache_fingerprint e \<and> ob_churn_detection_enabled ob
           then [churn_event_of p e k] else []) \<and>
    map snd (tb_rows (db_routes d')) = map snd (tb_rows (db_routes d)) @
      (case prev of None \<Rightarrow> []
       | Some p \<Rightarrow> if ob_route_intel_enabled ob \<and> sr_route_hash p \<noteq> te_route_hash e
           then [route_event_of p e r] else []) \<and>
    cc_likely_cause k \<noteq> None"
proof -
  define pb where "pb = snd (remember_body (ob_churn_detection_enabled ob) (ob_last_body ob)
    (hash_correlation_value sh) (Some body))"
  define k where "k = (case prev of None \<Rightarrow> empty_classification\<lparr>cc_likely_cause := Some History_changed\<rparr>
    | Some p \<Rightarrow> classify_churn loads frepr p e pb (Some body))"
  define d1 where "d1 = fst (record_request d e)"
  define d2 where "d2 = (case prev of None \<Rightarrow> d1
    | Some p \<Rightarrow> if sr_cache_fingerprint p \<noteq> te_cache_fingerprint e \<and> ob_churn_detection_enabled ob
        then fst (record_churn d1 (churn_event_of p e k)) else d1)"
  define d3 where "d3 = run_route_intel (ob_route_intel_enabled ob) d2 prev e r"
  have st: "ob_store (observer_record loads frepr now ob c u outc r sh history body) =
      Some (feed_ttl_learner d3 c e)"
    unfolding observer_record_def d3_def d2_def d1_def k_def pb_def prev_def previous_event_def e_def
    by (simp add: assms(1) Let_def case_prod_beta split: option.split)
  have kc: "cc_likely_cause k \<noteq> None"
    unfolding k_def by (cases prev) (simp_all add: classify_churn_cause del: not_None_eq)
  have w: "wf_db d \<longrightarrow> wf_db (feed_ttl_learner d3 c e)"
    unfolding feed_ttl_learner_def learn_db_def
    using wf_writes store.learn_invar
    by (auto simp: d3_def d2_def d1_def run_route_intel_def split: option.split)
  show ?thesis
    apply (rule exI [of _ "feed_ttl_learner d3 c e"], rule exI [of _ k])
    apply (intro conjI st w kc)
       apply (auto simp: feed_ttl_learner_def learn_db_frame d3_def d2_def d1_def run_route_intel_def
        record_frames split: option.split)
    done
qed

text \<open>C19: One observed request leaves consistent logs. The request log gains exactly its row; the
  churn log gains one event exactly when the session's previous request had another cache fingerprint
  (and detection is on), and that event names a cause; the route log gains one event exactly when the
  previous request was on another route (and route intelligence is on). Whenever both logs gain an
  event they agree on whether the route changed, a route-instability verdict implies a hit on the old
  route and a miss on the new one, and the lease table is not touched. The database stays well
  formed.\<close>

theorem observation_keeps_logs:
  assumes "ob_store ob = Some d" and "wf_db d"
    and "e = event_of frepr now c u outc (route_hash r) (hash_correlation_value sh) history"
  shows "\<exists>d' cs rs. ob_store (observer_record loads frepr now ob c u outc r sh history body) = Some d' \<and>
    wf_db d' \<and> db_leases d' = db_leases d \<and>
    db_requests d' = fst (insert_row (db_requests d) (request_row e)) \<and>
    map snd (tb_rows (db_churn d')) = map snd (tb_rows (db_churn d)) @ cs \<and>
    map snd (tb_rows (db_routes d')) = map snd (tb_rows (db_routes d)) @ rs \<and>
    length cs \<le> 1 \<and> length rs \<le> 1 \<and>
    (cs \<noteq> [] \<longleftrightarrow> ob_churn_detection_enabled ob \<and>
       (\<exists>p. previous_event ob d sh = Some p \<and> sr_cache_fingerprint p \<noteq> te_cache_fingerprint e)) \<and>
    (rs \<noteq> [] \<longleftrightarrow> ob_route_intel_enabled ob \<and>
       (\<exists>p. previous_event ob d sh = Some p \<and> sr_route_hash p \<noteq> te_route_hash e)) \<and>
    (\<forall>x\<in>set cs. ce_likely_cause x \<noteq> None \<and> (ob_route_intel_enabled ob \<longrightarrow>
       (ce_route_changed x \<longleftrightarrow> rs \<noteq> []))) \<and>
    (\<forall>x\<in>set rs. re_verdict x = ROUTE_INSTABILITY \<longrightarrow>
       (\<exists>p. previous_event ob d sh = Some p \<and> sr_outcome p = CONFIRMED_HIT) \<and> outc = MISS_REBUILT)"
proof -
  obtain d' k where o: "ob_store (observer_record loads frepr now ob c u outc r sh history body) = Some d'"
    "wf_db d'" "db_leases d' = db_leases d"
    "db_requests d' = fst (insert_row (db_requests d) (request_row e))"
    "map snd (tb_rows (db_churn d')) = map snd (tb_rows (db_churn d)) @
      (case previous_event ob d sh of None \<Rightarrow> []
       | Some p \<Rightarrow> if sr_cache_fingerprint p \<noteq> te_cache_fingerprint e \<and> ob_churn_detection_enabled ob
           then [churn_event_of p e k] else [])"
    "map snd (tb_rows (db_routes d')) = map snd (tb_rows (db_routes d)) @
      (case previous_event ob d sh of None \<Rightarrow> []
       | Some p \<Rightarrow> if ob_route_intel_enabled ob \<and> sr_route_hash p \<noteq> te_route_hash e
           then [route_event_of p e r] else [])"
    "cc_likely_cause k \<noteq> None"
    using observer_record_db [OF assms(1) assms(3) refl, of loads body] assms(2) by blast
  define cs where "cs = (case previous_event ob d sh of None \<Rightarrow> []
       | Some p \<Rightarrow> if sr_cache_fingerprint p \<noteq> te_cache_fingerprint e \<and> ob_churn_detection_enabled ob
           then [churn_event_of p e k] else [])"
  define rs where "rs = (case previous_event ob d sh of None \<Rightarrow> []
       | Some p \<Rightarrow> if ob_route_intel_enabled ob \<and> sr_route_hash p \<noteq> te_route_hash e
           then [route_event_of p e r] else [])"
  have out: "te_outcome e = outc" using assms(3) by (simp add: event_of_def)
  have "length cs \<le> 1 \<and> length rs \<le> 1 \<and>
    (cs \<noteq> [] \<longleftrightarrow> ob_churn_detection_enabled ob \<and>
       (\<exists>p. previous_event ob d sh = Some p \<and> sr_cache_fingerprint p \<noteq> te_cache_fingerprint e)) \<and>
    (rs \<noteq> [] \<longleftrightarrow> ob_route_intel_enabled ob \<and>
       (\<exists>p. previous_event ob d sh = Some p \<and> sr_route_hash p \<noteq> te_route_hash e)) \<and>
    (\<forall>x\<in>set cs. ce_likely_cause x \<noteq> None \<and> (ob_route_intel_enabled ob \<longrightarrow>
       (ce_route_changed x \<longleftrightarrow> rs \<noteq> []))) \<and>
    (\<forall>x\<in>set rs. re_verdict x = ROUTE_INSTABILITY \<longrightarrow>
       (\<exists>p. previous_event ob d sh = Some p \<and> sr_outcome p = CONFIRMED_HIT) \<and> outc = MISS_REBUILT)"
    using o(7) out
    by (cases "previous_event ob d sh")
      (auto simp: cs_def rs_def churn_event_of_def route_event_of_def Let_def classify_miss_def
        split: if_splits)
  then show ?thesis using o(1-4) o(5,6) [folded cs_def rs_def] by blast
qed

definition sample_canonical_request :: canonical_request where
  "sample_canonical_request = \<lparr>ci_provider = ''p'', ci_model = ''m'', ci_api_mode = CHAT,
     ci_endpoint = ''u'', ci_auth_scope = ''a'', ci_route = None, ci_prompt_key = ''k'',
     ci_system_hash = ''s'', ci_tools_hash = ''t'', cr_max_tokens = None, cr_stream = False,
     cr_timeout_s = None, cr_tools_set_hash = None\<rparr>"

theorem observation_keeps_logs_witness:
  "\<exists>d'. ob_store (observer_record sample_loads (\<lambda>_. ''0'') 0
      (observer_init True True True (Some fresh_db)) sample_canonical_request empty_usage FAILED
      (request_route_identity ''u'') (Some ''s'') None [1]) = Some d' \<and> wf_db d'"
proof -
  have "ob_store (observer_init True True True (Some fresh_db)) = Some fresh_db"
    by (simp add: observer_init_def)
  from observation_keeps_logs [OF this wf_fresh_db refl] show ?thesis by blast
qed

end
