(* ===== verification/Controller.thy ===== *)
theory Controller
  imports LeaseSched Observer
begin

text \<open>
  The relay's lease controller, \<open>cachepilot_relay/lease_controller.py\<close>, as the proxy builds it: the
  lease manager over the shared snapshot store, the synthetic target ids, the route-affinity
  registry, and the handlers that run before and after every forwarded request. The telemetry store
  the controller shares with the observer is an argument and a result. A handler is one segment of
  the event loop (it awaits nothing), so it is a function; what it does to the manager is a sequence
  of the manager's own operations, which the last section uses to place the handlers among the
  interleavings of the warm coroutines.
\<close>

record lease_controller =
  ct_manager :: lease_manager
  ct_enabled :: bool
  ct_replay_headers :: "string list"
  ct_affinity_config :: affinity_config
  ct_affinity_extra_cost_usd :: flt
  ct_affinity_registry :: affinity_registry
  ct_target_ids :: "(string, string list) dict"

definition with_profiles :: "lease_manager \<Rightarrow> db option \<Rightarrow> lease_manager" where
  \<comment> \<open>The resolver asks the store of the moment.\<close>
  "with_profiles m store = set_profiles m (map_option profile_for store)"

definition controller_init ::
  "lease_settings \<Rightarrow> flt \<Rightarrow> db option \<Rightarrow> bool \<Rightarrow> snapshot_map option \<Rightarrow> bool \<Rightarrow> affinity_config \<Rightarrow> flt \<Rightarrow>
   string list \<Rightarrow> lease_controller" where
  "controller_init settings latency store on snaps has_executor affinity extra replay =
     (let resolver = \<lparr>profile_lookup = map_option profile_for store,
            force_seconds = ls_ttl_force_seconds settings,
            r_default_ttl_s = ls_default_ttl_s settings,
            minimum_samples = ls_ttl_minimum_samples settings\<rparr>
      in \<lparr>ct_manager = mk_manager settings latency snaps has_executor (ls_pricing settings) None None
            (Some resolver),
          ct_enabled = on, ct_replay_headers = replay, ct_affinity_config = affinity,
          ct_affinity_extra_cost_usd = extra, ct_affinity_registry = [], ct_target_ids = []\<rparr>)"

section \<open>Internals\<close>

definition bg_ids :: "int \<Rightarrow> string list" where
  "bg_ids count = map (\<lambda>i. ''bg-'' @ nat_str i) [1..<Suc (nat count)]"

fun each_target ::
  "(lease_manager \<Rightarrow> string \<Rightarrow> string \<Rightarrow> py_error + lease_manager) \<Rightarrow> string \<Rightarrow> string list \<Rightarrow>
   lease_manager \<Rightarrow> py_error + lease_manager" where
  "each_target f lid [] m = Inr m"
| "each_target f lid (t # ts) m = res_bind (f m lid t) (each_target f lid ts)"

definition sync_targets :: "lease_controller \<Rightarrow> string \<Rightarrow> int \<Rightarrow> py_error + lease_controller" where
  \<comment> \<open>The ids are sets in the code; here they keep the order they were made in.\<close>
  "sync_targets ct lid count =
     (let desired = bg_ids count; current = opt_or (dget (ct_target_ids ct) lid) [] in
      res_bind (each_target target_finished lid (filter (\<lambda>t. t \<notin> set desired) current) (ct_manager ct)) (\<lambda>m.
      res_bind (each_target target_started lid (filter (\<lambda>t. t \<notin> set current) desired) m) (\<lambda>m.
        Inr (ct\<lparr>ct_manager := m, ct_target_ids := dset (ct_target_ids ct) lid desired\<rparr>))))"

definition lease_ids :: "lease_manager \<Rightarrow> string set" where
  "lease_ids m = dkeys (lm_leases m)"

definition prune_target_ids :: "lease_controller \<Rightarrow> lease_controller" where
  "prune_target_ids ct =
     ct\<lparr>ct_target_ids := filter (\<lambda>(lid, ts). lid \<in> lease_ids (ct_manager ct)) (ct_target_ids ct),
        ct_affinity_registry := aff_prune (ct_affinity_registry ct) (lease_ids (ct_manager ct))\<rparr>"

fun drop_untracked :: "string set \<Rightarrow> string list \<Rightarrow> lease_manager \<Rightarrow> lease_manager" where
  "drop_untracked tracked [] m = m"
| "drop_untracked tracked (fp # fps) m =
     drop_untracked tracked fps (if fp \<notin> tracked then snapshot_change m (OpDrop fp) else m)"

definition prune_snapshots :: "lease_controller \<Rightarrow> lease_controller" where
  "prune_snapshots ct =
     (case lm_snapshot_store (ct_manager ct) of
        None \<Rightarrow> ct
      | Some ss \<Rightarrow> ct\<lparr>ct_manager := drop_untracked (cache_fingerprints (ct_manager ct)) (map fst ss)
                           (ct_manager ct)\<rparr>)"

definition replay_subset :: "string list \<Rightarrow> headers \<Rightarrow> headers" where
  "replay_subset allowed hs =
     foldl (\<lambda>d (k, v). if py_lower k \<in> set allowed then dset d (py_lower k) v else d) [] hs"

definition store_snapshot ::
  "(byte list \<Rightarrow> json option) \<Rightarrow> lease_controller \<Rightarrow> flt \<Rightarrow> cache_lease \<Rightarrow> exchange \<Rightarrow> lease_controller" where
  "store_snapshot loads ct now l x =
     (case lm_snapshot_store (ct_manager ct) of
        None \<Rightarrow> ct
      | Some ss \<Rightarrow>
          (case json_or_none loads (ex_body x) of
             None \<Rightarrow> ct
           | Some kvs \<Rightarrow>
               ct\<lparr>ct_manager := snapshot_change (ct_manager ct) (OpStore
                    \<lparr>snap_fingerprint = cl_cache_fingerprint l, snap_body = kvs,
                     snap_upstream_url = ex_upstream_url x,
                     snap_replay_headers = replay_subset (ct_replay_headers ct) (ex_auth_headers x),
                     snap_stored_at = now\<rparr>)\<rparr>))"

definition persist_lease :: "timestamp \<Rightarrow> db option \<Rightarrow> cache_lease \<Rightarrow> db option" where
  "persist_lease stamp store l = map_option (\<lambda>d. update_lease stamp d l) store"

section \<open>Route affinity\<close>

definition affinity_savings :: "lease_controller \<Rightarrow> cache_lease \<Rightarrow> py_error + flt option" where
  "affinity_savings ct l =
     (case (cl_estimated_cold_resume_cost_usd l, cl_estimated_cached_resume_cost_usd l) of
        (Some cold, Some cached) \<Rightarrow> Inr (Some (cold - cached))
      | _ \<Rightarrow>
          (case (ls_pricing (lm_settings (ct_manager ct)), cl_prefix_tokens l) of
             (Some p, Some n) \<Rightarrow>
               if n = 0 then Inr None
               else res_bind (estimate_resume_costs n p 0) (\<lambda>(cold, cached). Inr (Some (cold - cached)))
           | _ \<Rightarrow> Inr None))"

definition from_epoch :: "flt \<Rightarrow> timestamp" where
  \<comment> \<open>\<open>datetime.fromtimestamp\<close>: seconds to microseconds, half to even.\<close>
  "from_epoch t = round_half_even (t * 1000000)"

definition maybe_set_affinity :: "lease_controller \<Rightarrow> db \<Rightarrow> flt \<Rightarrow> cache_lease \<Rightarrow> lease_controller" where
  \<comment> \<open>An exception of the savings estimate leaves the registry alone, like every early return.\<close>
  "maybe_set_affinity ct d now l =
     (case last_route_event_for_session d (sha256_hex (cl_session_id l))
             (Some (from_epoch (cl_last_real_request_at l))) of
        None \<Rightarrow> ct
      | Some (i, e) \<Rightarrow>
          (case (re_previous_route_hash e, re_new_route_hash e, affinity_savings ct l) of
             (Some old, Some new, Inr (Some savings)) \<Rightarrow>
               if re_verdict e \<noteq> ROUTE_INSTABILITY \<or> old = [] \<or> new = [] then ct
               else if apply_pin (affinity_evaluate (ct_affinity_config ct) savings
                         (ct_affinity_extra_cost_usd ct)
                         (ls_resume_probability (lm_settings (ct_manager ct))) None)
               then ct\<lparr>ct_affinity_registry := aff_set (ct_affinity_registry ct) (cl_lease_id l) old
                      (now + max (cl_estimated_ttl_s l) 0) (cl_generation l)\<rparr>
               else ct
           | _ \<Rightarrow> ct))"

definition reconcile_affinity ::
  "lease_controller \<Rightarrow> db option \<Rightarrow> flt \<Rightarrow> string \<Rightarrow> cache_lease \<Rightarrow> outcome \<Rightarrow> lease_controller" where
  "reconcile_affinity ct store now lid l outc =
     (case store of
        None \<Rightarrow> ct
      | Some d \<Rightarrow>
          if \<not> aff_enabled (ct_affinity_config ct) then ct
          else
            let cleared = ct\<lparr>ct_affinity_registry := aff_clear (ct_affinity_registry ct) lid\<rparr> in
            if outc = FAILED then cleared
            else maybe_set_affinity
              (case generation_for (ct_affinity_registry ct) lid of
                 Some g \<Rightarrow> if g < cl_generation l then cleared else ct | None \<Rightarrow> ct) d now l)"

definition active_affinity_route ::
  "lease_controller \<Rightarrow> flt \<Rightarrow> string \<Rightarrow> lease_controller \<times> string option" where
  "active_affinity_route ct now lid =
     (if \<not> aff_enabled (ct_affinity_config ct) then (ct, None)
      else case lease_of (ct_manager ct) lid of
             None \<Rightarrow> (ct, None)
           | Some l \<Rightarrow>
               (let (reg, route) = active_route_for (ct_affinity_registry ct) now lid (cl_generation l)
                in (ct\<lparr>ct_affinity_registry := reg\<rparr>, route)))"

section \<open>Handlers\<close>

definition lease_request_of ::
  "(pyfloat \<Rightarrow> string) \<Rightarrow> string \<Rightarrow> canonical_request \<Rightarrow> lease_request" where
  "lease_request_of frepr session c =
     \<lparr>lq_session_id = session, lq_provider = ci_provider c, lq_model = ci_model c,
      lq_api_mode = api_mode_value (ci_api_mode c), lq_base_url = ci_endpoint c,
      lq_auth_scope_hash = ci_auth_scope c, lq_route_fingerprint = ci_route c,
      lq_request_fingerprint = request_fingerprint frepr c,
      lq_cache_fingerprint = cache_fingerprint frepr c, lq_system_fingerprint = ci_system_hash c,
      lq_tools_fingerprint = ci_tools_hash c, lq_history_prefix_fingerprint = ci_prompt_key c,
      lq_estimated_ttl_s = None, lq_ttl_confidence = 1 / 2\<rparr>"

definition start_tracked ::
  "(byte list \<Rightarrow> json option) \<Rightarrow> flt \<Rightarrow> timestamp \<Rightarrow> lease_controller \<Rightarrow> db option \<Rightarrow> exchange \<Rightarrow>
   string option \<Rightarrow> lease_request \<Rightarrow> string \<Rightarrow> lease_controller \<times> db option \<times> string option" where
  \<comment> \<open>From \<open>find_or_create_lease\<close> on; an exception ends the handler with what was done so far.\<close>
  "start_tracked loads now stamp ct store x targets_header q fresh =
     (case find_or_create_lease (with_profiles (ct_manager ct) store) q fresh of
        Inl e \<Rightarrow> (ct, store, None)
      | Inr (m, lid) \<Rightarrow>
          (let ct = prune_snapshots (prune_target_ids (ct\<lparr>ct_manager := m\<rparr>)) in
           case sync_targets ct lid (parse_targets_count targets_header) of
             Inl e \<Rightarrow> (ct, store, None)
           | Inr ct \<Rightarrow>
               (case before_normal_request (ct_manager ct) now lid of
                  Inl e \<Rightarrow> (ct, store, None)
                | Inr m \<Rightarrow>
                    (case lease_of m lid of
                       None \<Rightarrow> (ct, store, None)
                     | Some l \<Rightarrow> (store_snapshot loads (ct\<lparr>ct_manager := m\<rparr>) now l x,
                                 persist_lease stamp store l, Some lid)))))"

definition on_request_start ::
  "(byte list \<Rightarrow> json option) \<Rightarrow> (pyfloat \<Rightarrow> string) \<Rightarrow> (json \<Rightarrow> int option) \<Rightarrow> flt \<Rightarrow> timestamp \<Rightarrow>
   lease_controller \<Rightarrow> db option \<Rightarrow> exchange \<Rightarrow> string option \<Rightarrow> string \<Rightarrow>
     lease_controller \<times> db option \<times> string option" where
  \<comment> \<open>The context is the lease id (the target count is only carried along).\<close>
  "on_request_start loads frepr as_int now stamp ct store x targets_header fresh =
     (case ex_session_header x of
        None \<Rightarrow> (ct, store, None)
      | Some session \<Rightarrow>
          if \<not> ct_enabled ct \<or> session = [] then (ct, store, None)
          else
            (case canonical_of loads frepr as_int x (request_route_identity (ex_upstream_url x)) of
               Inl e \<Rightarrow> (ct, store, None)
             | Inr c \<Rightarrow> start_tracked loads now stamp ct store x targets_header
                 (lease_request_of frepr session c) fresh))"

definition drop_failed :: "lease_controller \<Rightarrow> cache_lease \<Rightarrow> outcome \<Rightarrow> lease_controller" where
  "drop_failed ct l outc =
     (if outc = FAILED
      then ct\<lparr>ct_manager := snapshot_change (ct_manager ct) (OpDrop (cl_cache_fingerprint l))\<rparr>
      else ct)"

definition on_request_end ::
  "flt \<Rightarrow> timestamp \<Rightarrow> lease_controller \<Rightarrow> db option \<Rightarrow> string \<Rightarrow> outcome \<Rightarrow> token_usage option \<Rightarrow>
   string option \<Rightarrow> lease_controller \<times> db option" where
  "on_request_end now stamp ct store lid outc usage route =
     (if \<not> ct_enabled ct then (ct, store)
      else
        (case after_normal_request (ct_manager ct) now lid outc of
           Inl e \<Rightarrow> (ct, store)
         | Inr m \<Rightarrow>
             (case (case usage of
                      Some u \<Rightarrow> if 0 < prompt_tokens u then update_cost_estimates m lid u else Inr m
                    | None \<Rightarrow> Inr m) of
                Inl e \<Rightarrow> (ct\<lparr>ct_manager := m\<rparr>, store)
              | Inr m \<Rightarrow>
                  (case res_bind (if route = None then Inr m else set_route m lid route)
                          (\<lambda>m. refresh_ttl (with_profiles m store) lid) of
                     Inl e \<Rightarrow> (ct\<lparr>ct_manager := m\<rparr>, store)
                   | Inr m \<Rightarrow>
                       (case lease_of m lid of
                          None \<Rightarrow> (ct\<lparr>ct_manager := m\<rparr>, store)
                        | Some l \<Rightarrow>
                            (let store = persist_lease stamp store l;
                                 ct = drop_failed (ct\<lparr>ct_manager := m\<rparr>) l outc
                             in (reconcile_affinity ct store now lid l outc, store)))))))"

definition PERSIST_ON :: "lease_decision list" where
  "PERSIST_ON = [SCHEDULED, WARMED_CONFIRMED_HIT, WARMED_MISS_REBUILT, WARMED_UNVERIFIED, WARMED_FAILED]"

fun persist_decisions ::
  "timestamp \<Rightarrow> lease_manager \<Rightarrow> (string \<times> lease_decision) list \<Rightarrow> db option \<Rightarrow> db option" where
  "persist_decisions stamp m [] store = store"
| "persist_decisions stamp m ((lid, dec) # ds) store =
     persist_decisions stamp m ds
       (case lease_of m lid of
          Some l \<Rightarrow> if dec \<in> set PERSIST_ON then persist_lease stamp store l else store
        | None \<Rightarrow> store)"

definition controller_tick ::
  "(request_snapshot \<Rightarrow> warm_result option) \<Rightarrow> (string \<Rightarrow> flt \<times> flt) \<Rightarrow> timestamp \<Rightarrow> lease_controller \<Rightarrow>
   db option \<Rightarrow> lease_controller \<times> db option \<times> (string \<times> lease_decision) list" where
  "controller_tick exec clock stamp ct store =
     (let (m, ds) = tick exec clock (ct_manager ct)
      in (ct\<lparr>ct_manager := m\<rparr>, persist_decisions stamp m ds store, ds))"

end
