(* ===== verification/ControllerLaws.thy ===== *)
theory ControllerLaws
  imports Controller
begin

text \<open>
  The laws of the lease controller. What a handler does to the manager is a sequence of the manager's
  operations (\<open>mgr_steps\<close>), so every state a handler leaves is a state of the interleaved scheduler
  and inherits its invariants; \<open>ctl_inv\<close> ties the manager's target sets to the synthetic ids, and
  the contracts of the two handlers follow.
\<close>

section \<open>Handlers are sequences of manager operations\<close>

definition mgr_steps :: "lease_manager \<Rightarrow> lease_manager \<Rightarrow> bool" where
  "mgr_steps m m' \<longleftrightarrow> (\<exists>ops. run_ops m ops = Inr m' \<and> ops_fresh m ops)"

lemma run_ops_append:
  "run_ops m ops1 = Inr m1 \<Longrightarrow> run_ops m (ops1 @ ops2) = run_ops m1 ops2"
  by (induction ops1 arbitrary: m) auto

lemma ops_fresh_append:
  "run_ops m ops1 = Inr m1 \<Longrightarrow> ops_fresh m (ops1 @ ops2) \<longleftrightarrow> ops_fresh m ops1 \<and> ops_fresh m1 ops2"
  by (induction ops1 arbitrary: m) (auto split: sum.splits)

lemma mgr_steps_refl [simp]: "mgr_steps m m"
  unfolding mgr_steps_def by (rule exI [of _ "[]"]) simp

lemma mgr_steps_trans [trans]: "mgr_steps a b \<Longrightarrow> mgr_steps b c \<Longrightarrow> mgr_steps a c"
  unfolding mgr_steps_def using run_ops_append ops_fresh_append by metis

lemma mgr_steps_op: "apply_mgr_op m op = Inr m' \<Longrightarrow> op_fresh m op \<Longrightarrow> mgr_steps m m'"
  unfolding mgr_steps_def by (rule exI [of _ "[op]"]) simp

lemma mgr_steps_find: "find_or_create_lease m q fresh = Inr (m', lid) \<Longrightarrow> lease_of m fresh = None \<Longrightarrow>
    mgr_steps m m'"
  by (rule mgr_steps_op [of _ "Op_find q fresh"]) (simp_all add: op_fresh_def)

lemma mgr_steps_plain:
  "target_finished m lid t = Inr m' \<Longrightarrow> mgr_steps m m'"
  "target_started m lid t = Inr m' \<Longrightarrow> mgr_steps m m'"
  "before_normal_request m now lid = Inr m' \<Longrightarrow> mgr_steps m m'"
  "after_normal_request m now lid out = Inr m' \<Longrightarrow> mgr_steps m m'"
  "update_cost_estimates m lid u = Inr m' \<Longrightarrow> mgr_steps m m'"
  "set_route m lid r = Inr m' \<Longrightarrow> mgr_steps m m'"
  "refresh_ttl m lid = Inr m' \<Longrightarrow> mgr_steps m m'"
  using mgr_steps_op [of m "Op_target_finished lid t" m'] mgr_steps_op [of m "Op_target_started lid t" m']
    mgr_steps_op [of m "Op_before now lid" m'] mgr_steps_op [of m "Op_after now lid out" m']
    mgr_steps_op [of m "Op_costs lid u" m'] mgr_steps_op [of m "Op_route lid r" m']
    mgr_steps_op [of m "Op_refresh lid" m']
  by (simp_all add: op_fresh_def)

lemma mgr_steps_state:
  "mgr_steps m (snapshot_change m op)" "mgr_steps m (with_profiles m store)"
  using mgr_steps_op [of m "Op_snapshots op"]
    mgr_steps_op [of m "Op_profiles (map_option profile_for store)"]
  by (simp_all add: op_fresh_def with_profiles_def)

lemma each_target_steps:
  assumes "\<And>m m' t. f m lid t = Inr m' \<Longrightarrow> mgr_steps m m'"
  shows "each_target f lid ts m = Inr m' \<Longrightarrow> mgr_steps m m'"
  by (induction ts arbitrary: m) (auto intro: mgr_steps_trans assms)

lemmas each_finished_steps = each_target_steps [of target_finished, OF mgr_steps_plain(1)]
  and each_started_steps = each_target_steps [of target_started, OF mgr_steps_plain(2)]

lemma drop_untracked_steps: "mgr_steps m (drop_untracked tracked fps m)"
proof (induction fps arbitrary: m)
  case (Cons fp fps)
  show ?case using Cons.IH mgr_steps_state(1) mgr_steps_trans by (simp split: if_split) blast
qed simp

lemma prune_manager:
  "ct_manager (prune_target_ids ct) = ct_manager ct" "mgr_steps (ct_manager ct) (ct_manager (prune_snapshots ct))"
  by (auto simp: prune_target_ids_def prune_snapshots_def drop_untracked_steps split: option.split)

lemma sync_targets_steps:
  "sync_targets ct lid n = Inr ct' \<Longrightarrow> mgr_steps (ct_manager ct) (ct_manager ct')"
  unfolding sync_targets_def Let_def
  by (auto intro: mgr_steps_trans [OF each_finished_steps each_started_steps])

lemma store_snapshot_steps: "mgr_steps (ct_manager ct) (ct_manager (store_snapshot loads ct now l x))"
  by (auto simp: store_snapshot_def mgr_steps_state split: option.split)

lemma affinity_keeps_manager:
  "ct_manager (maybe_set_affinity ct d now l) = ct_manager ct"
  "ct_manager (reconcile_affinity ct store now lid l outc) = ct_manager ct"
proof -
  show m: "ct_manager (maybe_set_affinity ct d now l) = ct_manager ct" for ct d
    by (simp add: maybe_set_affinity_def split: option.split sum.split prod.split)
  show "ct_manager (reconcile_affinity ct store now lid l outc) = ct_manager ct"
    by (simp add: reconcile_affinity_def Let_def m split: option.split)
qed

lemma start_tracked_steps:
  assumes "lease_of (ct_manager ct) fresh = None"
  shows "mgr_steps (ct_manager ct) (ct_manager (fst (start_tracked loads now stamp ct store x th q fresh)))"
proof (cases "find_or_create_lease (with_profiles (ct_manager ct) store) q fresh")
  case (Inl e)
  then show ?thesis by (simp add: start_tracked_def)
next
  case (Inr r)
  obtain m lid where r: "r = (m, lid)" by (cases r)
  define ct1 where "ct1 = prune_snapshots (prune_target_ids (ct\<lparr>ct_manager := m\<rparr>))"
  have "lease_of (with_profiles (ct_manager ct) store) fresh = None"
    using assms by (simp add: with_profiles_def)
  then have "mgr_steps (ct_manager ct) m"
    using mgr_steps_trans [OF mgr_steps_state(2) mgr_steps_find] Inr r by blast
  then have s1: "mgr_steps (ct_manager ct) (ct_manager ct1)"
    unfolding ct1_def using prune_manager(2) [of "prune_target_ids (ct\<lparr>ct_manager := m\<rparr>)"]
    by (simp add: prune_manager(1)) (rule mgr_steps_trans)
  note st = start_tracked_def Inr r ct1_def [symmetric] Let_def
  show ?thesis
  proof (cases "sync_targets ct1 lid (parse_targets_count th)")
    case (Inl e)
    then show ?thesis using s1 by (simp add: st)
  next
    case ct2: (Inr ct2)
    have s2: "mgr_steps (ct_manager ct) (ct_manager ct2)"
      using s1 sync_targets_steps [OF ct2] by (rule mgr_steps_trans)
    show ?thesis
    proof (cases "before_normal_request (ct_manager ct2) now lid")
      case (Inl e)
      then show ?thesis using s2 ct2 by (simp add: st)
    next
      case m3: (Inr m3)
      have "mgr_steps (ct_manager ct) m3"
        using s2 mgr_steps_plain(3) [OF m3] by (rule mgr_steps_trans)
      moreover have "mgr_steps m3 (ct_manager (store_snapshot loads (ct2\<lparr>ct_manager := m3\<rparr>) now l x))" for l
        using store_snapshot_steps [of "ct2\<lparr>ct_manager := m3\<rparr>"] by simp
      ultimately show ?thesis
        using s2 ct2 m3 by (auto simp: st intro: mgr_steps_trans split: option.split)
    qed
  qed
qed

lemma on_request_start_steps:
  assumes "lease_of (ct_manager ct) fresh = None"
  shows "mgr_steps (ct_manager ct)
    (ct_manager (fst (on_request_start loads frepr as_int now stamp ct store x th fresh)))"
  using start_tracked_steps [OF assms]
  by (simp add: on_request_start_def split: option.split sum.split)

lemma on_request_end_steps:
  "mgr_steps (ct_manager ct) (ct_manager (fst (on_request_end now stamp ct store lid outc usage route)))"
proof (cases "after_normal_request (ct_manager ct) now lid outc")
  case (Inl e)
  then show ?thesis by (simp add: on_request_end_def)
next
  case m1: (Inr m1)
  have s1: "mgr_steps (ct_manager ct) m1" using m1 by (rule mgr_steps_plain)
  define costs where "costs = (case usage of
      Some u \<Rightarrow> if 0 < prompt_tokens u then update_cost_estimates m1 lid u else Inr m1 | None \<Rightarrow> Inr m1)"
  note e = on_request_end_def m1 costs_def [symmetric]
  show ?thesis
  proof (cases costs)
    case (Inl e')
    then show ?thesis using s1 by (simp add: e)
  next
    case m2: (Inr m2)
    have "mgr_steps m1 m2"
      using m2 mgr_steps_plain(5) [of m1 lid] by (auto simp: costs_def split: option.splits if_splits)
    then have s2: "mgr_steps (ct_manager ct) m2" using s1 mgr_steps_trans by blast
    define ttl where "ttl = res_bind (if route = None then Inr m2 else set_route m2 lid route)
      (\<lambda>m. refresh_ttl (with_profiles m store) lid)"
    show ?thesis
    proof (cases ttl)
      case (Inl e')
      then show ?thesis using s2 m2 by (simp add: e ttl_def [symmetric])
    next
      case m3: (Inr m3)
      then obtain m' where m': "(if route = None then Inr m2 else set_route m2 lid route) = Inr m'"
        "refresh_ttl (with_profiles m' store) lid = Inr m3"
        by (auto simp: ttl_def)
      have "mgr_steps m2 m'" using m'(1) mgr_steps_plain(6) [of m2 lid] by (auto split: if_splits)
      then have s3: "mgr_steps (ct_manager ct) m3"
        using s2 mgr_steps_state(2) [of m' store] mgr_steps_plain(7) [OF m'(2)] mgr_steps_trans by blast
      have "mgr_steps (ct_manager c) (ct_manager (drop_failed c l outc))" for c l
        by (simp add: drop_failed_def mgr_steps_state)
      from this [of "ct\<lparr>ct_manager := m3\<rparr>"] have "mgr_steps m3 (ct_manager (drop_failed (ct\<lparr>ct_manager := m3\<rparr>) l outc))" for l
        by simp
      then show ?thesis
        using s2 s3 m2 m3
        by (auto simp: e ttl_def [symmetric] Let_def affinity_keeps_manager intro: mgr_steps_trans
            split: option.split)
    qed
  qed
qed

lemma mgr_steps_run:
  assumes "mgr_steps (sc_mgr s) m"
  shows "\<exists>ops. sys.run s (map Ev_op ops) (s\<lparr>sc_mgr := m\<rparr>)"
proof -
  have "run_ops (sc_mgr s) ops = Inr m \<Longrightarrow> ops_fresh (sc_mgr s) ops \<Longrightarrow>
      sys.run s (map Ev_op ops) (s\<lparr>sc_mgr := m\<rparr>)" for ops
  proof (induction ops arbitrary: s)
    case Nil
    then have "s\<lparr>sc_mgr := m\<rparr> = s" by (cases s) simp
    then show ?case by (simp add: sys.run_nil)
  next
    case (Cons op ops)
    then obtain m1 where m1: "apply_mgr_op (sc_mgr s) op = Inr m1" "op_fresh (sc_mgr s) op"
      "ops_fresh m1 ops" "run_ops m1 ops = Inr m" by (auto split: sum.splits)
    have "sched_step s (Ev_op op) (s\<lparr>sc_mgr := m1\<rparr>)" using m1 by (simp add: sched_step.operates)
    moreover have "sys.run (s\<lparr>sc_mgr := m1\<rparr>) (map Ev_op ops) (s\<lparr>sc_mgr := m\<rparr>)"
      using Cons.IH [of "s\<lparr>sc_mgr := m1\<rparr>"] m1 by simp
    ultimately show ?case using sys.run_cons by simp
  qed
  then show ?thesis using assms unfolding mgr_steps_def by blast
qed


section \<open>The invariant of the controller\<close>

text \<open>\<open>_target_ids\<close> remembers, for each lease, exactly the targets the manager has for it.\<close>

definition targets_of :: "lease_manager \<Rightarrow> string \<Rightarrow> string set option" where
  "targets_of m lid = map_option cl_active_targets (lease_of m lid)"

definition ids_of :: "lease_controller \<Rightarrow> string \<Rightarrow> string set" where
  "ids_of ct lid = set (opt_or (dget (ct_target_ids ct) lid) [])"

definition ctl_inv :: "lease_controller \<Rightarrow> bool" where
  "ctl_inv ct \<longleftrightarrow> wf_manager (ct_manager ct) \<and>
     dkeys (ct_target_ids ct) \<subseteq> lease_ids (ct_manager ct) \<and> (\<forall>lid. [] \<notin> ids_of ct lid) \<and>
     (\<forall>lid ts. targets_of (ct_manager ct) lid = Some ts \<longrightarrow> ts = ids_of ct lid)"

lemma targets_of_Some: "targets_of m lid = Some ts \<longleftrightarrow> (\<exists>l. lease_of m lid = Some l \<and> ts = cl_active_targets l)"
  by (auto simp: targets_of_def)

lemma lease_ids_iff: "lid \<in> lease_ids m \<longleftrightarrow> lease_of m lid \<noteq> None"
  by (simp add: lease_ids_def lease_of_def dget_None_iff)

lemma targets_snapshot_change [simp]: "targets_of (snapshot_change m op) = targets_of m"
  by (simp add: targets_of_def fun_eq_iff)

lemma targets_set_profiles [simp]: "targets_of (set_profiles m look) = targets_of m"
  by (simp add: targets_of_def fun_eq_iff)

lemma targets_put_lease [simp]:
  "targets_of (put_lease m lid l) = (targets_of m)(lid := Some (cl_active_targets l))"
  by (auto simp: targets_of_def)

lemma targets_put_runtime [simp]: "targets_of (put_runtime m lid r) = targets_of m"
  by (simp add: targets_of_def fun_eq_iff)

lemma targets_cancel [simp]: "targets_of (cancel_pending_warm m lid) = targets_of m"
  by (simp add: targets_of_def fun_eq_iff)

lemma lease_targets: "lease_of m lid = Some l \<Longrightarrow> targets_of m lid = Some (cl_active_targets l)"
  by (simp add: targets_of_def)

lemma targets_kept:
  "before_normal_request m now lid = Inr m' \<Longrightarrow> targets_of m' = targets_of m"
  "after_normal_request m now lid out = Inr m' \<Longrightarrow> targets_of m' = targets_of m"
  "update_cost_estimates m lid u = Inr m' \<Longrightarrow> targets_of m' = targets_of m"
  "set_route m lid r = Inr m' \<Longrightarrow> targets_of m' = targets_of m"
  "refresh_ttl m lid = Inr m' \<Longrightarrow> targets_of m' = targets_of m"
  by (auto simp: before_normal_request_def after_normal_request_def update_cost_estimates_def
      set_route_def refresh_ttl_def Let_def lease_targets fun_upd_idem
      split: if_splits option.splits)

lemma targets_started:
  "target_started m lid t = Inr m' \<Longrightarrow> t \<noteq> [] \<Longrightarrow> targets_of m lid = Some ts \<Longrightarrow>
   targets_of m' = (targets_of m)(lid := Some (insert t ts))"
  by (auto simp: target_started_def Let_def targets_of_Some)

lemma targets_finished:
  "target_finished m lid t = Inr m' \<Longrightarrow> t \<noteq> [] \<Longrightarrow> targets_of m lid = Some ts \<Longrightarrow>
   targets_of m' = (targets_of m)(lid := Some (ts - {t}))"
  by (auto simp: target_finished_def Let_def targets_of_Some)

lemma targets_total:
  "targets_of m lid = Some ts \<Longrightarrow> \<exists>m'. target_started m lid t = Inr m'"
  "targets_of m lid = Some ts \<Longrightarrow> \<exists>m'. target_finished m lid t = Inr m'"
  by (auto simp: target_started_def target_finished_def Let_def targets_of_Some simp del: res_bind_Inr_iff)

lemma each_started:
  "targets_of m lid = Some ts \<Longrightarrow> [] \<notin> set new \<Longrightarrow>
   \<exists>m'. each_target target_started lid new m = Inr m' \<and>
     targets_of m' = (targets_of m)(lid := Some (ts \<union> set new))"
proof (induction new arbitrary: m ts)
  case Nil
  then show ?case by (simp add: fun_upd_idem)
next
  case (Cons t new)
  obtain m1 where m1: "target_started m lid t = Inr m1" using targets_total(1) Cons.prems(1) by blast
  have "targets_of m1 = (targets_of m)(lid := Some (insert t ts))"
    using targets_started [OF m1 _ Cons.prems(1)] Cons.prems(2) by auto
  then show ?case using Cons.IH [of m1 "insert t ts"] Cons.prems(2) m1 by (auto simp: fun_eq_iff)
qed

lemma each_finished:
  "targets_of m lid = Some ts \<Longrightarrow> [] \<notin> set old \<Longrightarrow>
   \<exists>m'. each_target target_finished lid old m = Inr m' \<and>
     targets_of m' = (targets_of m)(lid := Some (ts - set old))"
proof (induction old arbitrary: m ts)
  case Nil
  then show ?case by (simp add: fun_upd_idem)
next
  case (Cons t old)
  obtain m1 where m1: "target_finished m lid t = Inr m1" using targets_total(2) Cons.prems(1) by blast
  have "targets_of m1 = (targets_of m)(lid := Some (ts - {t}))"
    using targets_finished [OF m1 _ Cons.prems(1)] Cons.prems(2) by auto
  moreover have "ts - {t} - set old = ts - set (t # old)" by auto
  ultimately show ?case using Cons.IH [of m1 "ts - {t}"] Cons.prems(2) m1 by (auto simp: fun_eq_iff)
qed

lemma mgr_steps_moves: "mgr_steps m m' \<Longrightarrow> wf_manager m \<Longrightarrow> wf_manager m' \<and> evolves m m'"
proof -
  have "run_ops m ops = Inr m' \<Longrightarrow> ops_fresh m ops \<Longrightarrow> wf_manager m \<Longrightarrow> wf_manager m' \<and> evolves m m'" for ops
  proof (induction ops arbitrary: m)
    case (Cons op ops)
    then obtain m1 where "apply_mgr_op m op = Inr m1" "op_fresh m op" "ops_fresh m1 ops"
      "run_ops m1 ops = Inr m'" by (auto split: sum.splits)
    then show ?case
      using apply_mgr_op_moves [of m op m1] Cons.IH [of m1] Cons.prems(3) evolves_trans
      by (auto simp: moves_def)
  qed simp
  then show "mgr_steps m m' \<Longrightarrow> wf_manager m \<Longrightarrow> wf_manager m' \<and> evolves m m'"
    by (auto simp: mgr_steps_def)
qed

lemma evolves_ids: "evolves m m' \<Longrightarrow> lease_ids m \<subseteq> lease_ids m'"
  unfolding evolves_def by (force simp: lease_ids_iff)

lemma ctl_inv_manager:
  assumes "ctl_inv ct" and "mgr_steps (ct_manager ct) m" and "targets_of m = targets_of (ct_manager ct)"
  shows "ctl_inv (ct\<lparr>ct_manager := m\<rparr>)"
  using assms mgr_steps_moves [OF assms(2)] evolves_ids [of "ct_manager ct" m]
  by (auto simp: ctl_inv_def ids_of_def)

lemma bg_ids_nonempty: "[] \<notin> set (bg_ids n)"
  by (auto simp: bg_ids_def)

lemma sync_targets_spec:
  assumes "ctl_inv ct" and "lease_of (ct_manager ct) lid = Some l"
  shows "\<exists>ct'. sync_targets ct lid n = Inr ct' \<and> ctl_inv ct' \<and>
    targets_of (ct_manager ct') = (targets_of (ct_manager ct))(lid := Some (set (bg_ids n)))"
proof -
  let ?cur = "opt_or (dget (ct_target_ids ct) lid) []"
  have t: "targets_of (ct_manager ct) lid = Some (set ?cur)"
    using assms(1) lease_targets [OF assms(2)] by (auto simp: ctl_inv_def ids_of_def)
  have ne: "[] \<notin> set ?cur" using assms(1) by (simp add: ctl_inv_def ids_of_def)
  have "set ?cur - set (filter (\<lambda>t. t \<notin> set (bg_ids n)) ?cur) = set ?cur \<inter> set (bg_ids n)" by auto
  then obtain m1 where m1: "each_target target_finished lid (filter (\<lambda>t. t \<notin> set (bg_ids n)) ?cur)
      (ct_manager ct) = Inr m1"
    "targets_of m1 = (targets_of (ct_manager ct))(lid := Some (set ?cur \<inter> set (bg_ids n)))"
    using each_finished [OF t, of "filter (\<lambda>t. t \<notin> set (bg_ids n)) ?cur"] ne by auto
  obtain m2 where m2: "each_target target_started lid (filter (\<lambda>t. t \<notin> set ?cur) (bg_ids n)) m1 = Inr m2"
    "targets_of m2 = (targets_of m1)(lid := Some (set ?cur \<inter> set (bg_ids n) \<union>
       set (filter (\<lambda>t. t \<notin> set ?cur) (bg_ids n))))"
    using each_started [of m1 lid _ "filter (\<lambda>t. t \<notin> set ?cur) (bg_ids n)"] m1(2) bg_ids_nonempty
    by fastforce
  define ct' where "ct' = ct\<lparr>ct_manager := m2, ct_target_ids := dset (ct_target_ids ct) lid (bg_ids n)\<rparr>"
  have s: "sync_targets ct lid n = Inr ct'"
    using m1(1) m2(1) by (simp add: sync_targets_def Let_def ct'_def)
  have "set ?cur \<inter> set (bg_ids n) \<union> set (filter (\<lambda>t. t \<notin> set ?cur) (bg_ids n)) = set (bg_ids n)" by auto
  then have tm: "targets_of m2 = (targets_of (ct_manager ct))(lid := Some (set (bg_ids n)))"
    using m1(2) m2(2) by (simp add: fun_eq_iff)
  have "mgr_steps (ct_manager ct) m2"
    using sync_targets_steps [OF s] by (simp add: ct'_def)
  then have mv: "wf_manager m2" "lease_ids (ct_manager ct) \<subseteq> lease_ids m2"
    using mgr_steps_moves evolves_ids assms(1) by (auto simp: ctl_inv_def)
  have "ctl_inv ct'"
    using mv tm assms bg_ids_nonempty [of n] lease_ids_iff [of lid "ct_manager ct"]
    by (auto simp: ctl_inv_def ct'_def ids_of_def)
  then show ?thesis using s tm by (simp add: ct'_def)
qed

lemma drop_untracked_same:
  "lease_of (drop_untracked tracked fps m) i = lease_of m i"
  "runtime_for (drop_untracked tracked fps m) i = runtime_for m i"
  by (induction fps arbitrary: m) auto

lemma prune_target_ids_inv:
  assumes "ctl_inv ct"
  shows "prune_target_ids ct = ct\<lparr>ct_affinity_registry :=
    aff_prune (ct_affinity_registry ct) (lease_ids (ct_manager ct))\<rparr>"
proof -
  have "filter (\<lambda>(lid, ts). lid \<in> lease_ids (ct_manager ct)) (ct_target_ids ct) = ct_target_ids ct"
    using assms by (force simp: ctl_inv_def filter_id_conv)
  then show ?thesis by (simp add: prune_target_ids_def)
qed

lemma prune_inv:
  assumes "ctl_inv ct" and "ct' = prune_snapshots (prune_target_ids ct)"
  shows "ctl_inv ct' \<and> ct_target_ids ct' = ct_target_ids ct \<and>
    (\<forall>i. lease_of (ct_manager ct') i = lease_of (ct_manager ct) i)"
proof -
  let ?c = "ct\<lparr>ct_affinity_registry := aff_prune (ct_affinity_registry ct) (lease_ids (ct_manager ct))\<rparr>"
  have c: "ctl_inv ?c" using assms(1) by (simp add: ctl_inv_def ids_of_def)
  have p: "ct_target_ids (prune_snapshots ?c) = ct_target_ids ct"
    "prune_snapshots ?c = ?c\<lparr>ct_manager := ct_manager (prune_snapshots ?c)\<rparr>"
    by (simp_all add: prune_snapshots_def split: option.split)
  have l: "lease_of (ct_manager (prune_snapshots ?c)) i = lease_of (ct_manager ct) i" for i
    by (simp add: prune_snapshots_def drop_untracked_same split: option.split)
  have "ctl_inv (?c\<lparr>ct_manager := ct_manager (prune_snapshots ?c)\<rparr>)"
    by (rule ctl_inv_manager [OF c prune_manager(2)]) (simp add: targets_of_def l fun_eq_iff)
  moreover have "ct' = prune_snapshots ?c" using assms(2) prune_target_ids_inv [OF assms(1)] by simp
  ultimately show ?thesis using p l by simp
qed

lemma find_or_create_targets:
  assumes "wf_manager m" and "lease_of m fresh = None"
    and "find_or_create_lease m q fresh = Inr (m', lid)"
  shows "targets_of m' i = (if i = fresh \<and> lid = fresh then Some {} else targets_of m i)"
proof (cases rule: find_or_create_cases [OF assms(1), of q fresh, case_names reuse new])
  case reuse
  then show ?thesis using assms(2,3) by auto
next
  case new
  have "cl_active_targets (new_lease m q fresh) = {}"
    by (simp add: new_lease_def Let_def case_prod_beta)
  moreover have "cl_active_targets (drop_superseded q l) = cl_active_targets l" for l
    by (simp add: drop_superseded_def)
  ultimately show ?thesis
    using create_lease_spec [of m q fresh] new assms(3)
    by (auto simp: targets_of_def option.map_comp comp_def)
qed

lemma find_or_create_inv:
  assumes "ctl_inv ct" and "lease_of (ct_manager ct) fresh = None"
    and "find_or_create_lease (with_profiles (ct_manager ct) store) q fresh = Inr (m, lid)"
  shows "ctl_inv (ct\<lparr>ct_manager := m\<rparr>)"
proof -
  have w: "wf_manager (with_profiles (ct_manager ct) store)"
    "lease_of (with_profiles (ct_manager ct) store) fresh = None"
    using assms(1,2) mgr_steps_moves [OF mgr_steps_state(2)] by (auto simp: ctl_inv_def with_profiles_def)
  have "mgr_steps (ct_manager ct) m"
    using mgr_steps_trans [OF mgr_steps_state(2) mgr_steps_find [OF assms(3) w(2)]] .
  then have mv: "wf_manager m" "lease_ids (ct_manager ct) \<subseteq> lease_ids m"
    using mgr_steps_moves evolves_ids assms(1) by (auto simp: ctl_inv_def)
  have "fresh \<notin> dkeys (ct_target_ids ct)"
    using assms(1,2) by (auto simp: ctl_inv_def lease_ids_iff)
  then have "ids_of ct fresh = {}" by (simp add: ids_of_def dget_None_iff [THEN iffD2])
  then show ?thesis
    using mv assms(1) find_or_create_targets [OF w assms(3)]
    by (auto simp: ctl_inv_def ids_of_def with_profiles_def split: if_splits)
qed

lemma store_snapshot_inv: "ctl_inv ct \<Longrightarrow> ctl_inv (store_snapshot loads ct now l x)"
  by (auto simp: store_snapshot_def mgr_steps_state intro!: ctl_inv_manager split: option.split)

lemma store_snapshot_lease [simp]:
  "lease_of (ct_manager (store_snapshot loads ct now l x)) i = lease_of (ct_manager ct) i"
  "runtime_for (ct_manager (store_snapshot loads ct now l x)) i = runtime_for (ct_manager ct) i"
  by (auto simp: store_snapshot_def split: option.split)

definition replayable :: "(byte list \<Rightarrow> json option) \<Rightarrow> lease_controller \<Rightarrow> exchange \<Rightarrow> string \<Rightarrow> bool" where
  \<comment> \<open>With a store and a JSON object for a body, the snapshot of the identity is this request.\<close>
  "replayable loads ct x fp \<longleftrightarrow>
     (case (lm_snapshot_store (ct_manager ct), json_or_none loads (ex_body x)) of
        (Some ss, Some kvs) \<Rightarrow> (\<exists>snap. snap_get ss fp = Some snap \<and> snap_body snap = kvs \<and>
           snap_upstream_url snap = ex_upstream_url x)
      | _ \<Rightarrow> True)"

lemma store_snapshot_replayable: "replayable loads (store_snapshot loads ct now l x) x (cl_cache_fingerprint l)"
  by (auto simp: replayable_def store_snapshot_def snapshot_change_def snap_store_def snap_get_def
      split: option.split)

lemma start_tracked_spec:
  assumes "ctl_inv ct" and "lease_of (ct_manager ct) fresh = None"
  shows "\<exists>ct' lid l. start_tracked loads now stamp ct store x th q fresh =
      (ct', persist_lease stamp store l, Some lid) \<and>
    ctl_inv ct' \<and> lease_of (ct_manager ct') lid = Some l \<and>
    cl_session_id l = lq_session_id q \<and> cl_cache_fingerprint l = lq_cache_fingerprint q \<and>
    cl_active_targets l = set (bg_ids (parse_targets_count th)) \<and> cl_last_real_request_at l = now \<and>
    rt_real_request_active (runtime_for (ct_manager ct') lid) \<and>
    \<not> rt_pending_warm (runtime_for (ct_manager ct') lid) \<and> replayable loads ct' x (cl_cache_fingerprint l)"
proof -
  let ?m0 = "with_profiles (ct_manager ct) store"
  have w: "wf_manager ?m0" "lease_of ?m0 fresh = None"
    using assms mgr_steps_moves [OF mgr_steps_state(2)] by (auto simp: ctl_inv_def with_profiles_def)
  obtain m1 lid l1 where m1: "find_or_create_lease ?m0 q fresh = Inr (m1, lid)" "lease_of m1 lid = Some l1"
    "cl_session_id l1 = lq_session_id q" "cl_cache_fingerprint l1 = lq_cache_fingerprint q"
    using find_or_create_spec [OF w, of q] by blast
  define ct1 where "ct1 = prune_snapshots (prune_target_ids (ct\<lparr>ct_manager := m1\<rparr>))"
  have ct1: "ctl_inv ct1" "lease_of (ct_manager ct1) lid = Some l1"
    using prune_inv [OF find_or_create_inv [OF assms m1(1)] ct1_def] m1(2) by simp_all
  obtain ct2 where ct2: "sync_targets ct1 lid (parse_targets_count th) = Inr ct2" "ctl_inv ct2"
    "targets_of (ct_manager ct2) lid = Some (set (bg_ids (parse_targets_count th)))"
    using sync_targets_spec [OF ct1] by fastforce
  have "evolves (ct_manager ct1) (ct_manager ct2)"
    using mgr_steps_moves [OF sync_targets_steps [OF ct2(1)]] ct1(1) by (simp add: ctl_inv_def)
  then obtain l2 where l2: "lease_of (ct_manager ct2) lid = Some l2" "lease_evolves l1 l2"
    using ct1(2) unfolding evolves_def by blast
  define l3 where "l3 = l2\<lparr>cl_generation := cl_generation l2 + 1, cl_last_real_request_at := now\<rparr>"
  define m3 where "m3 = cancel_pending_warm (put_lease (put_runtime (ct_manager ct2) lid
    ((runtime_for (ct_manager ct2) lid)\<lparr>rt_real_request_active := True\<rparr>)) lid l3) lid"
  have b: "before_normal_request (ct_manager ct2) now lid = Inr m3"
    by (simp add: before_normal_request_def l2(1) m3_def l3_def Let_def)
  have m3: "lease_of m3 lid = Some l3" "rt_real_request_active (runtime_for m3 lid)"
    "\<not> rt_pending_warm (runtime_for m3 lid)"
    by (simp_all add: m3_def)
  have "ctl_inv (ct2\<lparr>ct_manager := m3\<rparr>)"
    by (rule ctl_inv_manager [OF ct2(2) mgr_steps_plain(3) [OF b] targets_kept(1) [OF b]])
  then have i: "ctl_inv (store_snapshot loads (ct2\<lparr>ct_manager := m3\<rparr>) now l3 x)"
    by (rule store_snapshot_inv)
  have "start_tracked loads now stamp ct store x th q fresh =
      (store_snapshot loads (ct2\<lparr>ct_manager := m3\<rparr>) now l3 x, persist_lease stamp store l3, Some lid)"
    by (simp add: start_tracked_def m1(1) ct1_def [symmetric] ct2(1) b m3(1) Let_def)
  moreover have "cl_active_targets l3 = set (bg_ids (parse_targets_count th))"
    using ct2(3) l2(1) by (simp add: targets_of_def l3_def)
  moreover have "cl_session_id l3 = lq_session_id q" "cl_cache_fingerprint l3 = lq_cache_fingerprint q"
    using l2(2) m1(3,4) by (simp_all add: l3_def lease_evolves_def)
  moreover have "replayable loads (store_snapshot loads (ct2\<lparr>ct_manager := m3\<rparr>) now l3 x) x
      (cl_cache_fingerprint l3)" by (rule store_snapshot_replayable)
  ultimately show ?thesis using i m3 by (simp add: l3_def)
qed

text \<open>After the outcome is booked, the rest of the end handler only refreshes estimates.\<close>

definition core_of :: "cache_lease \<Rightarrow> string \<times> string \<times> int \<times> string set \<times> flt option \<times> lease_state" where
  "core_of l = (cl_cache_fingerprint l, cl_session_id l, cl_generation l, cl_active_targets l,
     cl_last_cache_touch_at l, cl_state l)"

definition quiet :: "string \<Rightarrow> lease_manager \<Rightarrow> lease_manager \<Rightarrow> bool" where
  "quiet lid m m' \<longleftrightarrow>
     map_option core_of (lease_of m' lid) = map_option core_of (lease_of m lid) \<and>
     runtime_for m' = runtime_for m \<and> lm_snapshot_store m' = lm_snapshot_store m \<and>
     lm_settings m' = lm_settings m \<and> lm_has_executor m' = lm_has_executor m"

lemma quiet_refl [simp]: "quiet lid m m"
  by (simp add: quiet_def)

lemma quiet_trans [trans]: "quiet lid a b \<Longrightarrow> quiet lid b c \<Longrightarrow> quiet lid a c"
  by (simp add: quiet_def)

lemma put_lease_fields [simp]:
  "runtime_for (put_lease m lid l) = runtime_for m"
  "lm_snapshot_store (put_lease m lid l) = lm_snapshot_store m"
  "lm_has_executor (put_lease m lid l) = lm_has_executor m"
  "lm_settings (put_lease m lid l) = lm_settings m"
  by (simp_all add: put_lease_def runtime_for_def fun_eq_iff)

lemma quiet_put_lease: "lease_of m lid = Some l \<Longrightarrow> core_of l' = core_of l \<Longrightarrow> quiet lid m (put_lease m lid l')"
  by (simp add: quiet_def)

lemma quiet_profiles [simp]: "quiet lid m (with_profiles m store)"
  by (simp add: quiet_def with_profiles_def set_profiles_def lease_of_def runtime_for_def fun_eq_iff)

lemma quiet_costs:
  assumes "lease_of m lid = Some l"
  shows "\<exists>m'. update_cost_estimates m lid u = Inr m' \<and> quiet lid m m'"
proof (cases "lm_pricing m")
  case None
  then show ?thesis using assms
    by (auto simp: update_cost_estimates_def Let_def core_of_def intro!: quiet_put_lease [OF assms])
next
  case (Some p)
  show ?thesis
  proof (cases "prompt_tokens u \<le> 0")
    case True
    then show ?thesis using assms by (simp add: update_cost_estimates_def Let_def)
  next
    case False
    then have n: "0 \<le> prompt_tokens u" by simp
    obtain cold cached where e: "estimate_resume_costs (prompt_tokens u) p 0 = Inr (cold, cached)"
      using estimate_resume_costs_eq [OF n, of 0 p] by simp
    obtain w where w: "mk_usage (prompt_tokens u) 1 (prompt_tokens u) 0 None = Inr w"
      using n by (simp add: mk_usage_def non_negative_def finite_cost_def)
    define l' where "l' = l\<lparr>cl_prefix_tokens := Some (prompt_tokens u),
      cl_estimated_cold_resume_cost_usd := Some cold, cl_estimated_cached_resume_cost_usd := Some cached,
      cl_next_warm_cost_usd := Some (estimate_cost w p)\<rparr>"
    have "update_cost_estimates m lid u = Inr (put_lease m lid l')"
      using n False by (simp add: update_cost_estimates_def Let_def assms Some e w l'_def max_absorb1)
    then show ?thesis by (auto simp: l'_def core_of_def intro!: quiet_put_lease [OF assms])
  qed
qed

lemma quiet_route:
  assumes "lease_of m lid = Some l"
  shows "\<exists>m'. set_route m lid r = Inr m' \<and> quiet lid m m'"
  using assms by (auto simp: set_route_def core_of_def intro!: quiet_put_lease [OF assms])

lemma quiet_refresh:
  assumes "lease_of m lid = Some l"
  shows "\<exists>m'. refresh_ttl m lid = Inr m' \<and> quiet lid m m'"
  using assms by (auto simp: refresh_ttl_def core_of_def Let_def intro!: quiet_put_lease [OF assms]
      split: option.split)

lemma quiet_known: "quiet lid m m' \<Longrightarrow> lease_of m lid = Some l \<Longrightarrow> \<exists>l'. lease_of m' lid = Some l' \<and> core_of l' = core_of l"
  by (auto simp: quiet_def)

lemma quiet_estimates:
  assumes "lease_of m lid = Some l"
  shows "\<exists>m1 m2. (case usage of Some u \<Rightarrow> if 0 < prompt_tokens u then update_cost_estimates m lid u else Inr m
        | None \<Rightarrow> Inr m) = Inr m1 \<and>
    res_bind (if route = None then Inr m1 else set_route m1 lid route)
      (\<lambda>m. refresh_ttl (with_profiles m store) lid) = Inr m2 \<and> quiet lid m m2"
proof -
  have "\<exists>m1. (case usage of Some u \<Rightarrow> if 0 < prompt_tokens u
      then update_cost_estimates m lid u else Inr m | None \<Rightarrow> Inr m) = Inr m1 \<and> quiet lid m m1"
    using quiet_costs [OF assms, of "the usage"] by (auto split: option.split)
  then obtain m1 where m1: "(case usage of Some u \<Rightarrow> if 0 < prompt_tokens u
      then update_cost_estimates m lid u else Inr m | None \<Rightarrow> Inr m) = Inr m1" "quiet lid m m1"
    by blast
  obtain l1 where l1: "lease_of m1 lid = Some l1" using quiet_known [OF m1(2) assms] by blast
  obtain m2 where m2: "(if route = None then Inr m1 else set_route m1 lid route) = Inr m2" "quiet lid m1 m2"
    using quiet_route [OF l1] by (cases "route = None") auto
  then have q: "quiet lid m1 (with_profiles m2 store)" using quiet_profiles quiet_trans by blast
  obtain l2 where "lease_of (with_profiles m2 store) lid = Some l2" using quiet_known [OF q l1] by blast
  then obtain m3 where m3: "refresh_ttl (with_profiles m2 store) lid = Inr m3"
    "quiet lid (with_profiles m2 store) m3" using quiet_refresh by blast
  have "quiet lid m m3" using quiet_trans [OF quiet_trans [OF m1(2) q] m3(2)] .
  moreover have "res_bind (if route = None then Inr m1 else set_route m1 lid route)
      (\<lambda>m. refresh_ttl (with_profiles m store) lid) = Inr m3"
    by (simp only: m2(1) res_bind.simps m3(1))
  ultimately show ?thesis using m1(1) by blast
qed

definition booked :: "lease_manager \<Rightarrow> flt \<Rightarrow> string \<Rightarrow> outcome \<Rightarrow> cache_lease \<Rightarrow> lease_manager \<Rightarrow> cache_lease \<Rightarrow> bool" where
  \<comment> \<open>What the manager and the lease owe to the outcome of a request.\<close>
  "booked m now lid out l m' l' \<longleftrightarrow>
     cl_cache_fingerprint l' = cl_cache_fingerprint l \<and> cl_session_id l' = cl_session_id l \<and>
     cl_generation l' = cl_generation l \<and> cl_active_targets l' = cl_active_targets l \<and>
     (if cl_state l = INVALIDATED \<or> out = FAILED
      then cl_last_cache_touch_at l' = cl_last_cache_touch_at l \<and> cl_state l' = cl_state l
      else cl_last_cache_touch_at l' = Some now \<and>
        cl_state l' = (if cl_active_targets l = {} then INACTIVE else ARMED)) \<and>
     \<not> rt_real_request_active (runtime_for m' lid) \<and>
     (rt_warm_request_active (runtime_for m' lid) \<longleftrightarrow> rt_warm_request_active (runtime_for m lid)) \<and>
     (rt_circuit_open (runtime_for m' lid) \<longleftrightarrow> rt_circuit_open (runtime_for m lid) \<and>
        \<not> (cl_state l \<noteq> INVALIDATED \<and> (out = CONFIRMED_HIT \<or> out = MISS_REBUILT))) \<and>
     lm_settings m' = lm_settings m \<and> lm_has_executor m' = lm_has_executor m \<and>
     lm_snapshot_store m' = (if out = FAILED
       then map_option (\<lambda>ss. snap_drop ss (cl_cache_fingerprint l)) (lm_snapshot_store m)
       else lm_snapshot_store m)"

lemma after_normal_eq:
  assumes "lease_of m lid = Some l"
  shows "after_normal_request m now lid out = Inr
    (if cl_state l = INVALIDATED \<or> out = FAILED
     then put_runtime m lid ((runtime_for m lid)\<lparr>rt_real_request_active := False\<rparr>)
     else put_lease (put_runtime m lid ((runtime_for m lid)\<lparr>rt_real_request_active := False,
         rt_circuit_open := rt_circuit_open (runtime_for m lid) \<and> out \<noteq> CONFIRMED_HIT \<and> out \<noteq> MISS_REBUILT,
         rt_consecutive_warm_misses := (if out = CONFIRMED_HIT \<or> out = MISS_REBUILT then 0
           else rt_consecutive_warm_misses (runtime_for m lid))\<rparr>)) lid
       (l\<lparr>cl_last_cache_touch_at := Some now,
          cl_last_confirmed_hit_at := (if out = CONFIRMED_HIT then Some now else cl_last_confirmed_hit_at l),
          cl_state := (if cl_active_targets l = {} then INACTIVE else ARMED)\<rparr>))"
  using assms by (simp add: after_normal_request_def Let_def lease_arm_def lease_disarm_def)

lemma after_booked:
  assumes "lease_of m lid = Some l"
  obtains m1 l1 where "after_normal_request m now lid out = Inr m1" "lease_of m1 lid = Some l1"
    "\<And>m2 m3 l2. quiet lid m1 m2 \<Longrightarrow> lease_of m2 lid = Some l2 \<Longrightarrow>
       m3 = (if out = FAILED then snapshot_change m2 (OpDrop (cl_cache_fingerprint l2)) else m2) \<Longrightarrow>
       booked m now lid out l m3 l2"
proof -
  obtain m1 where m1: "after_normal_request m now lid out = Inr m1"
    by (cases "after_normal_request m now lid out")
      (auto simp: after_normal_request_def Let_def assms split: if_splits)
  obtain l1 where l1: "lease_of m1 lid = Some l1"
    using m1 assms by (auto simp: after_normal_request_def Let_def split: if_splits)
  have f: "lm_snapshot_store m1 = lm_snapshot_store m" "lm_settings m1 = lm_settings m"
    "lm_has_executor m1 = lm_has_executor m"
    using m1 assms by (auto simp: after_normal_request_def Let_def put_runtime_def split: if_splits)
  have kept: "cl_cache_fingerprint l1 = cl_cache_fingerprint l" "cl_session_id l1 = cl_session_id l"
    "cl_generation l1 = cl_generation l" "cl_active_targets l1 = cl_active_targets l"
    "cl_last_cache_touch_at l1 = (if cl_state l = INVALIDATED \<or> out = FAILED
       then cl_last_cache_touch_at l else Some now)"
    "cl_state l1 = (if cl_state l = INVALIDATED \<or> out = FAILED then cl_state l
       else if cl_active_targets l = {} then INACTIVE else ARMED)"
    "\<not> rt_real_request_active (runtime_for m1 lid)"
    "rt_warm_request_active (runtime_for m1 lid) \<longleftrightarrow> rt_warm_request_active (runtime_for m lid)"
    "rt_circuit_open (runtime_for m1 lid) \<longleftrightarrow> rt_circuit_open (runtime_for m lid) \<and>
       \<not> (cl_state l \<noteq> INVALIDATED \<and> (out = CONFIRMED_HIT \<or> out = MISS_REBUILT))"
    using m1 [unfolded after_normal_eq [OF assms] sum.inject, symmetric] l1 assms
    by (auto split: if_splits)
  have b: "booked m now lid out l m3 l2"
    if q: "quiet lid m1 m2" "lease_of m2 lid = Some l2"
      and m3: "m3 = (if out = FAILED then snapshot_change m2 (OpDrop (cl_cache_fingerprint l2)) else m2)"
    for m2 m3 l2
  proof -
    have c: "core_of l2 = core_of l1" using q l1 by (simp add: quiet_def)
    have r: "runtime_for m3 lid = runtime_for m1 lid" using q(1) m3 by (simp add: quiet_def)
    have k: "lm_settings m3 = lm_settings m" "lm_has_executor m3 = lm_has_executor m"
      "lm_snapshot_store m3 = (if out = FAILED
         then map_option (\<lambda>ss. snap_drop ss (cl_cache_fingerprint l2)) (lm_snapshot_store m)
         else lm_snapshot_store m)"
      using q(1) m3 f by (auto simp: quiet_def snapshot_change_def)
    have c2: "cl_cache_fingerprint l2 = cl_cache_fingerprint l1" "cl_session_id l2 = cl_session_id l1"
      "cl_generation l2 = cl_generation l1" "cl_active_targets l2 = cl_active_targets l1"
      "cl_last_cache_touch_at l2 = cl_last_cache_touch_at l1" "cl_state l2 = cl_state l1"
      using c by (simp_all add: core_of_def)
    show ?thesis unfolding booked_def r k c2 using kept by (auto split: if_splits)
  qed
  from that [OF m1 l1 b] show thesis .
qed

lemma affinity_fields [simp]:
  "ct_target_ids (maybe_set_affinity ct d now l) = ct_target_ids ct"
  "ct_target_ids (reconcile_affinity ct store now lid l outc) = ct_target_ids ct"
proof -
  show m: "ct_target_ids (maybe_set_affinity ct d now l) = ct_target_ids ct" for ct d
    by (simp add: maybe_set_affinity_def split: option.split sum.split prod.split)
  show "ct_target_ids (reconcile_affinity ct store now lid l outc) = ct_target_ids ct"
    by (simp add: reconcile_affinity_def Let_def m split: option.split)
qed

lemma ctl_inv_cong:
  "ctl_inv ct \<Longrightarrow> ct_manager ct' = ct_manager ct \<Longrightarrow> ct_target_ids ct' = ct_target_ids ct \<Longrightarrow> ctl_inv ct'"
  by (simp add: ctl_inv_def ids_of_def)

lemma on_request_end_spec:
  assumes "ctl_inv ct" and "lease_of (ct_manager ct) lid = Some l" and "ct_enabled ct"
  shows "\<exists>ct' l'. on_request_end now stamp ct store lid outc usage route =
      (ct', persist_lease stamp store l') \<and> ctl_inv ct' \<and> lease_of (ct_manager ct') lid = Some l' \<and>
    booked (ct_manager ct) now lid outc l (ct_manager ct') l'"
proof -
  obtain m1 l1 where m1: "after_normal_request (ct_manager ct) now lid outc = Inr m1" "lease_of m1 lid = Some l1"
    and b: "\<And>m2 m3 l2. quiet lid m1 m2 \<Longrightarrow> lease_of m2 lid = Some l2 \<Longrightarrow>
       m3 = (if outc = FAILED then snapshot_change m2 (OpDrop (cl_cache_fingerprint l2)) else m2) \<Longrightarrow>
       booked (ct_manager ct) now lid outc l m3 l2"
    using after_booked [OF assms(2), of now outc] by metis
  obtain m2 m3 where m2: "(case usage of Some u \<Rightarrow> if 0 < prompt_tokens u
      then update_cost_estimates m1 lid u else Inr m1 | None \<Rightarrow> Inr m1) = Inr m2"
    and m3: "res_bind (if route = None then Inr m2 else set_route m2 lid route)
      (\<lambda>m. refresh_ttl (with_profiles m store) lid) = Inr m3" and q: "quiet lid m1 m3"
    using quiet_estimates [OF m1(2), of usage route store] by blast
  obtain l3 where l3: "lease_of m3 lid = Some l3" using quiet_known [OF q m1(2)] by blast
  define ct' where "ct' = reconcile_affinity (drop_failed (ct\<lparr>ct_manager := m3\<rparr>) l3 outc)
    (persist_lease stamp store l3) now lid l3 outc"
  have e: "on_request_end now stamp ct store lid outc usage route = (ct', persist_lease stamp store l3)"
    by (simp only: on_request_end_def assms(3) m1(1) m2 m3 l3 ct'_def Let_def sum.case option.case
        not_True_eq_False if_False)
  have m': "ct_manager ct' = (if outc = FAILED
      then snapshot_change m3 (OpDrop (cl_cache_fingerprint l3)) else m3)"
    by (simp add: ct'_def affinity_keeps_manager drop_failed_def)
  have "mgr_steps (ct_manager ct) (ct_manager ct')"
    using on_request_end_steps [of ct now stamp store lid outc usage route] by (simp add: e)
  moreover have "targets_of (ct_manager ct') = targets_of (ct_manager ct)"
    using m1(1) m2 m3 targets_kept by (auto simp: m' with_profiles_def split: option.splits if_splits)
  ultimately have "ctl_inv (ct\<lparr>ct_manager := ct_manager ct'\<rparr>)" by (rule ctl_inv_manager [OF assms(1)])
  then have "ctl_inv ct'" by (rule ctl_inv_cong) (simp_all add: ct'_def drop_failed_def)
  moreover have "lease_of (ct_manager ct') lid = Some l3" using l3 by (simp add: m')
  ultimately show ?thesis using e b [OF q l3 m'] by blast
qed

section \<open>Waiting, then warming\<close>

lemma sync_targets_enabled: "sync_targets ct lid n = Inr ct' \<Longrightarrow> ct_enabled ct' = ct_enabled ct"
  by (auto simp: sync_targets_def Let_def)

lemma start_enabled: "ct_enabled (fst (start_tracked loads now stamp ct store x th q fresh)) = ct_enabled ct"
  by (auto simp: start_tracked_def Let_def store_snapshot_def prune_snapshots_def prune_target_ids_def
      dest!: sync_targets_enabled split: sum.split option.split prod.split)

lemma on_request_start_SomeD:
  assumes "on_request_start loads frepr as_int now stamp ct store x th fresh = (ct', store', Some lid)"
  obtains session c where "ct_enabled ct" "ex_session_header x = Some session" "session \<noteq> []"
    "canonical_of loads frepr as_int x (request_route_identity (ex_upstream_url x)) = Inr c"
    "start_tracked loads now stamp ct store x th (lease_request_of frepr session c) fresh =
       (ct', store', Some lid)"
  using assms by (auto simp: on_request_start_def split: option.splits if_splits sum.splits)

lemma scheduled_then_due:
  assumes l: "lease_of m lid = Some l" and touch: "cl_last_cache_touch_at l = Some t1"
    and armed: "cl_state l = ARMED" "cl_active_targets l \<noteq> {}"
    and idle: "\<not> rt_real_request_active (runtime_for m lid)" "\<not> rt_warm_request_active (runtime_for m lid)"
      "\<not> rt_circuit_open (runtime_for m lid)"
    and config: "\<not> ls_dry_run (lm_settings m)" "lm_has_executor m"
    and snap: "lm_snapshot_store m = Some ss" "snap_get ss (cl_cache_fingerprint l) = Some snap"
  shows "\<exists>due. next_deadline m l = Some due \<and> (\<forall>t now. t < due \<and> due \<le> now \<longrightarrow>
    snd (evaluate_head m t lid) = Done SCHEDULED \<and>
    warm_send (fst (evaluate_head m t lid)) now lid = (if snd (economic_gate m l) then Some snap else None))"
proof -
  obtain due where due: "next_deadline m l = Some due" using next_deadline_interval [OF touch] by blast
  define l' where "l' = l\<lparr>cl_state := WARM_SCHEDULED\<rparr>"
  define m' where "m' = put_lease (put_runtime m lid ((runtime_for m lid)\<lparr>
    rt_scheduled_generation := Some (cl_generation l), rt_pending_warm := True\<rparr>)) lid l'"
  have h: "evaluate_head m t lid = (m', Done SCHEDULED)" if "t < due" for t
    using that due idle armed by (simp add: evaluate_head_def l Let_def m'_def l'_def)
  have d': "next_deadline m' l' = Some due"
    using due touch by (simp add: next_deadline_def Let_def network_margin_def jitter_for_def m'_def l'_def
        put_lease_def put_runtime_def)
  have g: "snd (economic_gate m' l') \<longleftrightarrow> snd (economic_gate m l)"
    by (simp add: economic_gate_snd lease_economics_def resume_probability_def m'_def l'_def
        put_lease_def put_runtime_def)
  have m': "lease_of m' lid = Some l'" "lm_settings m' = lm_settings m" "lm_has_executor m' = lm_has_executor m"
    "lm_snapshot_store m' = lm_snapshot_store m"
    "runtime_for m' lid = (runtime_for m lid)\<lparr>rt_scheduled_generation := Some (cl_generation l),
       rt_pending_warm := True\<rparr>"
    by (simp_all add: m'_def put_runtime_def) (simp add: runtime_for_def)
  have sends: "warm_send m' now lid = Some s \<longleftrightarrow> snd (economic_gate m l) \<and> s = snap" if "due \<le> now" for now s
    unfolding warm_send_iff m' using d' g that idle armed config snap by (auto simp: l'_def)
  have "warm_send m' now lid = (if snd (economic_gate m l) then Some snap else None)"
    if "due \<le> now" for now
    using sends [OF that, of snap] sends [OF that] by (cases "warm_send m' now lid") (simp, metis)
  then show ?thesis using due h by simp
qed

section \<open>A concrete session\<close>

definition sample_controller :: lease_controller where
  "sample_controller = controller_init
     (default_settings\<lparr>ls_dry_run := False, ls_economics := default_economic_config\<lparr>enabled := False\<rparr>\<rparr>)
     4 None True (Some []) True \<lparr>aff_enabled = False, aff_safety_margin = 0\<rparr> 0 []"

definition sample_exchange :: exchange where
  "sample_exchange = \<lparr>ex_body = [1], ex_path = ''/v1/chat/completions'',
     ex_upstream_url = ''https://h/v1'', ex_session_header = Some ''s'', ex_auth_headers = []\<rparr>"

lemma sample_controller_inv: "ctl_inv sample_controller" "lease_of (ct_manager sample_controller) i = None"
  by (simp_all add: ctl_inv_def wf_manager_def sample_controller_def controller_init_def mk_manager_def
      lease_of_def ids_of_def targets_of_def)

lemma sample_exchange_canonical:
  "\<exists>c. canonical_of sample_loads (\<lambda>_. ''0'') sample_int sample_exchange
     (request_route_identity (ex_upstream_url sample_exchange)) = Inr c"
  by (simp add: canonical_of_def sample_exchange_def derive_auth_scope_def build_canonical_request_def
      sample_json sample_url sample_snapshot_def model_field_def
      non_system_messages_def system_content_def max_tokens_field_def from_content_def
      valid_canonical_def valid_identity_def hexdigest_sha_nonempty hash_content_nonempty Let_def
      split: option.split)

lemma sample_count: "parse_targets_count (Some ''1'') = 1"
  by code_simp

lemma sample_run:
  "\<exists>ct1 l. start_tracked sample_loads 0 0 sample_controller None sample_exchange
      (Some ''1'') q ''L1'' = (ct1, None, Some ''L1'') \<and> lease_of (ct_manager ct1) ''L1'' = Some l \<and>
    cl_state l \<noteq> INVALIDATED \<and> \<not> rt_warm_request_active (runtime_for (ct_manager ct1) ''L1'') \<and>
    lm_snapshot_store (ct_manager ct1) \<noteq> None \<and> lm_has_executor (ct_manager ct1) \<and>
    \<not> ls_dry_run (lm_settings (ct_manager ct1))"
  by (simp add: start_tracked_def sample_count sample_controller_def controller_init_def mk_manager_def
      find_or_create_lease_def create_lease_def with_profiles_def set_profiles_def lease_of_def
      put_lease_def prune_target_ids_def prune_snapshots_def sync_targets_def bg_ids_def
      target_started_def before_normal_request_def store_snapshot_def sample_exchange_def
      sample_json persist_lease_def put_runtime_def cancel_pending_warm_def runtime_for_def
      initial_runtime_def snapshot_change_def require_def Let_def lease_ids_def lease_arm_def
      new_lease_def default_settings_def case_prod_beta)

lemma sample_start:
  obtains ct1 l where "on_request_start sample_loads (\<lambda>_. ''0'') sample_int 0 0 sample_controller None
      sample_exchange (Some ''1'') ''L1'' = (ct1, None, Some ''L1'')" "ctl_inv ct1"
    "lease_of (ct_manager ct1) ''L1'' = Some l" "ct_enabled ct1" "cl_state l \<noteq> INVALIDATED"
    "\<not> rt_warm_request_active (runtime_for (ct_manager ct1) ''L1'')"
    "lm_snapshot_store (ct_manager ct1) \<noteq> None" "lm_has_executor (ct_manager ct1)"
    "\<not> ls_dry_run (lm_settings (ct_manager ct1))"
proof -
  obtain c where c: "canonical_of sample_loads (\<lambda>_. ''0'') sample_int sample_exchange
      (request_route_identity (ex_upstream_url sample_exchange)) = Inr c"
    using sample_exchange_canonical ..
  let ?q = "lease_request_of (\<lambda>_. ''0'') ''s'' c"
  have s: "ex_session_header sample_exchange = Some ''s''" "ct_enabled sample_controller"
    by (simp_all add: sample_exchange_def sample_controller_def controller_init_def)
  have e: "on_request_start sample_loads (\<lambda>_. ''0'') sample_int 0 0 sample_controller None sample_exchange
      (Some ''1'') ''L1'' = start_tracked sample_loads 0 0 sample_controller None sample_exchange
        (Some ''1'') ?q ''L1''"
    using c s by (simp add: on_request_start_def)
  obtain ct1 l where r: "start_tracked sample_loads 0 0 sample_controller None sample_exchange
      (Some ''1'') ?q ''L1'' = (ct1, None, Some ''L1'')" "lease_of (ct_manager ct1) ''L1'' = Some l"
    "cl_state l \<noteq> INVALIDATED" "\<not> rt_warm_request_active (runtime_for (ct_manager ct1) ''L1'')"
    "lm_snapshot_store (ct_manager ct1) \<noteq> None" "lm_has_executor (ct_manager ct1)"
    "\<not> ls_dry_run (lm_settings (ct_manager ct1))" using sample_run by blast
  have "ctl_inv ct1"
    using start_tracked_spec [OF sample_controller_inv, of sample_loads 0 0 None sample_exchange
        "Some ''1''" ?q "''L1''"] r(1) by auto
  moreover have "ct_enabled ct1"
    using start_enabled [of sample_loads 0 0 sample_controller None sample_exchange "Some ''1''" ?q "''L1''"]
      r(1) s(2) by simp
  ultimately show thesis using that r e by metis
qed

section \<open>The contracts of the handlers\<close>

text \<open>C7: What a tracked request leaves behind. From any state of the controller invariant, a request
  that carries a session, reaches an enabled controller and has a canonical form is always tracked:
  the handler answers with a lease of that session and of the request's own cache identity, whose
  targets are exactly the announced number, which is marked as having a real request in flight and
  has no pending warm; the lease is stored, the snapshot a warm would replay is this request, and
  the invariant is kept. Every other request leaves the controller and the store as they were.\<close>

theorem request_start_contract:
  assumes "ctl_inv ct" and "lease_of (ct_manager ct) fresh = None"
    and "c = canonical_of loads frepr as_int x (request_route_identity (ex_upstream_url x))"
  shows "if ct_enabled ct \<and> ex_session_header x \<notin> {None, Some []} \<and> (\<exists>r. c = Inr r)
    then \<exists>ct' lid l. on_request_start loads frepr as_int now stamp ct store x th fresh =
        (ct', persist_lease stamp store l, Some lid) \<and>
      ctl_inv ct' \<and> lease_of (ct_manager ct') lid = Some l \<and>
      ex_session_header x = Some (cl_session_id l) \<and>
      c \<in> {Inr r |r. cl_cache_fingerprint l = cache_fingerprint frepr r} \<and>
      cl_active_targets l = set (bg_ids (parse_targets_count th)) \<and> cl_last_real_request_at l = now \<and>
      rt_real_request_active (runtime_for (ct_manager ct') lid) \<and>
      \<not> rt_pending_warm (runtime_for (ct_manager ct') lid) \<and>
      replayable loads ct' x (cl_cache_fingerprint l)
    else on_request_start loads frepr as_int now stamp ct store x th fresh = (ct, store, None)"
proof (cases "ct_enabled ct \<and> ex_session_header x \<notin> {None, Some []} \<and> (\<exists>r. c = Inr r)")
  case True
  then obtain session r where s: "ex_session_header x = Some session" "session \<noteq> []" "c = Inr r" by auto
  have e: "on_request_start loads frepr as_int now stamp ct store x th fresh =
      start_tracked loads now stamp ct store x th (lease_request_of frepr session r) fresh"
    using True s assms(3) by (simp add: on_request_start_def)
  have q: "lq_session_id (lease_request_of frepr session r) = session"
    "lq_cache_fingerprint (lease_request_of frepr session r) = cache_fingerprint frepr r"
    by (simp_all add: lease_request_of_def)
  show ?thesis
    using start_tracked_spec [OF assms(1,2), of loads now stamp store x th
        "lease_request_of frepr session r"] True s
    unfolding e q by auto
next
  case False
  then show ?thesis
    using assms(3) by (auto simp: on_request_start_def split: option.split sum.split)
qed

theorem request_start_contract_witness:
  "\<exists>ct' store' lid. on_request_start sample_loads (\<lambda>_. ''0'') sample_int 0 0 sample_controller None
     sample_exchange (Some ''1'') ''L1'' = (ct', store', Some lid) \<and> ctl_inv ct'"
proof -
  have "ct_enabled sample_controller \<and> ex_session_header sample_exchange \<notin> {None, Some []}"
    by (simp add: sample_exchange_def sample_controller_def controller_init_def)
  then show ?thesis
    using request_start_contract [OF sample_controller_inv refl, of sample_exchange sample_loads "\<lambda>_. ''0''"
        sample_int 0 0 None "Some ''1''" "''L1''"] sample_exchange_canonical
    by (simp only: if_P simp_thms) blast
qed

text \<open>C8: A failed request fails closed. When a tracked request ends as failed, the last cache touch and
  the state of its lease do not move, no real request is marked in flight, the snapshot of its cache
  identity is gone, and no evaluation at any later time sends a warm for it, while the invariant is
  kept and the lease is stored.\<close>

theorem failed_request_not_warmable:
  assumes "ctl_inv ct" and "lease_of (ct_manager ct) lid = Some l" and "ct_enabled ct"
    and "on_request_end now stamp ct store lid FAILED usage route = (ct', store')"
  shows "\<exists>l'. lease_of (ct_manager ct') lid = Some l' \<and> ctl_inv ct' \<and>
    store' = persist_lease stamp store l' \<and> cl_last_cache_touch_at l' = cl_last_cache_touch_at l \<and>
    cl_state l' = cl_state l \<and> \<not> rt_real_request_active (runtime_for (ct_manager ct') lid) \<and>
    (\<forall>t. warm_send (ct_manager ct') t lid = None)"
proof -
  obtain l' where l': "store' = persist_lease stamp store l'" "ctl_inv ct'"
    "lease_of (ct_manager ct') lid = Some l'" "booked (ct_manager ct) now lid FAILED l (ct_manager ct') l'"
    using on_request_end_spec [OF assms(1-3), of now stamp store FAILED usage route] assms(4) by auto
  have "cannot_warm (ct_manager ct') lid"
    using l'(3,4) by (auto simp: cannot_warm_def booked_def snap_get_def snap_drop_def split: option.split)
  then have "warm_send (ct_manager ct') t lid = None" for t by (rule cannot_warm_send)
  then show ?thesis using l' by (auto simp: booked_def)
qed

theorem failed_request_not_warmable_witness:
  "\<exists>ct l. lease_of (ct_manager ct) ''L1'' = Some l \<and> ctl_inv ct \<and> warm_send (ct_manager ct) 1000 ''L1'' = None"
proof -
  obtain ct1 l where c: "ctl_inv ct1" "lease_of (ct_manager ct1) ''L1'' = Some l" "ct_enabled ct1"
    by (rule sample_start)
  obtain ct2 store2 where e: "on_request_end 1 0 ct1 None ''L1'' FAILED None None = (ct2, store2)"
    by (cases "on_request_end 1 0 ct1 None ''L1'' FAILED None None")
  from failed_request_not_warmable [OF c e] show ?thesis by blast
qed




end
