(* ===== verification/Proxy.thy ===== *)
theory Proxy
  imports ControllerLaws
begin

text \<open>
  The relay's data plane, \<open>cachepilot_relay/proxy.py\<close>: the header surgery, the upstream URL, the
  forwarded request and the mirrored response, with the observer and the lease controller around
  them. \<open>forward\<close> awaits the upstream once, so it is two segments: \<open>forward_begin\<close> up to the send
  and \<open>forward_end\<close> from its result on. The provider adapter is a parameter: whether it can pin a
  route and, if so, what it does to a body (nothing when it returns the same object). Header names
  arrive in lower case, as ASGI and httpx deliver them; of repeated names \<open>get\<close> reads the first
  and the copy into a dictionary keeps the last. The observer and the controller share one store.
\<close>

section \<open>Headers and URLs\<close>

definition HOP_BY_HOP_HEADERS :: "string list" where
  "HOP_BY_HOP_HEADERS = [''connection'', ''keep-alive'', ''proxy-authenticate'', ''proxy-authorization'',
     ''proxy-connection'', ''te'', ''trailer'', ''transfer-encoding'', ''upgrade'']"

definition connection_tokens :: "headers \<Rightarrow> string list" where
  "connection_tokens hs =
     map (\<lambda>t. py_lower (py_strip t))
       (filter (\<lambda>t. py_strip t \<noteq> []) (split_on (CHR '','') (opt_or (dget hs ''connection'') [])))"

definition strip_hop_by_hop :: "headers \<Rightarrow> headers" where
  "strip_hop_by_hop hs =
     (let banned = HOP_BY_HOP_HEADERS @ connection_tokens hs
      in foldl (\<lambda>d (k, v). if py_lower k \<notin> set banned then dset d k v else d) [] hs)"

definition build_upstream_url :: "string \<Rightarrow> string \<Rightarrow> string \<Rightarrow> string" where
  "build_upstream_url base path query =
     (let prefix = rstrip_by (\<lambda>c. c = CHR ''/'') base;
          request_path = dropWhile (\<lambda>c. c = CHR ''/'') path;
          url = (if request_path \<noteq> [] then prefix @ ''/'' @ request_path else prefix)
      in if query \<noteq> [] then url @ ''?'' @ query else url)"

definition should_stream :: "headers \<Rightarrow> bool" where
  "should_stream hs \<longleftrightarrow>
     starts_with ''text/event-stream'' (opt_or (dget hs ''content-type'') []) \<or>
     dget hs ''content-length'' = None"

fun compact_json :: "(pyfloat \<Rightarrow> string) \<Rightarrow> json \<Rightarrow> string" where
  \<comment> \<open>\<open>json.dumps(value, separators=(",", ":"))\<close>: the keys in insertion order.\<close>
  "compact_json frepr JNull = ''null''"
| "compact_json frepr (JBool b) = (if b then ''true'' else ''false'')"
| "compact_json frepr (JInt i) = int_str i"
| "compact_json frepr (JFloat x) = frepr x"
| "compact_json frepr (JStr s) = json_string s"
| "compact_json frepr (JArr xs) = ''['' @ py_join '','' (map (compact_json frepr) xs) @ '']''"
| "compact_json frepr (JObj kvs) =
     ''{'' @ py_join '','' (map (\<lambda>(k, v). json_string k @ '':'' @ compact_json frepr v) kvs) @ ''}''"

section \<open>The proxy\<close>

record proxy =
  px_upstream :: string
  px_route_affinity_enabled :: bool
  px_observer :: "observer option"
  px_controller :: "lease_controller option"

record incoming =
  in_method :: string
  in_path :: string
  in_query :: string
  in_headers :: headers
  in_body :: "byte list"

record upstream_request =
  up_method :: string
  up_url :: string
  up_headers :: headers
  up_body :: "byte list"

record upstream_response =
  ur_status :: int
  ur_headers :: headers
  ur_body :: "byte list"

datatype upstream_result = Timed_out | Unreachable | Answered upstream_response

record relay_response =
  rr_status :: int
  rr_headers :: headers
  rr_body :: "byte list"
  rr_streamed :: bool

definition px_store :: "proxy \<Rightarrow> db option" where
  "px_store px = (case px_observer px of None \<Rightarrow> None | Some ob \<Rightarrow> ob_store ob)"

definition set_px_store :: "proxy \<Rightarrow> db option \<Rightarrow> proxy" where
  "set_px_store px store = px\<lparr>px_observer := map_option (\<lambda>ob. ob\<lparr>ob_store := store\<rparr>) (px_observer px)\<rparr>"

definition exchange_of :: "incoming \<Rightarrow> string \<Rightarrow> byte list \<Rightarrow> exchange" where
  "exchange_of rq url body =
     \<lparr>ex_body = body, ex_path = in_path rq, ex_upstream_url = url,
      ex_session_header = dget (in_headers rq) ''x-cachepilot-session'',
      ex_auth_headers = in_headers rq\<rparr>"

definition proxy_init ::
  "string \<Rightarrow> bool \<Rightarrow> bool \<Rightarrow> bool \<Rightarrow> affinity_config \<Rightarrow> flt \<Rightarrow> lease_settings \<Rightarrow> string list \<Rightarrow> db option \<Rightarrow> proxy" where
  "proxy_init upstream watch route_intel churn affinity extra settings replay store =
     \<lparr>px_upstream = upstream, px_route_affinity_enabled = aff_enabled affinity,
      px_observer = (if watch then Some (observer_init watch route_intel churn store) else None),
      px_controller = (if watch
        then Some (controller_init settings 4 store watch (Some snap_init) True affinity extra replay)
        else None)\<rparr>"

section \<open>Before the upstream call\<close>

definition lease_start ::
  "(byte list \<Rightarrow> json option) \<Rightarrow> (pyfloat \<Rightarrow> string) \<Rightarrow> (json \<Rightarrow> int option) \<Rightarrow> flt \<Rightarrow> timestamp \<Rightarrow>
   string \<Rightarrow> proxy \<Rightarrow> incoming \<Rightarrow> string \<Rightarrow> proxy \<times> string option" where
  "lease_start loads frepr as_int now stamp fresh px rq url =
     (case px_controller px of
        None \<Rightarrow> (px, None)
      | Some ct \<Rightarrow>
          (case on_request_start loads frepr as_int now stamp ct (px_store px)
                  (exchange_of rq url (in_body rq)) (dget (in_headers rq) ''x-cachepilot-targets'') fresh of
             (ct, store, ctx) \<Rightarrow> (set_px_store (px\<lparr>px_controller := Some ct\<rparr>) store, ctx)))"

definition apply_affinity ::
  "(byte list \<Rightarrow> json option) \<Rightarrow> (pyfloat \<Rightarrow> string) \<Rightarrow> bool \<Rightarrow> (json_body \<Rightarrow> string \<Rightarrow> py_error + json_body option) \<Rightarrow>
   flt \<Rightarrow> proxy \<Rightarrow> byte list \<Rightarrow> string option \<Rightarrow> proxy \<times> byte list" where
  \<comment> \<open>\<open>pin\<close> answers \<open>None\<close> for the same object, and an exception leaves the body verbatim.\<close>
  "apply_affinity loads frepr can_pin pin now px body ctx =
     (case (ctx, px_controller px) of
        (Some lid, Some ct) \<Rightarrow>
          if \<not> px_route_affinity_enabled px \<or> \<not> can_pin then (px, body)
          else
            (case active_affinity_route ct now lid of
               (ct, route) \<Rightarrow>
                 (px\<lparr>px_controller := Some ct\<rparr>,
                  case (route, json_or_none loads body) of
                    (Some r, Some kvs) \<Rightarrow>
                      (case pin kvs r of
                         Inr (Some modified) \<Rightarrow> utf8 (compact_json frepr (JObj modified))
                       | _ \<Rightarrow> body)
                  | _ \<Rightarrow> body))
      | _ \<Rightarrow> (px, body))"

definition forwarded_headers :: "headers \<Rightarrow> headers" where
  "forwarded_headers hs = strip_correlation_headers (dpop (strip_hop_by_hop hs) ''host'')"

definition forward_begin ::
  "(byte list \<Rightarrow> json option) \<Rightarrow> (pyfloat \<Rightarrow> string) \<Rightarrow> (json \<Rightarrow> int option) \<Rightarrow> bool \<Rightarrow>
   (json_body \<Rightarrow> string \<Rightarrow> py_error + json_body option) \<Rightarrow> flt \<Rightarrow> timestamp \<Rightarrow> string \<Rightarrow> proxy \<Rightarrow> incoming \<Rightarrow>
     proxy \<times> upstream_request \<times> string option" where
  "forward_begin loads frepr as_int can_pin pin now stamp fresh px rq =
     (let url = build_upstream_url (px_upstream px) (in_path rq) (in_query rq);
          (px, ctx) = lease_start loads frepr as_int now stamp fresh px rq url;
          (px, body) = apply_affinity loads frepr can_pin pin now px (in_body rq) ctx
      in (px, \<lparr>up_method = in_method rq, up_url = url, up_headers = forwarded_headers (in_headers rq),
               up_body = body\<rparr>, ctx))"

section \<open>After the upstream call\<close>

definition px_observe ::
  "proxy \<Rightarrow> (observer \<Rightarrow> observer \<times> (py_error + 'a)) \<Rightarrow> 'a \<Rightarrow> proxy \<times> 'a" where
  \<comment> \<open>Fail open: no observer, or an exception of it, gives the default.\<close>
  "px_observe px f d =
     (case px_observer px of
        None \<Rightarrow> (px, d)
      | Some ob \<Rightarrow> (case f ob of (ob, r) \<Rightarrow>
          (px\<lparr>px_observer := Some ob\<rparr>, case r of Inl e \<Rightarrow> d | Inr x \<Rightarrow> x)))"

definition lease_end ::
  "flt \<Rightarrow> timestamp \<Rightarrow> proxy \<Rightarrow> string option \<Rightarrow> outcome \<Rightarrow> token_usage option \<Rightarrow> string option \<Rightarrow> proxy" where
  "lease_end now stamp px ctx outc usage route =
     (case (ctx, px_controller px) of
        (Some lid, Some ct) \<Rightarrow>
          (case on_request_end now stamp ct (px_store px) lid outc usage route of
             (ct, store) \<Rightarrow> set_px_store (px\<lparr>px_controller := Some ct\<rparr>) store)
      | _ \<Rightarrow> px)"

definition error_body :: "bool \<Rightarrow> byte list" where
  "error_body timed_out = utf8 (compact_json (\<lambda>_. []) (JObj [(''error'', JObj
     [(''type'', JStr (if timed_out then ''upstream_timeout'' else ''upstream_unreachable'')),
      (''message'', JStr (if timed_out then ''the upstream provider did not respond in time''
                          else ''the upstream provider could not be reached''))])]))"

definition error_response :: "bool \<Rightarrow> relay_response" where
  "error_response timed_out =
     \<lparr>rr_status = (if timed_out then 504 else 502), rr_headers = [(''content-type'', ''application/json'')],
      rr_body = error_body timed_out, rr_streamed = False\<rparr>"

definition mirror :: "upstream_response \<Rightarrow> relay_response" where
  "mirror r =
     (let hs = strip_hop_by_hop (ur_headers r); live = should_stream (ur_headers r)
      in \<lparr>rr_status = ur_status r, rr_headers = (if live then dpop hs ''content-length'' else hs),
          rr_body = ur_body r, rr_streamed = live\<rparr>)"

definition forward_end ::
  "(byte list \<Rightarrow> json option) \<Rightarrow> (pyfloat \<Rightarrow> string) \<Rightarrow> (json \<Rightarrow> int option) \<Rightarrow> flt \<Rightarrow> timestamp \<Rightarrow> proxy \<Rightarrow>
   incoming \<Rightarrow> upstream_request \<Rightarrow> string option \<Rightarrow> upstream_result \<Rightarrow> proxy \<times> relay_response" where
  "forward_end loads frepr as_int now stamp px rq up ctx result =
     (let url = up_url up; x = exchange_of rq url (up_body up);
          failed = (\<lambda>timed_out.
            let (px, outc) = px_observe px (\<lambda>ob. observe_failure loads frepr as_int stamp ob x) None
            in (lease_end now stamp px ctx (opt_or outc FAILED) None None, error_response timed_out))
      in case result of
           Timed_out \<Rightarrow> failed True
         | Unreachable \<Rightarrow> failed False
         | Answered r \<Rightarrow>
             (let route = route_hash (observed_route_identity url (ur_headers r)) in
              if should_stream (ur_headers r) then
                (let (px, outc) = px_observe px (\<lambda>ob.
                       observe_streaming loads frepr as_int stamp ob x (ur_status r) (ur_headers r)) None
                 in (lease_end now stamp px ctx (opt_or outc SUCCESS_UNVERIFIED) None route, mirror r))
              else
                (let (px, outc, usage) = px_observe px (\<lambda>ob. observe_bounded loads frepr as_int stamp ob x
                       (ur_body r) (ur_status r) (ur_headers r)) (None, empty_usage)
                 in (lease_end now stamp px ctx (opt_or outc SUCCESS_UNVERIFIED) (Some usage) route,
                     mirror r))))"

section \<open>Headers\<close>

lemma dget_copy:
  "dget (foldl (\<lambda>d (k, v). if P k then dset d k v else d) d0 hs) k =
     (if P k then case map_of (rev hs) k of None \<Rightarrow> dget d0 k | Some v \<Rightarrow> Some v else dget d0 k)"
  by (induction hs arbitrary: d0) (auto simp: map_add_def split: option.split)

lemma distinct_copy:
  "distinct (map fst d0) \<Longrightarrow> distinct (map fst (foldl (\<lambda>d (k, v). if P k then dset d k v else d) d0 hs))"
proof (induction hs arbitrary: d0)
  case (Cons p hs)
  obtain k v where p: "p = (k, v)" by (cases p)
  have "distinct (map fst (if P k then dset d0 k v else d0))" using Cons.prems distinct_dset by simp
  from Cons.IH [OF this] show ?case by (simp add: p)
qed simp

lemma dget_strip_hop_by_hop:
  "dget (strip_hop_by_hop hs) k =
     (if py_lower k \<in> set (HOP_BY_HOP_HEADERS @ connection_tokens hs) then None else map_of (rev hs) k)"
  using dget_copy [of "\<lambda>k. py_lower k \<notin> set (HOP_BY_HOP_HEADERS @ connection_tokens hs)" "[]" hs k]
  by (auto simp: strip_hop_by_hop_def Let_def split: option.split)

lemma distinct_strip_hop_by_hop: "distinct (map fst (strip_hop_by_hop hs))"
  using distinct_copy [of "[]" "\<lambda>k. py_lower k \<notin> set (HOP_BY_HOP_HEADERS @ connection_tokens hs)" hs]
  by (simp add: strip_hop_by_hop_def Let_def)

lemma dget_filter_key: "dget (filter (\<lambda>(k, v). P k) d) k = (if P k then dget d k else None)"
  by (induction d) auto

lemma dget_forwarded:
  "dget (forwarded_headers hs) k =
     (if py_lower k \<in> set (HOP_BY_HOP_HEADERS @ connection_tokens hs) \<or> k = ''host'' \<or>
         py_lower k \<in> set CORRELATION_HEADERS
      then None else map_of (rev hs) k)"
proof -
  have "distinct (map fst (dpop (strip_hop_by_hop hs) ''host''))"
    by (rule distinct_dpop [OF distinct_strip_hop_by_hop])
  then show ?thesis
    unfolding forwarded_headers_def by (simp add: strip_correlation_filter dget_filter_key dget_strip_hop_by_hop)
qed

section \<open>What the relay forwards and mirrors\<close>

lemma lease_start_frame:
  "px_upstream (fst (lease_start loads frepr as_int now stamp fresh px rq url)) = px_upstream px"
  "px_route_affinity_enabled (fst (lease_start loads frepr as_int now stamp fresh px rq url)) =
     px_route_affinity_enabled px"
  by (auto simp: lease_start_def set_px_store_def split: option.split prod.split)

lemma apply_affinity_off:
  "\<not> px_route_affinity_enabled px \<or> \<not> can_pin \<Longrightarrow> apply_affinity loads frepr can_pin pin now px body ctx = (px, body)"
  by (auto simp: apply_affinity_def split: option.split)

lemma forward_begin_request:
  assumes "\<not> px_route_affinity_enabled px \<or> \<not> can_pin"
  shows "fst (snd (forward_begin loads frepr as_int can_pin pin now stamp fresh px rq)) =
    \<lparr>up_method = in_method rq, up_url = build_upstream_url (px_upstream px) (in_path rq) (in_query rq),
     up_headers = forwarded_headers (in_headers rq), up_body = in_body rq\<rparr>"
  using assms lease_start_frame [of loads frepr as_int now stamp fresh px rq
      "build_upstream_url (px_upstream px) (in_path rq) (in_query rq)"]
  by (auto simp: forward_begin_def Let_def apply_affinity_off split: prod.split)

lemma forward_end_response:
  "snd (forward_end loads frepr as_int now stamp px rq up ctx result) =
     (case result of Timed_out \<Rightarrow> error_response True | Unreachable \<Rightarrow> error_response False
      | Answered r \<Rightarrow> mirror r)"
  by (auto simp: forward_end_def Let_def split: upstream_result.split prod.split)



section \<open>Outcomes\<close>

lemma observe_failure_outcome:
  "snd (observe_failure loads frepr as_int now ob x) = Inr outc \<Longrightarrow> outc \<in> {None, Some FAILED}"
  by (auto simp: observe_failure_def record_exchange_def Let_def split: if_splits sum.splits)

lemma failed_outcome:
  "opt_or (snd (px_observe px (\<lambda>ob. observe_failure loads frepr as_int now ob x) None)) FAILED = FAILED"
proof (cases "px_observer px")
  case (Some ob)
  obtain ob' r where r: "observe_failure loads frepr as_int now ob x = (ob', r)"
    by (cases "observe_failure loads frepr as_int now ob x")
  show ?thesis
    using observe_failure_outcome [of loads frepr as_int now ob x] r Some
    by (cases r) (auto simp: px_observe_def)
qed (simp add: px_observe_def)

lemma px_observe_controller [simp]: "px_controller (fst (px_observe px f d)) = px_controller px"
  by (auto simp: px_observe_def split: option.split prod.split)

lemma failed_end:
  assumes "ctl_inv ct" and "lease_of (ct_manager ct) lid = Some l" and "ct_enabled ct"
    and "px_controller px = Some ct" and "result \<in> {Timed_out, Unreachable}"
  shows "\<exists>px' resp ct' l'. forward_end loads frepr as_int now stamp px rq up (Some lid) result = (px', resp) \<and>
    px_controller px' = Some ct' \<and> ctl_inv ct' \<and> lease_of (ct_manager ct') lid = Some l' \<and>
    booked (ct_manager ct) now lid FAILED l (ct_manager ct') l'"
proof -
  let ?x = "exchange_of rq (up_url up) (up_body up)"
  obtain px1 outc where o: "px_observe px (\<lambda>ob. observe_failure loads frepr as_int stamp ob ?x) None = (px1, outc)"
    by (cases "px_observe px (\<lambda>ob. observe_failure loads frepr as_int stamp ob ?x) None")
  have f: "opt_or outc FAILED = FAILED" using failed_outcome [of px loads frepr as_int stamp ?x] o by simp
  have c: "px_controller px1 = Some ct"
    using px_observe_controller [of px "\<lambda>ob. observe_failure loads frepr as_int stamp ob ?x" None] o assms(4)
    by simp
  obtain ct' l' where e: "on_request_end now stamp ct (px_store px1) lid FAILED None None =
      (ct', persist_lease stamp (px_store px1) l')" "ctl_inv ct'" "lease_of (ct_manager ct') lid = Some l'"
    "booked (ct_manager ct) now lid FAILED l (ct_manager ct') l'"
    using on_request_end_spec [OF assms(1-3), of now stamp "px_store px1" FAILED None None] by blast
  have "px_controller (lease_end now stamp px1 (Some lid) FAILED None None) = Some ct'"
    by (simp add: lease_end_def c e(1) set_px_store_def)
  moreover have "\<exists>resp. forward_end loads frepr as_int now stamp px rq up (Some lid) result =
      (lease_end now stamp px1 (Some lid) FAILED None None, resp)"
    using assms(5) f by (auto simp: forward_end_def Let_def o)
  ultimately show ?thesis using e(2-4) by blast
qed

text \<open>C9: A failed upstream call never refreshes the cache. When the call a lease was tracked for
  times out or finds no upstream, whatever the observer does or raises, the lease's last touch and
  state are those from before, no real request is left in flight, its snapshot is dropped so that no
  evaluation can send a warm, and the client gets a 504 or a 502 with a JSON body.\<close>

theorem upstream_failure_fails_closed:
  assumes "ctl_inv ct" and "lease_of (ct_manager ct) lid = Some l" and "ct_enabled ct"
    and "px_controller px = Some ct" and "result \<in> {Timed_out, Unreachable}"
  shows "\<exists>px' resp ct' l'. forward_end loads frepr as_int now stamp px rq up (Some lid) result = (px', resp) \<and>
    px_controller px' = Some ct' \<and> ctl_inv ct' \<and> lease_of (ct_manager ct') lid = Some l' \<and>
    cl_last_cache_touch_at l' = cl_last_cache_touch_at l \<and> cl_state l' = cl_state l \<and>
    \<not> rt_real_request_active (runtime_for (ct_manager ct') lid) \<and>
    (\<forall>t. warm_send (ct_manager ct') t lid = None) \<and>
    rr_status resp = (if result = Timed_out then 504 else 502)"
proof -
  obtain px' resp ct' l' where e: "forward_end loads frepr as_int now stamp px rq up (Some lid) result = (px', resp)"
    "px_controller px' = Some ct'" "ctl_inv ct'" "lease_of (ct_manager ct') lid = Some l'"
    "booked (ct_manager ct) now lid FAILED l (ct_manager ct') l'"
    using failed_end [OF assms, of loads frepr as_int now stamp rq up] by blast
  have "cannot_warm (ct_manager ct') lid"
    using e(4,5) by (auto simp: cannot_warm_def booked_def snap_get_def snap_drop_def split: option.split)
  then have "warm_send (ct_manager ct') t lid = None" for t by (rule cannot_warm_send)
  moreover have "rr_status resp = (if result = Timed_out then 504 else 502)"
    using e(1) forward_end_response [of loads frepr as_int now stamp px rq up "Some lid" result] assms(5)
    by (auto simp: error_response_def)
  ultimately show ?thesis using e by (auto simp: booked_def)
qed

theorem upstream_failure_fails_closed_witness:
  "\<exists>(px :: proxy) (resp :: relay_response) ct. px_controller px = Some ct \<and> ctl_inv ct \<and> rr_status resp = 504 \<and>
     warm_send (ct_manager ct) 1000 ''L1'' = None"
proof -
  obtain ct1 l where c: "ctl_inv ct1" "lease_of (ct_manager ct1) ''L1'' = Some l" "ct_enabled ct1"
    by (rule sample_start)
  define px where "px = \<lparr>px_upstream = ''https://h/v1'', px_route_affinity_enabled = False,
    px_observer = None, px_controller = Some ct1\<rparr>"
  have p: "px_controller px = Some ct1" by (simp add: px_def)
  obtain rq :: incoming and up :: upstream_request where True by blast
  have "Timed_out \<in> {Timed_out, Unreachable}" by simp
  from upstream_failure_fails_closed [OF c p this, of sample_loads "\<lambda>_. ''0''" sample_int 1 0 rq up]
  show ?thesis by (simp only: simp_thms if_True) blast
qed

text \<open>
  A response the observer cannot judge counts as a success: with observation enabled but no store
  (the database did not open), a response with status 500 still refreshes the lease, because
  \<open>outcome or SUCCESS_UNVERIFIED\<close> stands for every missing outcome.
\<close>

lemma blind_observer_refreshes:
  assumes "ctl_inv ct" and "lease_of (ct_manager ct) lid = Some l" and "ct_enabled ct"
    and "px_controller px = Some ct" and "px_observer px = Some ob" and "ob_store ob = None"
    and "cl_state l \<noteq> INVALIDATED" and "ur_status r = 500"
  shows "\<exists>px' resp ct' l'. forward_end loads frepr as_int now stamp px rq up (Some lid) (Answered r) = (px', resp) \<and>
    rr_status resp = 500 \<and> px_controller px' = Some ct' \<and> lease_of (ct_manager ct') lid = Some l' \<and>
    cl_last_cache_touch_at l' = Some now"
proof -
  have p: "px\<lparr>px_observer := Some ob\<rparr> = px" using assms(5) by (cases px) simp
  obtain usage route where e: "forward_end loads frepr as_int now stamp px rq up (Some lid) (Answered r) =
      (lease_end now stamp px (Some lid) SUCCESS_UNVERIFIED usage route, mirror r)"
    using assms(5,6) p
    by (cases "should_stream (ur_headers r)")
      (auto simp: forward_end_def Let_def px_observe_def observe_streaming_def observe_bounded_def)
  obtain ct' l' where b: "on_request_end now stamp ct (px_store px) lid SUCCESS_UNVERIFIED usage route =
      (ct', persist_lease stamp (px_store px) l')" "lease_of (ct_manager ct') lid = Some l'"
    "booked (ct_manager ct) now lid SUCCESS_UNVERIFIED l (ct_manager ct') l'"
    using on_request_end_spec [OF assms(1-3), of now stamp "px_store px" SUCCESS_UNVERIFIED usage route] by blast
  have "px_controller (lease_end now stamp px (Some lid) SUCCESS_UNVERIFIED usage route) = Some ct'"
    by (simp add: lease_end_def assms(4) b(1) set_px_store_def)
  then show ?thesis using e b(2,3) assms(7,8) by (auto simp: booked_def mirror_def Let_def)
qed

end
