(* ===== verification/DurationHistory.thy ===== *)
theory DurationHistory
  imports Hashing
begin

text \<open>
  The command duration learner of the Hermes plugin, \<open>cachepilot_hermes/duration_history.py\<close>: the
  normalized command signature that is all the plugin persists of a command, the percentiles, and the
  learner's rolling windows with the \<open>command_history\<close> table. Durations are finite numbers. A call
  of the learner gets \<open>db_ok\<close>, whether its database work succeeds; a failure disables the learner.
\<close>

section \<open>Signatures\<close>

definition SHELL_OPERATORS :: "string list" where
  "SHELL_OPERATORS = [''&&'', ''||'', '';'', ''|'', ''>'', ''>>'', ''<'', ''2>'', ''2>>'', ''&'', ''('', '')'']"

definition SAFE_SUBCOMMAND_WORDS :: "string list" where
  "SAFE_SUBCOMMAND_WORDS =
     [''run'', ''test'', ''build'', ''install'', ''uninstall'', ''exec'', ''compose'',
      ''clone'', ''pull'', ''push'', ''add'', ''update'', ''upgrade'', ''lint'', ''fmt'',
      ''format'', ''check'', ''bench'', ''benchmark'', ''init'', ''new'', ''generate'',
      ''deploy'', ''serve'', ''watch'', ''dev'', ''start'', ''stop'', ''clean'', ''audit'',
      ''sync'', ''list'', ''show'', ''get'', ''set'', ''configure'', ''buildx'', ''search'',
      ''download'', ''fetch'', ''compile'', ''package'', ''publish'', ''login'', ''logout'',
      ''create'', ''delete'', ''remove'', ''reset'', ''verify'', ''validate'', ''export'',
      ''import'', ''migrate'', ''seed'', ''scaffold'', ''doctor'', ''env'', ''shell'',
      ''repl'', ''lock'', ''unlock'', ''stats'', ''status'',
      ''pytest'', ''unittest'', ''ruff'', ''mypy'', ''pip'', ''npm'', ''yarn'', ''pnpm'',
      ''uv'', ''poetry'', ''cargo'', ''docker'', ''make'', ''cmake'', ''ninja'', ''git'',
      ''go'', ''node'', ''python'', ''python3'', ''pipenv'', ''nox'', ''tox'',
      ''pre-commit'', ''black'', ''isort'', ''flake8'', ''sphinx'', ''mkdocs'']"

definition tokenize :: "string \<Rightarrow> string list" where
  "tokenize command = (case shlex_split command of None \<Rightarrow> split_ws command | Some ts \<Rightarrow> ts)"

definition flag_name :: "string \<Rightarrow> string" where
  \<comment> \<open>What is kept of a token that starts with a dash; a lone dash keeps nothing.\<close>
  "flag_name token =
     (if CHR ''='' \<in> set token then takeWhile (\<lambda>c. c \<noteq> CHR ''='') token
      else if starts_with ''--'' token then token
      else if token = ''-'' then []
      else take 2 token)"

fun sig_loop :: "string list \<Rightarrow> string list \<Rightarrow> string list \<Rightarrow> string list \<times> string list" where
  \<comment> \<open>The loop over the tokens with \<open>family\<close> and the set \<open>flags\<close>.\<close>
  "sig_loop [] family flags = (family, flags)"
| "sig_loop (t # ts) family flags =
     (if t \<in> set SHELL_OPERATORS \<or> t = ''--'' then (family, flags)
      else if starts_with ''-'' t
      then sig_loop ts family (if flag_name t \<noteq> [] then List.insert (flag_name t) flags else flags)
      else if family = [] \<or> length family < 3 \<and> py_lower t \<in> set SAFE_SUBCOMMAND_WORDS
      then sig_loop ts (family @ [t]) flags
      else sig_loop ts family flags)"

definition normalize_signature :: "string \<Rightarrow> string" where
  "normalize_signature command =
     (case sig_loop (tokenize command) [] [] of
        (family, flags) \<Rightarrow>
          if family = [] then []
          else py_join '' '' family @ (if flags = [] then [] else '' '' @ py_join '' '' (sort flags)))"

section \<open>Percentiles\<close>

definition percentile :: "flt list \<Rightarrow> flt \<Rightarrow> py_error + flt" where
  "percentile xs p =
     (if xs = [] then Inl ValueError
      else if length xs = 1 then Inr (xs ! 0)
      else
        (let rank = of_nat (length xs - 1) * p;
             lower = nat \<lfloor>rank\<rfloor>;
             upper = min (lower + 1) (length xs - 1);
             fraction = rank - of_int \<lfloor>rank\<rfloor>
         in Inr (xs ! lower + fraction * (xs ! upper - xs ! lower))))"

section \<open>The learner\<close>

record duration_row =
  dr_sample_count :: nat
  dr_p50 :: flt
  dr_p90 :: flt
  dr_p95 :: flt
  dr_success_rate :: "flt option"
  dr_updated_at :: flt

record duration_history =
  dh_disabled :: bool
  dh_windows :: "(string, flt list) dict"
  dh_success_windows :: "(string, bool list) dict"
  dh_rows :: "(string, duration_row) dict"

record command_stats =
  cs_signature :: string
  cs_sample_count :: nat
  cs_p90 :: flt
  cs_p50 :: flt
  cs_p95 :: flt
  cs_success_rate :: "flt option"

definition WINDOW_SIZE :: nat where
  "WINDOW_SIZE = 512"

definition bounded_append :: "nat \<Rightarrow> 'a list \<Rightarrow> 'a \<Rightarrow> 'a list" where
  \<comment> \<open>\<open>append\<close> on a \<open>deque(maxlen=n)\<close>.\<close>
  "bounded_append n xs x = drop (length xs + 1 - n) (xs @ [x])"

definition dh_open :: "(string, duration_row) dict \<Rightarrow> bool \<Rightarrow> duration_history" where
  "dh_open rows db_ok =
     \<lparr>dh_disabled = \<not> db_ok, dh_windows = [], dh_success_windows = [], dh_rows = rows\<rparr>"

definition updated_success_rate ::
  "duration_history \<Rightarrow> string \<Rightarrow> bool \<Rightarrow> bool \<Rightarrow> duration_history \<times> flt option" where
  "updated_success_rate h signature background success =
     (if \<not> background then (h, None)
      else
        (let w = bounded_append WINDOW_SIZE (opt_or (dget (dh_success_windows h) signature) []) success
         in (h\<lparr>dh_success_windows := dset (dh_success_windows h) signature w\<rparr>,
             Some (of_nat (length (filter id w)) / of_nat (length w)))))"

definition upsert_row :: "duration_row option \<Rightarrow> flt \<Rightarrow> flt \<Rightarrow> flt \<Rightarrow> flt option \<Rightarrow> flt \<Rightarrow> duration_row" where
  "upsert_row existing p50 p90 p95 rate now =
     \<lparr>dr_sample_count = (case existing of None \<Rightarrow> 1 | Some r \<Rightarrow> dr_sample_count r + 1),
      dr_p50 = p50, dr_p90 = p90, dr_p95 = p95, dr_success_rate = rate, dr_updated_at = now\<rparr>"

definition dh_disable :: "duration_history \<Rightarrow> duration_history" where
  "dh_disable h = h\<lparr>dh_disabled := True\<rparr>"

definition dh_record ::
  "bool \<Rightarrow> flt \<Rightarrow> duration_history \<Rightarrow> string \<Rightarrow> flt \<Rightarrow> bool \<Rightarrow> bool \<Rightarrow> duration_history" where
  "dh_record db_ok now h command duration background success =
     (let signature = normalize_signature command in
      if dh_disabled h \<or> signature = [] then h
      else
        (let w = bounded_append WINDOW_SIZE (opt_or (dget (dh_windows h) signature) []) duration;
             h = h\<lparr>dh_windows := dset (dh_windows h) signature w\<rparr>;
             samples = sort w
         in case (percentile samples (1 / 2), percentile samples (9 / 10), percentile samples (19 / 20)) of
              (Inr p50, Inr p90, Inr p95) \<Rightarrow>
                (let (h, success_rate) = updated_success_rate h signature background success;
                     existing = dget (dh_rows h) signature;
                     rate = (if background then success_rate
                             else case existing of None \<Rightarrow> None | Some r \<Rightarrow> dr_success_rate r)
                 in if \<not> db_ok then dh_disable h
                    else h\<lparr>dh_rows := dset (dh_rows h) signature (upsert_row existing p50 p90 p95 rate now)\<rparr>)
            | _ \<Rightarrow> dh_disable h))"

definition dh_stats :: "bool \<Rightarrow> duration_history \<Rightarrow> string \<Rightarrow> duration_history \<times> command_stats option" where
  "dh_stats db_ok h command =
     (let signature = normalize_signature command in
      if dh_disabled h \<or> signature = [] then (h, None)
      else if \<not> db_ok then (dh_disable h, None)
      else (h, map_option (\<lambda>r. \<lparr>cs_signature = signature, cs_sample_count = dr_sample_count r,
                  cs_p90 = dr_p90 r, cs_p50 = dr_p50 r, cs_p95 = dr_p95 r,
                  cs_success_rate = dr_success_rate r\<rparr>) (dget (dh_rows h) signature)))"

section \<open>What a signature keeps\<close>

lemma sig_loop_keeps:
  "sig_loop ts family flags = (family', flags') \<Longrightarrow>
   (\<exists>more. family' = family @ more \<and> set more \<subseteq> set ts \<and>
      (family \<noteq> [] \<longrightarrow> (\<forall>w \<in> set more. py_lower w \<in> set SAFE_SUBCOMMAND_WORDS)) \<and>
      (\<forall>w \<in> set (tl more). py_lower w \<in> set SAFE_SUBCOMMAND_WORDS) \<and>
      (length family \<le> 3 \<longrightarrow> length family' \<le> 3)) \<and>
   set flags' \<subseteq> set flags \<union> {f. f \<noteq> [] \<and> (\<exists>t \<in> set ts. starts_with ''-'' t \<and> f = flag_name t)}"
proof (induction ts family flags arbitrary: family' flags' rule: sig_loop.induct)
  case (2 t ts family flags)
  consider (stop) "t \<in> set SHELL_OPERATORS \<or> t = ''--''"
    | (flag) "\<not> (t \<in> set SHELL_OPERATORS \<or> t = ''--'')" "starts_with ''-'' t"
    | (word) "\<not> (t \<in> set SHELL_OPERATORS \<or> t = ''--'')" "\<not> starts_with ''-'' t"
      "family = [] \<or> length family < 3 \<and> py_lower t \<in> set SAFE_SUBCOMMAND_WORDS"
    | (drop) "\<not> (t \<in> set SHELL_OPERATORS \<or> t = ''--'')" "\<not> starts_with ''-'' t"
      "\<not> (family = [] \<or> length family < 3 \<and> py_lower t \<in> set SAFE_SUBCOMMAND_WORDS)" by blast
  then show ?case
  proof cases
    case stop
    then show ?thesis using 2(4) by simp
  next
    case flag
    then have "sig_loop ts family (if flag_name t \<noteq> [] then List.insert (flag_name t) flags else flags) =
        (family', flags')" using 2(4) by simp
    note ih = 2(1) [OF flag this]
    show ?thesis
      using ih flag(2) by (fastforce split: if_splits)
  next
    case word
    then have "sig_loop ts (family @ [t]) flags = (family', flags')" using 2(4) by simp
    note ih = 2(2) [OF word this]
    then obtain more where "family' = (family @ [t]) @ more" "set more \<subseteq> set ts"
      "\<forall>w \<in> set more. py_lower w \<in> set SAFE_SUBCOMMAND_WORDS"
      "length (family @ [t]) \<le> 3 \<longrightarrow> length family' \<le> 3" by auto
    moreover have "set flags' \<subseteq> set flags \<union> {f. f \<noteq> [] \<and> (\<exists>u \<in> set (t # ts). starts_with ''-'' u \<and> f = flag_name u)}"
      using ih by auto
    ultimately show ?thesis using word(3) by (intro conjI exI [of _ "t # more"]) auto
  next
    case drop
    then have "sig_loop ts family flags = (family', flags')" using 2(4) by (auto split: if_splits)
    from 2(3) [OF drop this] show ?thesis by auto
  qed
qed simp

text \<open>A signature keeps no values. Of a command, whatever its arguments, the persisted signature
  holds at most three words and a set of flag names: the first word is one of the command's tokens,
  every further word is a known subcommand word, and each flag is the name part of a token that
  starts with a dash, cut before an equals sign or after the first letter of a short flag. Nothing is
  recorded for a command without a word.\<close>

theorem signature_keeps_no_values:
  "\<exists>family flags. normalize_signature command =
      (if family = [] then [] else py_join '' '' family @
         (if flags = [] then [] else '' '' @ py_join '' '' (sort flags))) \<and>
    length family \<le> 3 \<and> set family \<subseteq> set (tokenize command) \<and>
    set (tl family) \<subseteq> {w. py_lower w \<in> set SAFE_SUBCOMMAND_WORDS} \<and>
    set flags \<subseteq> {f. f \<noteq> [] \<and> (\<exists>t. t \<in> set (tokenize command) \<and> starts_with ''-'' t \<and> f = flag_name t)}"
proof -
  obtain family flags where r: "sig_loop (tokenize command) [] [] = (family, flags)"
    by (cases "sig_loop (tokenize command) [] []")
  have "normalize_signature command =
      (if family = [] then [] else py_join '' '' family @
         (if flags = [] then [] else '' '' @ py_join '' '' (sort flags)))"
    by (simp add: normalize_signature_def r)
  then show ?thesis
    using sig_loop_keeps [OF r] by (intro exI [of _ family] exI [of _ flags]) auto
qed

text \<open>
  What the rules do not cover: the first word is kept whatever it is, so an environment assignment in
  front of the command is persisted with its value, and a short flag with an attached value that
  contains an equals sign is cut at the sign, not after its letter.
\<close>

lemma assignment_is_persisted:
  "normalize_signature ''API_KEY=sk-1 make'' = ''API_KEY=sk-1 make''"
  "normalize_signature ''mysql -phunter2=x'' = ''mysql -phunter2''"
  by code_simp+

section \<open>Percentiles are bounded and monotone\<close>

lemma percentile_rank:
  assumes "xs \<noteq> []" and "0 \<le> p" and "p \<le> 1"
  defines "rank \<equiv> of_nat (length xs - 1) * p :: flt"
  shows "nat \<lfloor>rank\<rfloor> \<le> length xs - 1" and "0 \<le> \<lfloor>rank\<rfloor>"
proof -
  have r: "0 \<le> rank" "rank \<le> of_nat (length xs - 1)"
    using assms(2,3) mult_left_mono [OF assms(3), of "of_nat (length xs - 1)"] by (simp_all add: rank_def)
  then show "0 \<le> \<lfloor>rank\<rfloor>" by simp
  have "\<lfloor>rank\<rfloor> \<le> \<lfloor>of_nat (length xs - 1) :: flt\<rfloor>" using r(2) by (rule floor_mono)
  then show "nat \<lfloor>rank\<rfloor> \<le> length xs - 1" by simp
qed

definition interp :: "flt list \<Rightarrow> flt \<Rightarrow> flt" where
  \<comment> \<open>The piecewise linear curve through the points \<open>(i, xs ! i)\<close>.\<close>
  "interp xs r = (let i = nat \<lfloor>r\<rfloor>; j = min (i + 1) (length xs - 1)
     in xs ! i + (r - of_int \<lfloor>r\<rfloor>) * (xs ! j - xs ! i))"

lemma percentile_interp:
  assumes "xs \<noteq> []"
  shows "percentile xs p = Inr (if length xs = 1 then xs ! 0 else interp xs (of_nat (length xs - 1) * p))"
  using assms by (simp add: percentile_def interp_def Let_def)

lemma interp_between:
  assumes s: "sorted xs" and r: "0 \<le> r" "r \<le> of_nat (length xs - 1)" and ne: "xs \<noteq> []"
  shows "xs ! nat \<lfloor>r\<rfloor> \<le> interp xs r \<and> interp xs r \<le> xs ! min (nat \<lfloor>r\<rfloor> + 1) (length xs - 1)"
proof -
  define i j where "i = nat \<lfloor>r\<rfloor>" and "j = min (i + 1) (length xs - 1)"
  have "\<lfloor>r\<rfloor> \<le> \<lfloor>of_nat (length xs - 1) :: flt\<rfloor>" using r(2) by (rule floor_mono)
  then have i: "i \<le> length xs - 1" by (simp add: i_def)
  have len: "0 < length xs" using ne by simp
  have "xs ! i \<le> xs ! j" using s i len by (intro sorted_nth_mono) (auto simp: j_def min_less_iff_disj)
  then have d: "0 \<le> xs ! j - xs ! i" by simp
  have f: "0 \<le> r - of_int \<lfloor>r\<rfloor>" "r - of_int \<lfloor>r\<rfloor> \<le> 1" by linarith+
  have "(r - of_int \<lfloor>r\<rfloor>) * (xs ! j - xs ! i) \<le> 1 * (xs ! j - xs ! i)"
    using f(2) d by (rule mult_right_mono)
  moreover have "0 \<le> (r - of_int \<lfloor>r\<rfloor>) * (xs ! j - xs ! i)" using f(1) d by (rule mult_nonneg_nonneg)
  ultimately show ?thesis by (simp add: interp_def Let_def i_def [symmetric] j_def)
qed

lemma interp_mono:
  assumes s: "sorted xs" and q: "0 \<le> q" "q \<le> r" "r \<le> of_nat (length xs - 1)" and ne: "xs \<noteq> []"
  shows "interp xs q \<le> interp xs r"
proof (cases "\<lfloor>q\<rfloor> = \<lfloor>r\<rfloor>")
  case True
  define i j where "i = nat \<lfloor>r\<rfloor>" and "j = min (i + 1) (length xs - 1)"
  have "\<lfloor>r\<rfloor> \<le> \<lfloor>of_nat (length xs - 1) :: flt\<rfloor>" using q(3) by (rule floor_mono)
  then have "i \<le> length xs - 1" by (simp add: i_def)
  then have "xs ! i \<le> xs ! j" using s ne by (intro sorted_nth_mono) (auto simp: j_def min_less_iff_disj)
  then have "(q - of_int \<lfloor>r\<rfloor>) * (xs ! j - xs ! i) \<le> (r - of_int \<lfloor>r\<rfloor>) * (xs ! j - xs ! i)"
    using q(2) by (intro mult_right_mono) simp_all
  then show ?thesis by (simp add: interp_def Let_def True i_def [symmetric] j_def)
next
  case False
  then have "\<lfloor>q\<rfloor> < \<lfloor>r\<rfloor>" using floor_mono [OF q(2)] by simp
  then have l: "nat \<lfloor>q\<rfloor> + 1 \<le> nat \<lfloor>r\<rfloor>" using q(1) by linarith
  have "\<lfloor>r\<rfloor> \<le> \<lfloor>of_nat (length xs - 1) :: flt\<rfloor>" using q(3) by (rule floor_mono)
  then have h: "nat \<lfloor>r\<rfloor> \<le> length xs - 1" by simp
  have "interp xs q \<le> xs ! min (nat \<lfloor>q\<rfloor> + 1) (length xs - 1)"
    using interp_between [OF s q(1) _ ne] q by simp
  also have "\<dots> \<le> xs ! nat \<lfloor>r\<rfloor>"
  proof (rule sorted_nth_mono [OF s])
    show "min (nat \<lfloor>q\<rfloor> + 1) (length xs - 1) \<le> nat \<lfloor>r\<rfloor>" using l by (rule min.coboundedI1)
    have "0 < length xs" using ne by simp
    then show "nat \<lfloor>r\<rfloor> < length xs" using h by linarith
  qed
  also have "\<dots> \<le> interp xs r" using interp_between [OF s _ q(3) ne] q by simp
  finally show ?thesis .
qed

text \<open>The percentile is a percentile. Of a non-empty sorted sample and a fraction between 0 and 1 it
  exists, lies between the least and the greatest sample, is the least at 0 and the greatest at 1, and
  never decreases as the fraction grows; of an empty sample it raises.\<close>

theorem percentile_bounded_monotone:
  assumes "sorted xs" and "xs \<noteq> []" and "0 \<le> p" and "p \<le> q" and "q \<le> 1"
  shows "\<exists>v w. percentile xs p = Inr v \<and> percentile xs q = Inr w \<and> hd xs \<le> v \<and> v \<le> w \<and> w \<le> last xs \<and>
    percentile xs 0 = Inr (hd xs) \<and> percentile xs 1 = Inr (last xs) \<and> percentile [] p = Inl ValueError"
proof (cases "length xs = 1")
  case True
  then obtain a where "xs = [a]" by (cases xs) auto
  then show ?thesis by (simp add: percentile_def)
next
  case False
  define n where "n = length xs - 1"
  define v where "v = (\<lambda>t. interp xs (of_nat n * t))"
  have pc: "percentile xs t = Inr (v t)" for t
    using False by (simp add: percentile_interp [OF assms(2)] v_def n_def)
  have e: "v 0 = hd xs" "v 1 = last xs"
    using assms(2) by (simp_all add: v_def interp_def Let_def hd_conv_nth last_conv_nth n_def)
  have m: "v s \<le> v t" if "0 \<le> s" "s \<le> t" "t \<le> 1" for s t
    unfolding v_def
    using that mult_left_mono [of s t "of_nat n"] mult_left_mono [of t 1 "of_nat n"]
    by (intro interp_mono [OF assms(1) _ _ _ assms(2)]) (simp_all add: n_def)
  show ?thesis
    using m [of 0 p] m [of p q] m [of q 1] assms(3-5) e pc by (simp add: percentile_def)
qed

theorem percentile_bounded_monotone_witness:
  "\<exists>v w. percentile [1, 2, 4] (1 / 2) = Inr v \<and> percentile [1, 2, 4] (9 / 10) = Inr w \<and> 1 \<le> v \<and> v \<le> w \<and> w \<le> 4"
  using percentile_bounded_monotone [of "[1, 2, 4]" "1 / 2" "9 / 10"] by auto

section \<open>The learner against its log\<close>

text \<open>
  The reference: the learner's answer computed from the whole log of observed runs, each with its time,
  command, duration, whether it ran in the background and whether it succeeded.
\<close>

type_synonym observed_run = "flt \<times> string \<times> flt \<times> bool \<times> bool"

definition last_n :: "nat \<Rightarrow> 'a list \<Rightarrow> 'a list" where
  "last_n n xs = drop (length xs - n) xs"

fun run_signature :: "observed_run \<Rightarrow> string" where
  "run_signature (now, c, d, bg, ok) = normalize_signature c"

definition durations_of :: "string \<Rightarrow> observed_run list \<Rightarrow> flt list" where
  "durations_of s runs = map (\<lambda>(now, c, d, bg, ok). d) (filter (\<lambda>r. run_signature r = s) runs)"

definition background_results :: "string \<Rightarrow> observed_run list \<Rightarrow> bool list" where
  "background_results s runs = map (\<lambda>(now, c, d, bg, ok). ok)
     (filter (\<lambda>(now, c, d, bg, ok). bg \<and> normalize_signature c = s) runs)"

definition pct :: "flt list \<Rightarrow> flt \<Rightarrow> flt" where
  "pct xs p = (case percentile (sort xs) p of Inl e \<Rightarrow> 0 | Inr v \<Rightarrow> v)"

definition success_mean :: "bool list \<Rightarrow> flt option" where
  "success_mean bs = (if bs = [] then None else Some (of_nat (length (filter id bs)) / of_nat (length bs)))"

definition record_run :: "duration_history \<Rightarrow> observed_run \<Rightarrow> duration_history" where
  "record_run h r = (case r of (now, c, d, bg, ok) \<Rightarrow> dh_record True now h c d bg ok)"

definition row_ok :: "string \<Rightarrow> observed_run list \<Rightarrow> duration_row option \<Rightarrow> bool" where
  "row_ok s runs row \<longleftrightarrow>
     (let ds = durations_of s runs; w = last_n WINDOW_SIZE ds in
      case row of None \<Rightarrow> ds = []
      | Some r \<Rightarrow> ds \<noteq> [] \<and> dr_sample_count r = length ds \<and> dr_p50 r = pct w (1 / 2) \<and>
          dr_p90 r = pct w (9 / 10) \<and> dr_p95 r = pct w (19 / 20) \<and>
          dr_success_rate r = success_mean (last_n WINDOW_SIZE (background_results s runs)))"

definition learner_inv :: "observed_run list \<Rightarrow> duration_history \<Rightarrow> bool" where
  "learner_inv runs h \<longleftrightarrow> \<not> dh_disabled h \<and>
     (\<forall>s. s \<noteq> [] \<longrightarrow>
        opt_or (dget (dh_windows h) s) [] = last_n WINDOW_SIZE (durations_of s runs) \<and>
        opt_or (dget (dh_success_windows h) s) [] = last_n WINDOW_SIZE (background_results s runs) \<and>
        row_ok s runs (dget (dh_rows h) s))"

lemma bounded_append_last: "0 < n \<Longrightarrow> bounded_append n (last_n n xs) x = last_n n (xs @ [x])"
  by (cases "length xs < n") (auto simp: bounded_append_def last_n_def Suc_diff_le)

lemma last_n_Nil [simp]: "0 < n \<Longrightarrow> last_n n xs = [] \<longleftrightarrow> xs = []"
  by (cases xs) (auto simp: last_n_def)

lemma last_n_empty [simp]: "last_n n [] = []" "success_mean [] = None"
  by (simp_all add: last_n_def success_mean_def)

lemma durations_snoc:
  "durations_of s (runs @ [(now, c, d, bg, ok)]) =
     durations_of s runs @ (if normalize_signature c = s then [d] else [])"
  by (simp add: durations_of_def)

lemma results_snoc:
  "background_results s (runs @ [(now, c, d, bg, ok)]) =
     background_results s runs @ (if bg \<and> normalize_signature c = s then [ok] else [])"
  by (simp add: background_results_def)

lemma background_durations: "durations_of s runs = [] \<Longrightarrow> background_results s runs = []"
  by (auto simp: durations_of_def background_results_def filter_empty_conv)

lemma pct_eq: "xs \<noteq> [] \<Longrightarrow> percentile (sort xs) p = Inr (pct xs p)"
proof -
  assume "xs \<noteq> []"
  then have "sort xs \<noteq> []" by (metis length_0_conv length_sort)
  then show ?thesis by (simp add: pct_def percentile_def Let_def)
qed

lemma row_ok_other:
  "normalize_signature c \<noteq> s \<Longrightarrow> row_ok s (runs @ [(now, c, d, bg, ok)]) row \<longleftrightarrow> row_ok s runs row"
  by (simp add: row_ok_def durations_snoc results_snoc Let_def split: option.split)

lemma learner_inv_record:
  assumes "learner_inv runs h"
  shows "learner_inv (runs @ [(now, c, d, bg, ok)]) (dh_record True now h c d bg ok)"
proof (cases "normalize_signature c = []")
  case True
  then show ?thesis
    using assms by (auto simp: learner_inv_def dh_record_def durations_snoc results_snoc row_ok_other)
next
  case False
  define s where "s = normalize_signature c"
  define w where "w = last_n WINDOW_SIZE (durations_of s runs @ [d])"
  define b where "b = last_n WINDOW_SIZE (background_results s runs @ [ok])"
  have W: "0 < WINDOW_SIZE" by (simp add: WINDOW_SIZE_def)
  have s: "s \<noteq> []" using False by (simp add: s_def)
  have i: "opt_or (dget (dh_windows h) s) [] = last_n WINDOW_SIZE (durations_of s runs)"
    "opt_or (dget (dh_success_windows h) s) [] = last_n WINDOW_SIZE (background_results s runs)"
    "row_ok s runs (dget (dh_rows h) s)" "\<not> dh_disabled h"
    using assms s by (auto simp: learner_inv_def)
  have ne: "w \<noteq> []" "b \<noteq> []" using W by (simp_all add: w_def b_def)
  define rate where "rate = (if bg then success_mean b
    else case dget (dh_rows h) s of None \<Rightarrow> None | Some r \<Rightarrow> dr_success_rate r)"
  define row where "row = upsert_row (dget (dh_rows h) s) (pct w (1 / 2)) (pct w (9 / 10)) (pct w (19 / 20)) rate now"
  have e: "dh_record True now h c d bg ok = h\<lparr>dh_windows := dset (dh_windows h) s w,
      dh_success_windows := (if bg then dset (dh_success_windows h) s b else dh_success_windows h),
      dh_rows := dset (dh_rows h) s row\<rparr>"
    using i(1,2,4) ne s W
    by (simp add: dh_record_def s_def [symmetric] Let_def updated_success_rate_def bounded_append_last
        w_def [symmetric] b_def [symmetric] pct_eq row_def rate_def success_mean_def)
  have r: "row_ok s (runs @ [(now, c, d, bg, ok)]) (Some row)"
  proof -
    have "dr_sample_count row = length (durations_of s runs) + 1"
      using i(3) by (cases "dget (dh_rows h) s") (simp_all add: row_ok_def row_def upsert_row_def Let_def)
    moreover have "rate = success_mean (last_n WINDOW_SIZE (background_results s (runs @ [(now, c, d, bg, ok)])))"
      using i(3) background_durations [of s runs]
      by (cases "dget (dh_rows h) s")
        (auto simp: row_ok_def rate_def b_def results_snoc s_def [symmetric] Let_def)
    ultimately show ?thesis
      by (simp add: row_ok_def durations_snoc s_def [symmetric] w_def [symmetric] row_def upsert_row_def Let_def)
  qed
  show ?thesis
    unfolding learner_inv_def e
    using assms r by (auto simp: learner_inv_def durations_snoc results_snoc row_ok_other s_def w_def b_def)
qed

lemma learner_inv_runs: "learner_inv runs (foldl record_run (dh_open [] True) runs)"
proof (induction runs rule: rev_induct)
  case Nil
  show ?case by (simp add: learner_inv_def dh_open_def row_ok_def durations_of_def background_results_def last_n_def)
next
  case (snoc r runs)
  then show ?case using learner_inv_record by (cases r) (simp add: record_run_def)
qed

text \<open>C27: The learner reports its log. After any sequence of recorded runs on a fresh database, the stats of
  a command are those of the log of runs with its signature: none without a run, else their number, the
  percentiles of the last 512 durations and the success mean of the last 512 background runs. Runs of
  other commands do not matter.\<close>

theorem learner_reports_log:
  assumes "normalize_signature command = s" and "s \<noteq> []"
    and "ds = durations_of s runs" and "w = last_n WINDOW_SIZE ds"
    and "h = foldl record_run (dh_open [] True) runs"
  shows "dh_stats True h command = (h, if ds = [] then None
    else Some \<lparr>cs_signature = s, cs_sample_count = length ds, cs_p90 = pct w (9 / 10), cs_p50 = pct w (1 / 2),
      cs_p95 = pct w (19 / 20), cs_success_rate = success_mean (last_n WINDOW_SIZE (background_results s runs))\<rparr>)"
proof -
  have i: "learner_inv runs h" unfolding assms(5) by (rule learner_inv_runs)
  then have "row_ok s runs (dget (dh_rows h) s)" "\<not> dh_disabled h"
    using assms(2) by (auto simp: learner_inv_def)
  then show ?thesis
    using assms(1-4) by (cases "dget (dh_rows h) s") (auto simp: dh_stats_def row_ok_def Let_def)
qed

lemma sample_signature: "normalize_signature ''make all -j8'' = ''make -j''" "normalize_signature ''make'' = ''make''"
  by code_simp+

theorem learner_reports_log_witness:
  "\<exists>h st. dh_stats True h ''make all -j8'' = (h, Some st) \<and> cs_sample_count st = 2"
proof -
  define runs :: "observed_run list" where
    "runs = [(0, ''make all -j8'', 5, False, True), (1, ''make'', 7, False, True), (2, ''make -j2'', 9, True, False)]"
  have s: "normalize_signature ''make -j2'' = ''make -j''" by code_simp
  have "durations_of ''make -j'' runs = [5, 9]"
    by (simp add: durations_of_def runs_def sample_signature s)
  with learner_reports_log [OF sample_signature(1) _ refl refl refl, of runs] show ?thesis
    by (intro exI conjI) (simp only: list.distinct if_False, simp, simp)
qed

text \<open>
  The counts persist and the windows do not. After a restart the percentiles start over from the first
  new run while the count goes on, so a single slow run is reported with a large sample count.
\<close>

lemma restart_reports_single_sample:
  "\<exists>h st. h = dh_record True 9 (dh_open [(''make'', \<lparr>dr_sample_count = 50, dr_p50 = 1, dr_p90 = 1, dr_p95 = 1,
       dr_success_rate = None, dr_updated_at = 0\<rparr>)] True) ''make'' 100 False True \<and>
     dh_stats True h ''make'' = (h, Some st) \<and> cs_sample_count st = 51 \<and> cs_p90 st = 100"
  by (simp add: dh_record_def dh_stats_def dh_open_def sample_signature Let_def bounded_append_def
      WINDOW_SIZE_def percentile_def updated_success_rate_def upsert_row_def)

end
