(* ===== verification/HermesTargets.thy ===== *)
theory HermesTargets
  imports DurationHistory "HOL-Library.Multiset"
begin

text \<open>
  The Hermes plugin's shared state: the session identity the hooks publish
  (\<open>cachepilot_hermes/session.py\<close>) and the refcounted registry of background targets
  (\<open>cachepilot_hermes/targets.py\<close>). Every method holds the object's lock for its whole body, so each is
  one step. The registry is proved to be a multiset of target ids: that contract is the locale
  \<open>target_bag\<close>, and its laws hold of the code by interpretation.
\<close>

section \<open>Session identity\<close>

record session_identity =
  si_session_id :: "string option"
  si_process_session_id :: "string option"

definition si_init :: session_identity where
  "si_init = \<lparr>si_session_id = None, si_process_session_id = None\<rparr>"

definition si_publish :: "session_identity \<Rightarrow> string \<Rightarrow> session_identity" where
  "si_publish si session_id = (if session_id = [] then si else si\<lparr>si_session_id := Some session_id\<rparr>)"

definition si_forget :: "session_identity \<Rightarrow> session_identity" where
  "si_forget si = si\<lparr>si_session_id := None\<rparr>"

definition si_known :: "session_identity \<Rightarrow> bool" where
  "si_known si \<longleftrightarrow> si_session_id si \<noteq> None"

definition process_session_id :: "string \<Rightarrow> session_identity \<Rightarrow> session_identity \<times> string" where
  \<comment> \<open>\<open>fresh\<close> is the \<open>uuid4\<close> of a first use.\<close>
  "process_session_id fresh si =
     (case si_process_session_id si of
        None \<Rightarrow> (si\<lparr>si_process_session_id := Some fresh\<rparr>, fresh)
      | Some p \<Rightarrow> (si, p))"

definition si_current :: "string \<Rightarrow> session_identity \<Rightarrow> session_identity \<times> string" where
  "si_current fresh si =
     (case si_session_id si of None \<Rightarrow> process_session_id fresh si | Some s \<Rightarrow> (si, s))"

section \<open>The registry\<close>

datatype target_kind = Process | Subagent | External

definition process_target_id :: "string \<Rightarrow> string" where
  "process_target_id command = ''process:'' @ normalize_signature command"

record background_target =
  bt_id :: string
  bt_kind :: target_kind
  bt_session_id :: string
  bt_started_at :: flt
  bt_expected_completion :: bool

record registry =
  rg_targets :: "(string, background_target) dict"
  rg_refcounts :: "(string, int) dict"

definition rg_init :: registry where
  "rg_init = \<lparr>rg_targets = [], rg_refcounts = []\<rparr>"

definition rg_refcount :: "registry \<Rightarrow> string \<Rightarrow> int" where
  "rg_refcount r target_id = opt_or (dget (rg_refcounts r) target_id) 0"

definition rg_register :: "registry \<Rightarrow> background_target \<Rightarrow> registry \<times> int" where
  "rg_register r target =
     (if bt_id target = [] then (r, 0)
      else let n = rg_refcount r (bt_id target) + 1
           in (r\<lparr>rg_targets := dset (rg_targets r) (bt_id target) target,
                 rg_refcounts := dset (rg_refcounts r) (bt_id target) n\<rparr>, n))"

definition rg_release :: "registry \<Rightarrow> string \<Rightarrow> registry \<times> int" where
  "rg_release r target_id =
     (if target_id = [] then (r, 0)
      else let remaining = rg_refcount r target_id - 1
           in if remaining \<le> 0
              then (r\<lparr>rg_targets := dpop (rg_targets r) target_id,
                      rg_refcounts := dpop (rg_refcounts r) target_id\<rparr>, 0)
              else (r\<lparr>rg_refcounts := dset (rg_refcounts r) target_id remaining\<rparr>, remaining))"

definition rg_is_active :: "registry \<Rightarrow> string \<Rightarrow> bool" where
  "rg_is_active r target_id \<longleftrightarrow> 0 < rg_refcount r target_id"

definition rg_active_targets :: "registry \<Rightarrow> string option \<Rightarrow> background_target list" where
  "rg_active_targets r session =
     rev (filter (\<lambda>t. session = None \<or> session = Some (bt_session_id t)) (map snd (rg_targets r)))"

definition rg_active_count :: "registry \<Rightarrow> string option \<Rightarrow> nat" where
  "rg_active_count r session =
     (case session of
        None \<Rightarrow> length (rg_refcounts r)
      | Some s \<Rightarrow> length (filter (\<lambda>t. bt_session_id t = s) (map snd (rg_targets r))))"

definition rg_reset :: "registry \<Rightarrow> registry" where
  "rg_reset r = rg_init"

section \<open>The registry is a bag\<close>

datatype target_op = Register background_target | Release string | Reset

locale target_bag =
  fixes init :: 'r
    and add :: "'r \<Rightarrow> background_target \<Rightarrow> 'r"
    and rem :: "'r \<Rightarrow> string \<Rightarrow> 'r"
    and clear :: "'r \<Rightarrow> 'r"
    and bag :: "'r \<Rightarrow> string multiset"
    and inv :: "'r \<Rightarrow> bool"
  assumes init_bag [simp]: "bag init = {#}" and init_inv [simp]: "inv init"
    and add_bag: "inv r \<Longrightarrow> bag (add r t) = (if bt_id t = [] then bag r else add_mset (bt_id t) (bag r))"
    and add_inv: "inv r \<Longrightarrow> inv (add r t)"
    and rem_bag: "inv r \<Longrightarrow> bag (rem r k) = bag r - {#k#}"
    and rem_inv: "inv r \<Longrightarrow> inv (rem r k)"
    and clear_bag: "bag (clear r) = {#}" and clear_inv: "inv (clear r)"
begin

fun step :: "'r \<Rightarrow> target_op \<Rightarrow> 'r" where
  "step r (Register t) = add r t"
| "step r (Release k) = rem r k"
| "step r Reset = clear r"

fun bag_step :: "string multiset \<Rightarrow> target_op \<Rightarrow> string multiset" where
  "bag_step M (Register t) = (if bt_id t = [] then M else add_mset (bt_id t) M)"
| "bag_step M (Release k) = M - {#k#}"
| "bag_step M Reset = {#}"

lemma step_refines: "inv r \<Longrightarrow> inv (step r op) \<and> bag (step r op) = bag_step (bag r) op"
  by (cases op) (simp_all add: add_bag add_inv rem_bag rem_inv clear_bag clear_inv)

lemma run_refines: "inv r \<Longrightarrow> inv (foldl step r ops) \<and> bag (foldl step r ops) = foldl bag_step (bag r) ops"
  by (induction ops arbitrary: r) (simp_all add: step_refines)

text \<open>A registration undone by its release leaves the bag as it was, whatever happens to other ids.\<close>

lemma other_ops_commute:
  assumes "k \<noteq> []" and "\<forall>op \<in> set ops. case op of Register t \<Rightarrow> bt_id t \<noteq> k | Release j \<Rightarrow> j \<noteq> k | Reset \<Rightarrow> False"
  shows "foldl bag_step (add_mset k M) ops = add_mset k (foldl bag_step M ops)"
  using assms(2)
proof (induction ops arbitrary: M)
  case (Cons op ops)
  have "bag_step (add_mset k M) op = add_mset k (bag_step M op)"
    using Cons.prems assms(1) by (cases op) (auto simp: add_mset_commute)
  then show ?case using Cons by simp
qed simp

end

definition rg_bag :: "registry \<Rightarrow> string multiset" where
  "rg_bag r = sum_list (map (\<lambda>(k, n). replicate_mset (nat n) k) (rg_refcounts r))"

definition rg_inv :: "registry \<Rightarrow> bool" where
  "rg_inv r \<longleftrightarrow> distinct (map fst (rg_refcounts r)) \<and> distinct (map fst (rg_targets r)) \<and>
     dkeys (rg_targets r) = dkeys (rg_refcounts r) \<and> [] \<notin> dkeys (rg_refcounts r) \<and>
     (\<forall>k n. dget (rg_refcounts r) k = Some n \<longrightarrow> 0 < n) \<and>
     (\<forall>k t. dget (rg_targets r) k = Some t \<longrightarrow> bt_id t = k)"

lemma count_sum_replicate:
  "distinct (map fst d) \<Longrightarrow> count (sum_list (map (\<lambda>(k, n). replicate_mset (nat n) k) d)) k =
     nat (opt_or (dget d k) 0)"
proof (induction d)
  case (Cons p d)
  obtain j n where p: "p = (j, n)" by (cases p)
  have "dget d j = None" using Cons.prems by (simp add: p dget_None_iff)
  then show ?case using Cons by (auto simp: p)
qed simp

lemma count_rg_bag: "rg_inv r \<Longrightarrow> count (rg_bag r) k = nat (rg_refcount r k)"
  by (simp add: rg_bag_def rg_refcount_def rg_inv_def count_sum_replicate)

lemma refcount_nonneg: "rg_inv r \<Longrightarrow> 0 \<le> rg_refcount r k"
  by (cases "dget (rg_refcounts r) k") (auto simp: rg_refcount_def rg_inv_def less_imp_le)

lemma refcount_empty_id: "rg_inv r \<Longrightarrow> rg_refcount r [] = 0"
  by (simp add: rg_refcount_def rg_inv_def dget_None_iff [THEN iffD2])

lemma rg_register_refcount:
  "rg_refcount (fst (rg_register r t)) k =
     (if k = bt_id t \<and> bt_id t \<noteq> [] then rg_refcount r k + 1 else rg_refcount r k)"
  by (auto simp: rg_register_def rg_refcount_def Let_def)

lemma rg_release_refcount:
  "rg_inv r \<Longrightarrow> rg_refcount (fst (rg_release r j)) k =
     (if k = j then max 0 (rg_refcount r k - 1) else rg_refcount r k)"
  using refcount_empty_id [of r] by (auto simp: rg_release_def rg_refcount_def Let_def)

lemma rg_register_inv: "rg_inv r \<Longrightarrow> rg_inv (fst (rg_register r t))"
  using refcount_nonneg [of r "bt_id t"]
  by (auto simp: rg_inv_def rg_register_def Let_def simp del: map_of_eq_Some_iff split: if_splits)

lemma rg_release_inv: "rg_inv r \<Longrightarrow> rg_inv (fst (rg_release r k))"
proof -
  assume i: "rg_inv r"
  have "k \<in> dkeys (rg_refcounts r)" if "0 < rg_refcount r k"
    using that by (cases "dget (rg_refcounts r) k") (auto simp: rg_refcount_def dest: dget_SomeD intro: rev_image_eqI)
  then show ?thesis
    using i by (auto simp: rg_inv_def rg_release_def Let_def insert_absorb simp del: map_of_eq_Some_iff split: if_splits)
qed

interpretation bag: target_bag rg_init "\<lambda>r t. fst (rg_register r t)" "\<lambda>r k. fst (rg_release r k)" rg_reset rg_bag rg_inv
proof unfold_locales
  fix r t k
  show "rg_bag rg_init = {#}" "rg_inv rg_init" "rg_bag (rg_reset r) = {#}" "rg_inv (rg_reset r)"
    by (simp_all add: rg_bag_def rg_init_def rg_inv_def rg_reset_def)
  assume i: "rg_inv r"
  show "rg_inv (fst (rg_register r t))" "rg_inv (fst (rg_release r k))"
    using i by (rule rg_register_inv, rule rg_release_inv)
  show "rg_bag (fst (rg_register r t)) = (if bt_id t = [] then rg_bag r else add_mset (bt_id t) (rg_bag r))"
    using refcount_nonneg [OF i] i
    by (auto simp: multiset_eq_iff count_rg_bag rg_register_inv rg_register_refcount nat_add_distrib)
  show "rg_bag (fst (rg_release r k)) = rg_bag r - {#k#}"
    using i by (auto simp: multiset_eq_iff count_rg_bag rg_release_inv rg_release_refcount nat_diff_distrib')
qed

fun rg_step :: "registry \<Rightarrow> target_op \<Rightarrow> registry" where
  "rg_step r (Register t) = fst (rg_register r t)"
| "rg_step r (Release k) = fst (rg_release r k)"
| "rg_step r Reset = rg_reset r"

definition rg_run :: "target_op list \<Rightarrow> registry" where
  "rg_run ops = foldl rg_step rg_init ops"

fun ids_step :: "string multiset \<Rightarrow> target_op \<Rightarrow> string multiset" where
  "ids_step M (Register t) = (if bt_id t = [] then M else add_mset (bt_id t) M)"
| "ids_step M (Release k) = M - {#k#}"
| "ids_step M Reset = {#}"

definition ids_after :: "target_op list \<Rightarrow> string multiset" where
  "ids_after ops = foldl ids_step {#} ops"

lemma steps_of_bag: "rg_step = bag.step" "ids_step = bag.bag_step"
proof -
  show "rg_step = bag.step"
  proof (intro ext)
    fix r op show "rg_step r op = bag.step r op" by (cases op) auto
  qed
  show "ids_step = bag.bag_step"
  proof (intro ext)
    fix M op show "ids_step M op = bag.bag_step M op" by (cases op) auto
  qed
qed

lemma rg_run_bag: "rg_inv (rg_run ops)" "rg_bag (rg_run ops) = ids_after ops"
  using bag.run_refines [of rg_init ops] by (simp_all add: rg_run_def ids_after_def steps_of_bag)

lemma rg_refcount_run: "rg_refcount (rg_run ops) k = int (count (ids_after ops) k)"
  using count_rg_bag [OF rg_run_bag(1), of ops k] refcount_nonneg [OF rg_run_bag(1), of ops k]
  by (simp add: rg_run_bag(2))

lemma active_ids: "rg_inv r \<Longrightarrow> map bt_id (rg_active_targets r None) = rev (map fst (rg_targets r))"
proof -
  assume i: "rg_inv r"
  have "map (bt_id \<circ> snd) (rg_targets r) = map fst (rg_targets r)"
  proof (rule map_cong [OF refl])
    fix p assume "p \<in> set (rg_targets r)"
    then have "dget (rg_targets r) (fst p) = Some (snd p)" using i
      by (simp add: rg_inv_def map_of_eq_Some_iff)
    then show "(bt_id \<circ> snd) p = fst p" using i unfolding rg_inv_def by simp
  qed
  then show ?thesis by (simp add: rg_active_targets_def rev_map [symmetric])
qed

lemma dkeys_refcounts: "rg_inv r \<Longrightarrow> dkeys (rg_refcounts r) = set_mset (rg_bag r)"
proof -
  assume i: "rg_inv r"
  have "k \<in> dkeys (rg_refcounts r) \<longleftrightarrow> 0 < rg_refcount r k" for k
    using i dget_None_iff [of "rg_refcounts r" k]
    by (cases "dget (rg_refcounts r) k") (auto simp: rg_refcount_def rg_inv_def simp del: map_of_eq_Some_iff)
  then show ?thesis
    using count_rg_bag [OF i] by (intro set_eqI) (simp only: count_greater_zero_iff [symmetric] zero_less_nat_eq)
qed

text \<open>C26: The target registry is a bag of ids. After any sequence of registrations, releases and resets
  the refcount of an id is its multiplicity in the bag those operations describe, where a release of an
  absent id does nothing and a registration without an id is ignored; an id is active exactly when it is
  in the bag, the number of active targets is the number of its distinct ids, the active targets are
  those ids, each once, and a release answers the multiplicity that remains.\<close>

theorem registry_is_bag:
  "rg_refcount (rg_run ops) k = int (count (ids_after ops) k) \<and>
   (rg_is_active (rg_run ops) k \<longleftrightarrow> k \<in># ids_after ops) \<and>
   rg_active_count (rg_run ops) None = card (set_mset (ids_after ops)) \<and>
   set (map bt_id (rg_active_targets (rg_run ops) None)) = set_mset (ids_after ops) \<and>
   distinct (map bt_id (rg_active_targets (rg_run ops) None)) \<and>
   snd (rg_release (rg_run ops) k) = int (count (ids_after ops - {#k#}) k)"
proof -
  note i = rg_run_bag(1) [of ops]
  have d: "distinct (map fst (rg_refcounts (rg_run ops)))" "distinct (map fst (rg_targets (rg_run ops)))"
    "dkeys (rg_targets (rg_run ops)) = set_mset (ids_after ops)"
    using i dkeys_refcounts [OF i] by (simp_all add: rg_inv_def rg_run_bag(2))
  have "rg_active_count (rg_run ops) None = card (set (map fst (rg_refcounts (rg_run ops))))"
    using distinct_card [OF d(1)] by (simp add: rg_active_count_def)
  then have a: "rg_active_count (rg_run ops) None = card (set_mset (ids_after ops))"
    using dkeys_refcounts [OF i] by (simp add: rg_run_bag(2))
  have m: "k \<in># ids_after ops \<longleftrightarrow> 0 < rg_refcount (rg_run ops) k"
    by (simp add: rg_refcount_run)
  have "snd (rg_release (rg_run ops) k) = max 0 (rg_refcount (rg_run ops) k - 1)"
    using refcount_empty_id [OF i] by (auto simp: rg_release_def Let_def)
  also have "\<dots> = int (count (ids_after ops - {#k#}) k)"
    by (simp add: rg_refcount_run max_def of_nat_diff not_in_iff)
  finally have r: "snd (rg_release (rg_run ops) k) = int (count (ids_after ops - {#k#}) k)" .
  show ?thesis
    unfolding active_ids [OF i] rg_is_active_def using a m r d(2,3) rg_refcount_run [of ops k] by simp
qed

section \<open>What the registry does not do\<close>

text \<open>
  A second registration of an id replaces the target, so when two sessions run the same command the
  first session loses its target while the refcount is two; and it keeps the old place, so the active
  targets are not in order of their latest registration.
\<close>

definition target_for :: "string \<Rightarrow> string \<Rightarrow> background_target" where
  "target_for k s = \<lparr>bt_id = k, bt_kind = Process, bt_session_id = s, bt_started_at = 0,
     bt_expected_completion = True\<rparr>"

lemma same_command_steals_target:
  "rg_refcount (rg_run [Register (target_for ''process:make'' ''s1''), Register (target_for ''process:make'' ''s2'')])
     ''process:make'' = 2"
  "rg_active_count (rg_run [Register (target_for ''process:make'' ''s1''),
     Register (target_for ''process:make'' ''s2'')]) (Some ''s1'') = 0"
  by (simp_all add: rg_run_def rg_register_def rg_refcount_def rg_active_count_def rg_init_def target_for_def)

lemma latest_registration_not_first:
  "map bt_id (rg_active_targets (rg_run [Register (target_for ''a'' ''s''), Register (target_for ''b'' ''s''),
     Register (target_for ''a'' ''s'')]) None) = [''b'', ''a'']"
  by (simp add: rg_run_def rg_register_def rg_refcount_def rg_active_targets_def rg_init_def target_for_def)

end
