(* ===== verification/Classifier.thy ===== *)
theory Classifier
  imports DurationHistory LeaseConfig
begin

text \<open>
  The Hermes plugin's settings (\<open>cachepilot_hermes/config.py\<close>, the long-task part and the switches) and
  its deterministic classifier of terminal calls (\<open>cachepilot_hermes/classifier.py\<close>). Tool arguments are
  JSON values. \<open>fmt_g\<close> is the \<open>:g\<close> format of a float in the reason texts.
\<close>

section \<open>Settings\<close>

definition DEFAULT_KNOWN_LONG_COMMANDS :: "string list" where
  "DEFAULT_KNOWN_LONG_COMMANDS = [''pytest'', ''uv run pytest'', ''yarn test'', ''yarn build'', ''yarn lint'',
     ''docker build'', ''docker compose build'', ''cargo build'', ''cargo test'', ''make'', ''cmake --build'',
     ''ninja'', ''git clone'', ''git submodule update'', ''pip install'', ''npm install'', ''apt-get install'',
     ''brew install'', ''mvn test'', ''mvn package'', ''gradle build'', ''go test'', ''go build'',
     ''benchmark'', ''bench'']"

definition DEFAULT_KNOWN_FOREGROUND_COMMANDS :: "string list" where
  "DEFAULT_KNOWN_FOREGROUND_COMMANDS = [''pwd'', ''ls'', ''git status'', ''git diff'', ''git diff --stat'',
     ''cat'', ''head'', ''tail'', ''rg'', ''sed'', ''which'', ''echo'', ''printf'', ''true'', ''false'']"

record long_tasks_settings =
  lt_enabled :: bool
  lt_auto_background :: bool
  lt_timeout_threshold_s :: pyfloat
  lt_learn_command_durations :: bool
  lt_notify_on_complete :: bool
  lt_known_long_commands :: "string list"
  lt_known_foreground_commands :: "string list"
  lt_db_path :: "string option"
  lt_enforce_foreground_hard_policy :: bool

definition default_long_tasks :: long_tasks_settings where
  "default_long_tasks = \<lparr>lt_enabled = True, lt_auto_background = True, lt_timeout_threshold_s = Fin 20,
     lt_learn_command_durations = True, lt_notify_on_complete = True,
     lt_known_long_commands = DEFAULT_KNOWN_LONG_COMMANDS,
     lt_known_foreground_commands = DEFAULT_KNOWN_FOREGROUND_COMMANDS, lt_db_path = None,
     lt_enforce_foreground_hard_policy = False\<rparr>"

definition plugin_flag :: "string \<Rightarrow> bool" where
  "plugin_flag raw \<longleftrightarrow> py_lower (py_strip raw) \<in> {''1'', ''true'', ''yes'', ''on''}"

definition plugin_float :: "string option \<Rightarrow> flt \<Rightarrow> pyfloat" where
  "plugin_float raw dflt = (case raw of None \<Rightarrow> Fin dflt
     | Some s \<Rightarrow> opt_or (py_float_of_string (py_strip s)) (Fin dflt))"

definition env_list :: "string option \<Rightarrow> string list option" where
  "env_list raw = (case raw of None \<Rightarrow> None
     | Some s \<Rightarrow> (let parts = filter (\<lambda>p. p \<noteq> []) (map py_strip (split_on (CHR '','') s))
                  in if parts = [] then None else Some parts))"

definition long_tasks_from_env :: "(string \<Rightarrow> string option) \<Rightarrow> long_tasks_settings" where
  "long_tasks_from_env env =
     \<lparr>lt_enabled = plugin_flag (opt_or (env ''CACHEPILOT_LONG_TASKS_ENABLED'') ''true''),
      lt_auto_background = plugin_flag (opt_or (env ''CACHEPILOT_LONG_TASKS_AUTO_BACKGROUND'') ''true''),
      lt_timeout_threshold_s = plugin_float (env ''CACHEPILOT_LONG_TASKS_TIMEOUT_THRESHOLD_S'') 20,
      lt_learn_command_durations =
        plugin_flag (opt_or (env ''CACHEPILOT_LONG_TASKS_LEARN_COMMAND_DURATIONS'') ''true''),
      lt_notify_on_complete = plugin_flag (opt_or (env ''CACHEPILOT_LONG_TASKS_NOTIFY_ON_COMPLETE'') ''true''),
      lt_known_long_commands = opt_or (env_list (env ''CACHEPILOT_LONG_TASKS_KNOWN_LONG_COMMANDS''))
        DEFAULT_KNOWN_LONG_COMMANDS,
      lt_known_foreground_commands = opt_or (env_list (env ''CACHEPILOT_LONG_TASKS_KNOWN_FOREGROUND_COMMANDS''))
        DEFAULT_KNOWN_FOREGROUND_COMMANDS,
      lt_db_path = (case env ''CACHEPILOT_LONG_TASKS_DB_PATH'' of Some [] \<Rightarrow> None | p \<Rightarrow> p),
      lt_enforce_foreground_hard_policy =
        plugin_flag (opt_or (env ''CACHEPILOT_LONG_TASKS_ENFORCE_FOREGROUND_HARD_POLICY'') ''false'')\<rparr>"

section \<open>The classifier\<close>

datatype task_decision = FOREGROUND | LONG_RUNNING

definition MIN_LEARNED_SAMPLES :: nat where
  "MIN_LEARNED_SAMPLES = 2"

definition as_float :: "json \<Rightarrow> py_error + pyfloat option" where
  \<comment> \<open>An integer past the range of a float raises \<open>OverflowError\<close>, which is not caught.\<close>
  "as_float v =
     (case v of
        JNull \<Rightarrow> Inr None
      | JBool b \<Rightarrow> Inr (Some (Fin (if b then 1 else 0)))
      | JInt i \<Rightarrow> (case to_float (of_int i) of Fin r \<Rightarrow> Inr (Some (Fin r)) | _ \<Rightarrow> Inl OverflowError)
      | JFloat x \<Rightarrow> Inr (Some x)
      | JStr s \<Rightarrow> Inr (py_float_of_string s)
      | _ \<Rightarrow> Inr None)"

definition command_tokens :: "string \<Rightarrow> string list" where
  "command_tokens command = (case shlex_split command of None \<Rightarrow> split_ws command | Some ts \<Rightarrow> ts)"

definition tokenize_families :: "string list \<Rightarrow> string list list" where
  "tokenize_families entries = map split_ws (filter (\<lambda>e. py_strip e \<noteq> []) entries)"

definition matches_any_family :: "string list \<Rightarrow> string list list \<Rightarrow> bool" where
  "matches_any_family tokens families \<longleftrightarrow>
     list_ex (\<lambda>family. length family \<le> length tokens \<and>
       list_all (\<lambda>(actual, expected). py_lower actual = py_lower expected)
         (zip (take (length family) tokens) family)) families"

definition classify_static :: "long_tasks_settings \<Rightarrow> string \<Rightarrow> task_decision \<times> string" where
  \<comment> \<open>Steps 5 to 7.\<close>
  "classify_static settings command =
     (let tokens = command_tokens command in
      if matches_any_family tokens (tokenize_families (lt_known_foreground_commands settings))
      then (FOREGROUND, ''known-fast command family'')
      else if matches_any_family tokens (tokenize_families (lt_known_long_commands settings))
      then (LONG_RUNNING, ''known-long command family'')
      else (FOREGROUND, ''default''))"

definition classify_learned ::
  "(pyfloat \<Rightarrow> string) \<Rightarrow> long_tasks_settings \<Rightarrow> string \<Rightarrow> command_stats option \<Rightarrow> task_decision \<times> string" where
  \<comment> \<open>Step 4, then the static families.\<close>
  "classify_learned fmt_g settings command history =
     (case history of
        Some h \<Rightarrow> if MIN_LEARNED_SAMPLES \<le> cs_sample_count h \<and>
            pf_le (lt_timeout_threshold_s settings) (Fin (cs_p90 h))
          then (LONG_RUNNING, ''learned p90 '' @ fmt_g (Fin (cs_p90 h)) @ ''s >= threshold'')
          else classify_static settings command
      | None \<Rightarrow> classify_static settings command)"

definition task_classify ::
  "(pyfloat \<Rightarrow> string) \<Rightarrow> long_tasks_settings \<Rightarrow> string \<Rightarrow> json \<Rightarrow> command_stats option \<Rightarrow>
   py_error + task_decision \<times> string" where
  "task_classify fmt_g settings tool_name args history =
     (if tool_name \<noteq> ''terminal'' then Inr (FOREGROUND, ''not a terminal call'')
      else case args of
        JObj kvs \<Rightarrow>
          (case json_field ''command'' kvs of
             JStr command \<Rightarrow>
               if py_strip command = [] then Inr (FOREGROUND, ''no command'')
               else if json_field ''background'' kvs = JBool True
               then Inr (LONG_RUNNING, ''explicit background=true'')
               else if json_field ''background'' kvs = JBool False \<and>
                       \<not> lt_enforce_foreground_hard_policy settings
               then Inr (FOREGROUND, ''explicit background=false'')
               else res_bind (as_float (json_field ''timeout'' kvs)) (\<lambda>timeout.
                 Inr (case timeout of
                   Some t \<Rightarrow>
                     if pf_le (lt_timeout_threshold_s settings) t
                     then (LONG_RUNNING, ''requested timeout '' @ fmt_g t @ ''s >= threshold'')
                     else classify_learned fmt_g settings command history
                 | None \<Rightarrow> classify_learned fmt_g settings command history))
           | _ \<Rightarrow> Inr (FOREGROUND, ''no command''))
      | _ \<Rightarrow> Inr (FOREGROUND, ''malformed tool args''))"

section \<open>Decisions\<close>

lemma matches_family_append:
  "matches_any_family tokens families \<Longrightarrow> matches_any_family (tokens @ rest) families"
  unfolding matches_any_family_def list_ex_iff
proof (elim bexE conjE)
  fix family assume f: "family \<in> set families" "length family \<le> length tokens"
    "list_all (\<lambda>(actual, expected). py_lower actual = py_lower expected) (zip (take (length family) tokens) family)"
  then show "\<exists>family \<in> set families. length family \<le> length (tokens @ rest) \<and>
      list_all (\<lambda>(actual, expected). py_lower actual = py_lower expected)
        (zip (take (length family) (tokens @ rest)) family)"
    by (intro bexI [of _ family]) auto
qed

lemma as_float_error: "(\<exists>e. as_float v = Inl e) \<longleftrightarrow> (\<exists>i. v = JInt i \<and> (\<forall>r. to_float (of_int i) \<noteq> Fin r))"
  by (auto simp: as_float_def split: json.split pyfloat.split)

definition learned_long :: "long_tasks_settings \<Rightarrow> command_stats option \<Rightarrow> bool" where
  "learned_long settings history = (case history of None \<Rightarrow> False
     | Some h \<Rightarrow> MIN_LEARNED_SAMPLES \<le> cs_sample_count h \<and>
         pf_le (lt_timeout_threshold_s settings) (Fin (cs_p90 h)))"

lemma classify_learned_long:
  "fst (classify_learned fmt_g settings command history) = LONG_RUNNING \<longleftrightarrow>
     learned_long settings history \<or>
     \<not> matches_any_family (command_tokens command) (tokenize_families (lt_known_foreground_commands settings)) \<and>
     matches_any_family (command_tokens command) (tokenize_families (lt_known_long_commands settings))"
  by (auto simp: classify_learned_def learned_long_def classify_static_def Let_def split: option.split)

text \<open>The classifier's decision. A call is long-running exactly when it is a terminal call with a command
  and either it asks for the background itself, or it does not ask for the foreground (unless the hard
  policy overrides that) and its timeout is at the threshold, or its learned 90th percentile is with at
  least two samples, or its tokens begin with a known long family and with no known fast one. The only
  exception is an integer timeout past the range of a float, and only where the timeout is read.\<close>

theorem classifier_decision:
  assumes "kvs = (case args of JObj kvs \<Rightarrow> kvs | _ \<Rightarrow> [])"
    and "timeout = as_float (json_field ''timeout'' kvs)"
    and "reads_timeout \<longleftrightarrow> json_field ''background'' kvs \<noteq> JBool True \<and>
      (json_field ''background'' kvs = JBool False \<longrightarrow> lt_enforce_foreground_hard_policy settings)"
    and "fast \<longleftrightarrow> (\<exists>c. json_field ''command'' kvs = JStr c \<and>
      matches_any_family (command_tokens c) (tokenize_families (lt_known_foreground_commands settings)))"
    and "slow \<longleftrightarrow> (\<exists>c. json_field ''command'' kvs = JStr c \<and>
      matches_any_family (command_tokens c) (tokenize_families (lt_known_long_commands settings)))"
    and "candidate \<longleftrightarrow> tool_name = ''terminal'' \<and>
      (\<exists>command. json_field ''command'' kvs = JStr command \<and> py_strip command \<noteq> [])"
  shows "((\<exists>reason. task_classify fmt_g settings tool_name args history = Inr (LONG_RUNNING, reason)) \<longleftrightarrow>
      candidate \<and> (json_field ''background'' kvs = JBool True \<or>
         reads_timeout \<and> (\<exists>t. timeout = Inr t \<and>
           ((\<exists>x. t = Some x \<and> pf_le (lt_timeout_threshold_s settings) x) \<or>
            learned_long settings history \<or> \<not> fast \<and> slow)))) \<and>
    (task_classify fmt_g settings tool_name args history = Inl e \<longleftrightarrow>
      candidate \<and> reads_timeout \<and> timeout = Inl e)"
proof (cases candidate)
  case False
  then have "\<exists>reason. task_classify fmt_g settings tool_name args history = Inr (FOREGROUND, reason)"
    using assms(1,6) by (auto simp: task_classify_def split: json.split)
  then show ?thesis using False by auto
next
  case True
  then obtain command where c: "json_field ''command'' kvs = JStr command" "py_strip command \<noteq> []"
    "tool_name = ''terminal''" using assms(6) by blast
  then have k: "args = JObj kvs" using assms(1) by (cases args) auto
  have e: "task_classify fmt_g settings tool_name args history =
      (if json_field ''background'' kvs = JBool True then Inr (LONG_RUNNING, ''explicit background=true'')
       else if \<not> reads_timeout then Inr (FOREGROUND, ''explicit background=false'')
       else res_bind timeout (\<lambda>t. Inr (case t of
           Some x \<Rightarrow> if pf_le (lt_timeout_threshold_s settings) x
             then (LONG_RUNNING, ''requested timeout '' @ fmt_g x @ ''s >= threshold'')
             else classify_learned fmt_g settings command history
         | None \<Rightarrow> classify_learned fmt_g settings command history)))"
    unfolding task_classify_def k using c assms(2,3) by simp
  have l: "(\<exists>reason. classify_learned fmt_g settings command history = (LONG_RUNNING, reason)) \<longleftrightarrow>
      learned_long settings history \<or> \<not> fast \<and> slow"
    using classify_learned_long [of fmt_g settings command history] c(1) assms(4,5)
    by (cases "classify_learned fmt_g settings command history") auto
  show ?thesis
  proof (cases "json_field ''background'' kvs = JBool True \<or> \<not> reads_timeout")
    case True
    then show ?thesis using e \<open>candidate\<close> assms(3) by auto
  next
    case False
    then show ?thesis
      unfolding e using l \<open>candidate\<close> by (cases timeout) (auto split: option.splits if_splits)
  qed
qed

text \<open>Concrete calls: a known-long command, the user's foreground wish, and a huge integer timeout.\<close>

theorem classifier_decision_witness:
  "\<exists>reason. task_classify (\<lambda>_. []) default_long_tasks ''terminal''
     (JObj [(''command'', JStr ''ls''), (''background'', JBool True)]) None = Inr (LONG_RUNNING, reason)"
  using conjunct1 [OF classifier_decision [OF refl refl refl refl refl refl, where settings = default_long_tasks
      and args = "JObj [(''command'', JStr ''ls''), (''background'', JBool True)]" and fmt_g = "\<lambda>_. []"
      and tool_name = "''terminal''" and history = None]]
  by (simp add: py_strip_def lstrip_def rstrip_by_def is_space_def code_def)

lemma huge_timeout_raises:
  "task_classify (\<lambda>_. []) default_long_tasks ''terminal''
     (JObj [(''command'', JStr ''ls''), (''timeout'', JInt (10 ^ 400))]) None = Inl OverflowError"
  by (simp add: task_classify_def as_float_def to_float_def py_strip_def lstrip_def rstrip_by_def is_space_def code_def)

end
