(* ===== verification/HermesPlugin.thy ===== *)
theory HermesPlugin
  imports Classifier HermesTargets Observation
begin

text \<open>
  The Hermes plugin at work: the hooks of \<open>cachepilot_hermes/lifecycle.py\<close> and the middleware of
  \<open>tool_middleware.py\<close> and \<open>llm_middleware.py\<close> over the state \<open>plugin.py\<close> shares between them
  (session identity, target registry, duration learner). What the callbacks log is in theory PluginLog. Each callback is one
  step; \<open>None\<close> from a middleware means no change. The last section follows a background command from
  its promotion to the target count the relay reads.
\<close>

record plugin =
  pl_identity :: session_identity
  pl_targets :: registry
  pl_history :: "duration_history option"

definition plugin_init :: "long_tasks_settings \<Rightarrow> (string, duration_row) dict \<Rightarrow> bool \<Rightarrow> plugin" where
  \<comment> \<open>\<open>rows\<close> is what the duration database holds, \<open>db_ok\<close> whether it opens.\<close>
  "plugin_init settings rows db_ok =
     \<lparr>pl_identity = si_init, pl_targets = rg_init,
      pl_history = (if lt_learn_command_durations settings then Some (dh_open rows db_ok) else None)\<rparr>"

section \<open>Lifecycle hooks\<close>

definition result_is_success :: "json \<Rightarrow> py_error + bool" where
  \<comment> \<open>An infinite exit code raises \<open>OverflowError\<close>, which is not caught here.\<close>
  "result_is_success result =
     (case result of
        JObj kvs \<Rightarrow>
          (case json_field ''exit_code'' kvs of
             JInt i \<Rightarrow> Inr (i = 0)
           | JBool b \<Rightarrow> Inr (\<not> b)
           | JFloat (Fin r) \<Rightarrow> Inr (trunc_rat r = 0)
           | JFloat PInf \<Rightarrow> Inl OverflowError
           | JFloat NInf \<Rightarrow> Inl OverflowError
           | JStr s \<Rightarrow> Inr (case py_int_of_string s of None \<Rightarrow> True | Some n \<Rightarrow> n = 0)
           | _ \<Rightarrow> Inr True)
      | _ \<Rightarrow> Inr True)"

definition command_of :: "json \<Rightarrow> string option" where
  \<comment> \<open>The command of a mapping of arguments when it is a string that is not blank.\<close>
  "command_of args =
     (case args of
        JObj kvs \<Rightarrow> (case json_field ''command'' kvs of
                       JStr c \<Rightarrow> if py_strip c = [] then None else Some c | _ \<Rightarrow> None)
      | _ \<Rightarrow> None)"

definition publish :: "plugin \<Rightarrow> string \<Rightarrow> plugin" where
  "publish pl session_id = pl\<lparr>pl_identity := si_publish (pl_identity pl) session_id\<rparr>"

definition release_target :: "plugin \<Rightarrow> string \<Rightarrow> plugin" where
  "release_target pl k = pl\<lparr>pl_targets := fst (rg_release (pl_targets pl) k)\<rparr>"

definition post_tool_call ::
  "long_tasks_settings \<Rightarrow> bool \<Rightarrow> flt \<Rightarrow> plugin \<Rightarrow> string \<Rightarrow> json \<Rightarrow> json \<Rightarrow> string \<Rightarrow> flt option \<Rightarrow> plugin" where
  \<comment> \<open>An exception ends the hook with what was done before it.\<close>
  "post_tool_call settings db_ok now pl tool_name args result session_id duration_ms =
     (let pl = publish pl session_id in
      if tool_name \<noteq> ''terminal'' then pl
      else case command_of args of
        None \<Rightarrow> pl
      | Some command \<Rightarrow>
          (let pl = (if lt_enabled settings then release_target pl (process_target_id command) else pl) in
           case (pl_history pl, duration_ms, args) of
             (Some h, Some ms, JObj kvs) \<Rightarrow>
               if \<not> lt_enabled settings \<or> \<not> lt_learn_command_durations settings then pl
               else (case result_is_success result of
                       Inl e \<Rightarrow> pl
                     | Inr ok \<Rightarrow> pl\<lparr>pl_history := Some (dh_record db_ok now h command (ms / 1000)
                                  (json_truthy (json_field ''background'' kvs)) ok)\<rparr>)
           | _ \<Rightarrow> pl))"

definition subagent_start ::
  "long_tasks_settings \<Rightarrow> flt \<Rightarrow> plugin \<Rightarrow> string \<Rightarrow> string \<Rightarrow> string \<Rightarrow> plugin" where
  "subagent_start settings now pl parent_session_id child_session_id child_subagent_id =
     (let pl = publish pl parent_session_id;
          target_id = (if child_session_id \<noteq> [] then child_session_id else child_subagent_id)
      in if \<not> lt_enabled settings \<or> target_id = [] then pl
         else pl\<lparr>pl_targets := fst (rg_register (pl_targets pl)
                \<lparr>bt_id = target_id, bt_kind = Subagent, bt_session_id = parent_session_id,
                 bt_started_at = now, bt_expected_completion = True\<rparr>)\<rparr>)"

definition subagent_stop :: "long_tasks_settings \<Rightarrow> plugin \<Rightarrow> string \<Rightarrow> plugin" where
  "subagent_stop settings pl child_session_id =
     (if lt_enabled settings \<and> child_session_id \<noteq> [] then release_target pl child_session_id else pl)"

definition on_session_start :: "plugin \<Rightarrow> string \<Rightarrow> plugin" where
  "on_session_start pl session_id = publish pl session_id"

definition on_session_reset :: "plugin \<Rightarrow> string \<Rightarrow> plugin" where
  "on_session_reset pl session_id = publish pl session_id"

definition on_session_end :: "plugin \<Rightarrow> plugin" where
  "on_session_end pl = pl"

section \<open>Tool middleware\<close>

definition register_process_target :: "string \<Rightarrow> flt \<Rightarrow> plugin \<Rightarrow> json \<Rightarrow> plugin" where
  "register_process_target fresh now pl args =
     (case command_of args of
        None \<Rightarrow> pl
      | Some command \<Rightarrow>
          (let (si, session) = si_current fresh (pl_identity pl)
           in pl\<lparr>pl_identity := si, pl_targets := fst (rg_register (pl_targets pl)
                \<lparr>bt_id = process_target_id command, bt_kind = Process, bt_session_id = session,
                 bt_started_at = now, bt_expected_completion = True\<rparr>)\<rparr>))"

definition learned_stats :: "long_tasks_settings \<Rightarrow> bool \<Rightarrow> plugin \<Rightarrow> json_body \<Rightarrow> plugin \<times> command_stats option" where
  "learned_stats settings db_ok pl kvs =
     (case (pl_history pl, json_field ''command'' kvs) of
        (Some h, JStr command) \<Rightarrow>
          if lt_learn_command_durations settings
          then (let (h, stats) = dh_stats db_ok h command in (pl\<lparr>pl_history := Some h\<rparr>, stats))
          else (pl, None)
      | _ \<Rightarrow> (pl, None))"

definition tool_request ::
  "(pyfloat \<Rightarrow> string) \<Rightarrow> long_tasks_settings \<Rightarrow> bool \<Rightarrow> string \<Rightarrow> flt \<Rightarrow> plugin \<Rightarrow> string \<Rightarrow> json \<Rightarrow>
   plugin \<times> json option" where
  "tool_request fmt_g settings db_ok fresh now pl tool_name args =
     (if tool_name \<noteq> ''terminal'' \<or> \<not> lt_enabled settings \<or> \<not> lt_auto_background settings then (pl, None)
      else case args of
        JObj kvs \<Rightarrow>
          (let (pl, stats) = learned_stats settings db_ok pl kvs in
           case task_classify fmt_g settings ''terminal'' args stats of
             Inr (LONG_RUNNING, why) \<Rightarrow>
               (let updated = dset kvs ''background'' (JBool True);
                    updated = (if lt_notify_on_complete settings
                               then dset updated ''notify_on_complete'' (JBool True) else updated)
                in (register_process_target fresh now pl args, Some (JObj updated)))
           | _ \<Rightarrow> (pl, None))
      | _ \<Rightarrow> (pl, None))"

definition tool_execution :: "(json \<Rightarrow> 'a) option \<Rightarrow> (json \<Rightarrow> 'a) \<Rightarrow> json \<Rightarrow> 'a" where
  \<comment> \<open>Without a next call the payload itself is the result.\<close>
  "tool_execution next_call payload args = (case next_call of None \<Rightarrow> payload args | Some f \<Rightarrow> f args)"

section \<open>LLM middleware\<close>

definition make_correlation_headers :: "(string \<Rightarrow> string) \<Rightarrow> string \<Rightarrow> string \<Rightarrow> json_body" where
  \<comment> \<open>\<open>uuid5\<close> is the name-based identifier in the fixed namespace.\<close>
  "make_correlation_headers uuid5 session_id request_id =
     [(''X-CachePilot-Session'', JStr session_id), (''X-CachePilot-Request'', JStr request_id),
      (''X-CachePilot-Turn'', JStr (uuid5 (session_id @ '':'' @ request_id)))]"

definition merge_dict :: "json_body \<Rightarrow> json_body \<Rightarrow> json_body" where
  \<comment> \<open>\<open>{**a, **b}\<close>\<close>
  "merge_dict a b = foldl (\<lambda>d (k, v). dset d k v) a b"

definition attach_correlation_headers ::
  "(string \<Rightarrow> string) \<Rightarrow> json \<Rightarrow> string \<Rightarrow> string \<Rightarrow> json_body \<Rightarrow> json option" where
  "attach_correlation_headers uuid5 request session_id request_id extra =
     (case request of
        JObj kvs \<Rightarrow>
          (case json_field ''headers'' kvs of
             JObj hs \<Rightarrow> Some (JObj (dset kvs ''headers'' (JObj
               (merge_dict (merge_dict (make_correlation_headers uuid5 session_id request_id) extra) hs))))
           | _ \<Rightarrow> None)
      | _ \<Rightarrow> None)"

definition llm_request ::
  "(string \<Rightarrow> string) \<Rightarrow> bool \<Rightarrow> string \<Rightarrow> string \<Rightarrow> plugin \<Rightarrow> json \<Rightarrow> plugin \<times> json option" where
  "llm_request uuid5 correlation_headers fresh request_id pl request =
     (if \<not> correlation_headers then (pl, None)
      else
        (let (si, session) = si_current fresh (pl_identity pl);
             extra = [(''X-CachePilot-Targets'',
               JStr (nat_str (rg_active_count (pl_targets pl) (Some session))))]
         in (pl\<lparr>pl_identity := si\<rparr>, attach_correlation_headers uuid5 request session request_id extra)))"

section \<open>From a promotion to the relay\<close>

lemma targets_count_nat_str: "length (nat_str n) \<le> 4300 \<Longrightarrow> parse_targets_count (Some (nat_str n)) = int n"
  using nat_str_digits [of n] by (simp add: parse_targets_count_def strip_digits int_of_nat_str)

lemma dget_merge: "distinct (map fst b) \<Longrightarrow> dget (merge_dict a b) k = (case dget b k of None \<Rightarrow> dget a k | Some v \<Rightarrow> Some v)"
  unfolding merge_dict_def
proof (induction b arbitrary: a)
  case (Cons p b)
  obtain j v where p: "p = (j, v)" by (cases p)
  have "dget b j = None" using Cons.prems by (simp add: p dget_None_iff)
  then show ?case using Cons by (auto simp: p split: option.split)
qed simp

lemma register_process_spec:
  assumes "command_of args = Some command"
  shows "\<exists>session. si_current fresh (pl_identity (register_process_target fresh now pl args)) =
      (pl_identity (register_process_target fresh now pl args), session) \<and>
    0 < rg_active_count (pl_targets (register_process_target fresh now pl args)) (Some session) \<and>
    (rg_inv (pl_targets pl) \<longrightarrow> rg_inv (pl_targets (register_process_target fresh now pl args)) \<and>
       rg_bag (pl_targets (register_process_target fresh now pl args)) =
         add_mset (process_target_id command) (rg_bag (pl_targets pl)))"
proof -
  obtain si session where c: "si_current fresh (pl_identity pl) = (si, session)"
    by (cases "si_current fresh (pl_identity pl)")
  define t where "t = \<lparr>bt_id = process_target_id command, bt_kind = Process, bt_session_id = session,
    bt_started_at = now, bt_expected_completion = True\<rparr>"
  have e: "register_process_target fresh now pl args =
      pl\<lparr>pl_identity := si, pl_targets := fst (rg_register (pl_targets pl) t)\<rparr>"
    by (simp add: register_process_target_def assms c t_def)
  have n: "bt_id t \<noteq> []" by (simp add: t_def process_target_id_def)
  have i: "si_current fresh si = (si, session)"
    using c by (auto simp: si_current_def process_session_id_def split: option.splits)
  have "(process_target_id command, t) \<in> set (rg_targets (fst (rg_register (pl_targets pl) t)))"
    using n dget_SomeD [of "dset (rg_targets (pl_targets pl)) (bt_id t) t" "bt_id t" t]
    by (simp add: rg_register_def Let_def t_def)
  then have "t \<in> set (filter (\<lambda>u. bt_session_id u = session)
      (map snd (rg_targets (fst (rg_register (pl_targets pl) t)))))"
    by (force simp: t_def)
  then have "0 < rg_active_count (fst (rg_register (pl_targets pl) t)) (Some session)"
    unfolding rg_active_count_def option.case by (rule length_pos_if_in_set)
  then show ?thesis
    using i n bag.add_bag [of "pl_targets pl" t] rg_register_inv [of "pl_targets pl" t]
    by (auto simp: e t_def)
qed

lemma classify_long_command:
  assumes "task_classify fmt_g settings ''terminal'' args h = Inr (LONG_RUNNING, why)"
  shows "\<exists>c. command_of args = Some c"
proof (rule ccontr)
  assume "\<not> ?thesis"
  then have n: "command_of args = None" by simp
  have "\<exists>w. task_classify fmt_g settings ''terminal'' args h = Inr (FOREGROUND, w)"
  proof (cases args)
    case (JObj kvs)
    with n show ?thesis
      by (cases "json_field ''command'' kvs")
        (simp_all add: task_classify_def command_of_def del: json_field.simps split: if_splits)
  qed (simp_all add: task_classify_def)
  then show False using assms by auto
qed

lemma tool_request_SomeD:
  assumes "tool_request fmt_g settings db_ok fresh now pl tool_name args = (pl', Some args')"
  obtains kvs command pl1 where "args = JObj kvs" "command_of args = Some command" "tool_name = ''terminal''"
    "lt_enabled settings" "pl' = register_process_target fresh now pl1 args"
    "pl_targets pl1 = pl_targets pl" "pl_identity pl1 = pl_identity pl"
    "args' = JObj (if lt_notify_on_complete settings
       then dset (dset kvs ''background'' (JBool True)) ''notify_on_complete'' (JBool True)
       else dset kvs ''background'' (JBool True))"
proof -
  obtain kvs pl1 stats why where e: "args = JObj kvs" "tool_name = ''terminal''" "lt_enabled settings"
    "learned_stats settings db_ok pl kvs = (pl1, stats)"
    "task_classify fmt_g settings ''terminal'' args stats = Inr (LONG_RUNNING, why)"
    "pl' = register_process_target fresh now pl1 args"
    "args' = JObj (if lt_notify_on_complete settings
       then dset (dset kvs ''background'' (JBool True)) ''notify_on_complete'' (JBool True)
       else dset kvs ''background'' (JBool True))"
    using assms by (auto simp: tool_request_def Let_def split: if_splits json.splits prod.splits sum.splits task_decision.splits)
  have "pl_targets pl1 = pl_targets pl" "pl_identity pl1 = pl_identity pl"
    using e(4) by (auto simp: learned_stats_def Let_def split: option.splits json.splits if_splits prod.splits)
  then show thesis using that e classify_long_command [OF e(5)] by blast
qed

lemma header_of_request:
  assumes "attach_correlation_headers uuid5 (JObj kvs) session rid extra = Some r"
    and "json_field ''headers'' kvs = JObj hs" and "distinct (map fst hs)" and "distinct (map fst extra)"
  shows "\<exists>hs'. r = JObj (dset kvs ''headers'' (JObj hs')) \<and>
    (\<forall>k. dget hs' k = (case dget hs k of Some v \<Rightarrow> Some v | None \<Rightarrow>
       (case dget extra k of Some v \<Rightarrow> Some v | None \<Rightarrow> dget (make_correlation_headers uuid5 session rid) k)))"
  using assms by (auto simp: attach_correlation_headers_def dget_merge split: option.split)

text \<open>The middleware never rewrites a call. A promoted terminal call keeps every argument except that
  it runs in the background (and is notified); a request gets correlation headers only where the
  caller set none of that name and keeps every other field; without a headers mapping it is left alone.\<close>

theorem middleware_keeps_payload:
  assumes "tool_request fmt_g settings db_ok fresh now pl tool_name (JObj kvs) = (pl', Some (JObj kvs'))"
    and "snd (llm_request uuid5 True fresh rid pl'' (JObj rq)) = r"
    and "json_field ''headers'' rq = JObj hs" and "distinct (map fst hs)"
  shows "tool_name = ''terminal'' \<and>
    dget kvs' ''background'' = Some (JBool True) \<and>
    (\<forall>k. k \<in> {''background'', ''notify_on_complete''} \<or> dget kvs' k = dget kvs k) \<and>
    (\<exists>rq' hs'. r = Some (JObj rq') \<and> dget rq' ''headers'' = Some (JObj hs') \<and>
       (\<forall>k. k = ''headers'' \<or> dget rq' k = dget rq k) \<and>
       (\<forall>k. dget hs k = None \<or> dget hs' k = dget hs k) \<and>
       (\<forall>k. k \<in> {''X-CachePilot-Session'', ''X-CachePilot-Request'', ''X-CachePilot-Turn'', ''X-CachePilot-Targets''} \<or>
          dget hs' k = dget hs k))"
proof -
  have t: "tool_name = ''terminal'' \<and> dget kvs' ''background'' = Some (JBool True) \<and>
    (\<forall>k. k \<in> {''background'', ''notify_on_complete''} \<or> dget kvs' k = dget kvs k)"
    using assms(1) by (rule tool_request_SomeD) (auto split: if_splits)
  obtain si session where c: "si_current fresh (pl_identity pl'') = (si, session)"
    by (cases "si_current fresh (pl_identity pl'')")
  define extra where "extra = [(''X-CachePilot-Targets'',
    JStr (nat_str (rg_active_count (pl_targets pl'') (Some session))))]"
  have r: "r = attach_correlation_headers uuid5 (JObj rq) session rid extra"
    using assms(2) by (simp add: llm_request_def c extra_def)
  then obtain r' where r': "r = Some r'" using assms(3) by (simp add: attach_correlation_headers_def)
  obtain hs' where h: "r' = JObj (dset rq ''headers'' (JObj hs'))"
    "\<forall>k. dget hs' k = (case dget hs k of Some v \<Rightarrow> Some v | None \<Rightarrow>
       (case dget extra k of Some v \<Rightarrow> Some v | None \<Rightarrow> dget (make_correlation_headers uuid5 session rid) k))"
    using header_of_request [of uuid5 rq session rid extra r' hs] r r' assms(3,4) by (auto simp: extra_def)
  have "\<forall>k. dget hs k = None \<or> dget hs' k = dget hs k" using h(2) by (auto split: option.split)
  moreover have "\<forall>k. k \<in> {''X-CachePilot-Session'', ''X-CachePilot-Request'', ''X-CachePilot-Turn'',
      ''X-CachePilot-Targets''} \<or> dget hs' k = dget hs k"
    using h(2) by (auto simp: extra_def make_correlation_headers_def split: option.split)
  ultimately show ?thesis using t r' h(1) by simp
qed

definition sample_plugin :: plugin where
  "sample_plugin = on_session_start (plugin_init default_long_tasks [] False) ''s1''"

definition sample_call :: json where
  "sample_call = JObj [(''command'', JStr ''make''), (''background'', JBool True)]"

lemma sample_command: "py_strip ''make'' = ''make''" "normalize_signature ''make'' = ''make''"
  by code_simp+

lemma sample_call_command: "command_of sample_call = Some ''make''"
  by (simp add: command_of_def sample_call_def sample_command)

lemma sample_promotion:
  "tool_request (\<lambda>_. []) default_long_tasks True ''u'' 0 sample_plugin ''terminal'' sample_call =
     (register_process_target ''u'' 0 sample_plugin sample_call,
      Some (JObj [(''command'', JStr ''make''), (''background'', JBool True), (''notify_on_complete'', JBool True)]))"
  by (simp add: tool_request_def default_long_tasks_def learned_stats_def sample_plugin_def plugin_init_def
      on_session_start_def publish_def dh_open_def dh_stats_def sample_command task_classify_def sample_call_def Let_def)

lemma sample_registered:
  "register_process_target ''u'' 0 sample_plugin sample_call =
     \<lparr>pl_identity = \<lparr>si_session_id = Some ''s1'', si_process_session_id = None\<rparr>,
      pl_targets = \<lparr>rg_targets = [(''process:make'', (target_for ''process:make'' ''s1''))],
        rg_refcounts = [(''process:make'', 1)]\<rparr>,
      pl_history = Some (dh_open [] False)\<rparr>"
  by (simp add: register_process_target_def sample_call_command sample_plugin_def on_session_start_def
      publish_def plugin_init_def si_publish_def si_init_def si_current_def rg_register_def rg_init_def
      rg_refcount_def process_target_id_def sample_command target_for_def default_long_tasks_def Let_def)

lemma sample_session: "pl_identity (register_process_target ''u'' 0 sample_plugin sample_call) =
    \<lparr>si_session_id = Some ''s1'', si_process_session_id = None\<rparr>"
  "rg_active_count (pl_targets (register_process_target ''u'' 0 sample_plugin sample_call)) (Some ''s1'') = 1"
  by (simp_all add: sample_registered rg_active_count_def target_for_def)

lemma sample_request_attached:
  "\<exists>rq'. llm_request (\<lambda>_. ''t'') True ''u'' ''r1'' (register_process_target ''u'' 0 sample_plugin sample_call)
     (JObj [(''headers'', JObj [])]) = (register_process_target ''u'' 0 sample_plugin sample_call, Some (JObj rq'))"
  by (simp add: llm_request_def sample_session si_current_def attach_correlation_headers_def)

theorem middleware_keeps_payload_witness:
  "\<exists>kvs'. snd (tool_request (\<lambda>_. []) default_long_tasks True ''u'' 0 sample_plugin ''terminal'' sample_call) =
     Some (JObj kvs') \<and> dget kvs' ''command'' = Some (JStr ''make'')"
  using middleware_keeps_payload [OF sample_promotion [unfolded sample_call_def] refl, of "[(''headers'', JObj [])]" "[]"]
  by (simp add: sample_promotion)

text \<open>A promotion arms the lease. After a terminal command has been promoted, the next request carries
  the session under which its target is registered and a positive target count, and the relay reads
  from that header exactly the count the registry has for that session.\<close>

theorem promotion_reaches_relay:
  assumes "tool_request fmt_g settings db_ok fresh now pl tool_name args = (pl', Some args')"
    and "llm_request uuid5 True fresh rid pl' (JObj rq) = (pl'', Some (JObj rq'))"
    and "json_field ''headers'' rq = JObj hs" and "distinct (map fst hs)"
    and "dget hs ''X-CachePilot-Targets'' = None" and "dget hs ''X-CachePilot-Session'' = None"
    and "rg_active_count (pl_targets pl') (Some session) < 10 ^ 4300"
    and "snd (si_current fresh (pl_identity pl')) = session"
  shows "\<exists>hs' announced. dget rq' ''headers'' = Some (JObj hs') \<and>
    dget hs' ''X-CachePilot-Session'' = Some (JStr session) \<and>
    dget hs' ''X-CachePilot-Targets'' = Some (JStr announced) \<and>
    parse_targets_count (Some announced) = int (rg_active_count (pl_targets pl') (Some session)) \<and>
    0 < parse_targets_count (Some announced)"
proof -
  obtain pl1 command where p: "pl' = register_process_target fresh now pl1 args" "command_of args = Some command"
    using assms(1) by (rule tool_request_SomeD)
  obtain s' where s': "si_current fresh (pl_identity pl') = (pl_identity pl', s')"
    "0 < rg_active_count (pl_targets pl') (Some s')"
    using register_process_spec [OF p(2), of fresh now pl1] unfolding p(1) by blast
  then have c: "si_current fresh (pl_identity pl') = (pl_identity pl', session)"
    and pos: "0 < rg_active_count (pl_targets pl') (Some session)" using assms(8) by auto
  define announced where "announced = nat_str (rg_active_count (pl_targets pl') (Some session))"
  define extra where "extra = [(''X-CachePilot-Targets'', JStr announced)]"
  have "attach_correlation_headers uuid5 (JObj rq) session rid extra = Some (JObj rq')"
    using assms(2) by (auto simp: llm_request_def c extra_def announced_def)
  then obtain hs' where h: "JObj rq' = JObj (dset rq ''headers'' (JObj hs'))"
    "\<forall>k. dget hs' k = (case dget hs k of Some v \<Rightarrow> Some v | None \<Rightarrow>
       (case dget extra k of Some v \<Rightarrow> Some v | None \<Rightarrow> dget (make_correlation_headers uuid5 session rid) k))"
    using header_of_request [of uuid5 rq session rid extra "JObj rq'" hs] assms(3,4) by (auto simp: extra_def)
  have n: "parse_targets_count (Some announced) = int (rg_active_count (pl_targets pl') (Some session))"
    unfolding announced_def by (rule targets_count_nat_str, rule length_nat_str [OF assms(7)]) simp
  show ?thesis
    using h n pos assms(5,6)
    by (intro exI [of _ hs'] exI [of _ announced]) (simp add: extra_def make_correlation_headers_def)
qed

theorem promotion_reaches_relay_witness:
  "\<exists>announced. 0 < parse_targets_count (Some announced) \<and> parse_targets_count (Some announced) = 1"
proof -
  obtain rq' where r: "llm_request (\<lambda>_. ''t'') True ''u'' ''r1'' (register_process_target ''u'' 0 sample_plugin sample_call)
     (JObj [(''headers'', JObj [])]) = (register_process_target ''u'' 0 sample_plugin sample_call, Some (JObj rq'))"
    using sample_request_attached by blast
  have c: "snd (si_current ''u'' (pl_identity (register_process_target ''u'' 0 sample_plugin sample_call))) = ''s1''"
    by (simp add: sample_session si_current_def)
  have n: "rg_active_count (pl_targets (register_process_target ''u'' 0 sample_plugin sample_call)) (Some ''s1'') < 10 ^ 4300"
    unfolding sample_session by (rule one_less_power) simp_all
  show ?thesis
    using promotion_reaches_relay [OF sample_promotion r _ _ _ _ n c, of "[]"] unfolding sample_session by auto
qed

text \<open>A promotion is balanced by its completion. Over a consistent registry, promoting a command and then
  completing it, with any other work of other targets in between, leaves the bag of active targets
  with exactly what that other work made of it.\<close>

theorem promotion_completion_balanced:
  assumes "rg_inv (pl_targets pl)"
    and "tool_request fmt_g settings db_ok fresh now pl ''terminal'' args = (pl1, Some args')"
    and "pl_targets pl2 = foldl rg_step (pl_targets pl1) ops"
    and "\<forall>op \<in> set ops. case op of Register t \<Rightarrow> bt_id t \<noteq> process_target_id (the (command_of args))
        | Release j \<Rightarrow> j \<noteq> process_target_id (the (command_of args)) | Reset \<Rightarrow> False"
  shows "rg_bag (pl_targets (post_tool_call settings db_ok' now' pl2 ''terminal'' args result session ms)) =
    foldl ids_step (rg_bag (pl_targets pl)) ops"
proof -
  obtain plh command where p: "pl1 = register_process_target fresh now plh args" "command_of args = Some command"
    "lt_enabled settings" "pl_targets plh = pl_targets pl"
    using assms(2) by (rule tool_request_SomeD)
  have r: "rg_inv (pl_targets pl1)" "rg_bag (pl_targets pl1) = add_mset (process_target_id command) (rg_bag (pl_targets pl))"
    using register_process_spec [OF p(2), of fresh now plh] assms(1) p(1,4) by auto
  define k where "k = process_target_id command"
  have k: "k \<noteq> []" by (simp add: k_def process_target_id_def)
  have ops: "\<forall>op \<in> set ops. case op of Register t \<Rightarrow> bt_id t \<noteq> k | Release j \<Rightarrow> j \<noteq> k | Reset \<Rightarrow> False"
    using assms(4) unfolding p(2) k_def option.sel .
  have after: "rg_inv (pl_targets pl2)" "rg_bag (pl_targets pl2) = add_mset k (foldl ids_step (rg_bag (pl_targets pl)) ops)"
    using bag.run_refines [OF r(1), of ops] bag.other_ops_commute [OF k ops, of "rg_bag (pl_targets pl)"] r(2)
    by (simp_all add: assms(3) steps_of_bag k_def [symmetric])
  have "pl_targets (post_tool_call settings db_ok' now' pl2 ''terminal'' args result session ms) =
      fst (rg_release (pl_targets pl2) (process_target_id command))"
    by (simp add: post_tool_call_def p(2,3) Let_def publish_def release_target_def
        split: option.split json.split sum.split)
  then show ?thesis using bag.rem_bag [OF after(1)] after(2) by (simp add: k_def)
qed

theorem promotion_completion_balanced_witness:
  "rg_bag (pl_targets (post_tool_call default_long_tasks True 1
     (register_process_target ''u'' 0 sample_plugin sample_call) ''terminal'' sample_call JNull ''s1'' None)) = {#}"
proof -
  have i: "rg_inv (pl_targets sample_plugin)" "rg_bag (pl_targets sample_plugin) = {#}"
    by (simp_all add: sample_plugin_def on_session_start_def publish_def plugin_init_def)
  show ?thesis
    using promotion_completion_balanced [OF i(1) sample_promotion, of _ "[]"] i(2) by simp
qed

section \<open>What the hooks do not do\<close>

text \<open>
  A run that was never promoted releases the target of one that was: the id of a process target is the
  command's signature, so completing the same command in the foreground disarms the lease while the
  background run goes on.
\<close>

lemma foreground_run_releases_background_target:
  "rg_active_count (pl_targets (post_tool_call default_long_tasks True 1
     (register_process_target ''u'' 0 sample_plugin sample_call) ''terminal''
     (JObj [(''command'', JStr ''make''), (''background'', JBool False)]) JNull ''s1'' None)) (Some ''s1'') = 0"
  by (simp add: sample_registered post_tool_call_def command_of_def sample_command default_long_tasks_def
      publish_def release_target_def rg_release_def rg_refcount_def process_target_id_def rg_active_count_def)

text \<open>
  A subagent registered under its subagent id, when the start event carries no session id for it, is
  never released: the stop hook only knows the session id.
\<close>

lemma subagent_without_session_never_released:
  assumes "lt_enabled settings" and "aid \<noteq> []"
  shows "rg_refcount (pl_targets (subagent_stop settings (subagent_start settings now pl parent [] aid) [])) aid =
    rg_refcount (pl_targets pl) aid + 1"
  using assms by (simp add: subagent_stop_def subagent_start_def publish_def rg_register_refcount)

text \<open>
  A tool call of a child session publishes the child's id, and the requests of the parent that follow
  carry it: the targets of the parent are no longer counted.
\<close>

lemma child_call_takes_identity:
  "rg_active_count (pl_targets (post_tool_call default_long_tasks True 1
      (subagent_start default_long_tasks 0 (plugin_init default_long_tasks [] False) ''parent'' ''child'' [])
      ''read_file'' JNull JNull ''child'' None))
     (Some (snd (si_current ''u'' (pl_identity (post_tool_call default_long_tasks True 1
      (subagent_start default_long_tasks 0 (plugin_init default_long_tasks [] False) ''parent'' ''child'' [])
      ''read_file'' JNull JNull ''child'' None))))) = 0"
  by (simp add: post_tool_call_def publish_def subagent_start_def default_long_tasks_def plugin_init_def
      si_publish_def si_init_def si_current_def rg_register_def rg_init_def rg_refcount_def rg_active_count_def Let_def)

end
