(* ===== verification/Survival.thy ===== *)
theory Survival
  imports Storage "HOL-Library.Product_Lexorder"
begin

text \<open>
  The survival estimator (\<open>survival.py\<close>): a Kaplan-Meier curve over the clean TTL
  observations of one route profile. The loop of \<open>estimate_survival\<close> is \<open>km_loop\<close>, which takes one
  age group off the sorted observations per call. The reference is the product-limit formula over
  the multiset of observations, with the number at risk counted from it, and, without censoring,
  the fraction of observations that are older.
\<close>

section \<open>Order of the observations\<close>

text \<open>\<open>sorted\<close> compares ages first and then the outcomes, which are strings.\<close>

fun outcome_rank :: "outcome \<Rightarrow> nat" where
  "outcome_rank CONFIRMED_HIT = 0"
| "outcome_rank FAILED = 1"
| "outcome_rank MISS_REBUILT = 2"
| "outcome_rank SUCCESS_UNVERIFIED = 3"

lemma outcome_rank_inject [simp]: "outcome_rank a = outcome_rank b \<longleftrightarrow> a = b"
  by (cases a; cases b) auto

instantiation outcome :: linorder
begin

definition less_eq_outcome :: "outcome \<Rightarrow> outcome \<Rightarrow> bool" where
  "a \<le> b \<longleftrightarrow> outcome_rank a \<le> outcome_rank b"

definition less_outcome :: "outcome \<Rightarrow> outcome \<Rightarrow> bool" where
  "a < b \<longleftrightarrow> outcome_rank a < outcome_rank b"

instance
  by standard (auto simp: less_eq_outcome_def less_outcome_def)

end

section \<open>The estimator\<close>

record survival_observation =
  so_idle_age_s :: "flt option"
  so_outcome :: outcome

record survival_step =
  st_age_s :: flt
  st_survival :: flt
  st_at_risk :: int
  st_events :: int

record survival_curve =
  sc_profile_key :: "string option"
  sc_steps :: "survival_step list"
  sc_sample_count :: int
  sc_horizon_s :: "flt option"

definition SURVIVAL_OUTCOMES :: "outcome list" where
  "SURVIVAL_OUTCOMES = [CONFIRMED_HIT, MISS_REBUILT]"

definition survival_pairs :: "survival_observation list \<Rightarrow> (flt \<times> outcome) list" where
  "survival_pairs obs =
     sort (map (\<lambda>ob. (the (so_idle_age_s ob), so_outcome ob))
       (filter (\<lambda>ob. (case so_idle_age_s ob of None \<Rightarrow> False | Some a \<Rightarrow> 0 \<le> a) \<and>
                    so_outcome ob \<in> set SURVIVAL_OUTCOMES) obs))"

definition deaths_in :: "(flt \<times> outcome) list \<Rightarrow> int" where
  "deaths_in ps = int (length (filter (\<lambda>p. snd p = MISS_REBUILT) ps))"

text \<open>
  One round of the outer loop per equation: the inner loop reads the group of the first age off
  the list, counting deaths and the rest.
\<close>

function km_loop :: "int \<Rightarrow> flt \<Rightarrow> (flt \<times> outcome) list \<Rightarrow> survival_step list" where
  "km_loop at_risk survival [] = []"
| "km_loop at_risk survival ((age, oc) # ps) =
     (let grp = (age, oc) # takeWhile (\<lambda>p. fst p = age) ps;
          rest = dropWhile (\<lambda>p. fst p = age) ps;
          deaths = deaths_in grp;
          censored = int (length grp) - deaths
      in if deaths \<noteq> 0
         then (let s = survival * (1 - of_int deaths / of_int at_risk)
               in \<lparr>st_age_s = age, st_survival = round_to 6 s, st_at_risk = at_risk, st_events = deaths\<rparr>
                  # km_loop (at_risk - (deaths + censored)) s rest)
         else km_loop (at_risk - (deaths + censored)) survival rest)"
  by pat_completeness auto
termination
  by (relation "measure (\<lambda>(n, s, ps). length ps)") (auto simp: le_imp_less_Suc length_dropWhile_le)

definition empty_curve :: "string option \<Rightarrow> survival_curve" where
  "empty_curve key = \<lparr>sc_profile_key = key, sc_steps = [], sc_sample_count = 0, sc_horizon_s = None\<rparr>"

definition estimate_survival :: "survival_observation list \<Rightarrow> string option \<Rightarrow> survival_curve" where
  "estimate_survival obs key =
     (let pairs = survival_pairs obs in
      if pairs = [] then empty_curve key
      else \<lparr>sc_profile_key = key, sc_steps = km_loop (int (length pairs)) 1 pairs,
            sc_sample_count = int (length pairs), sc_horizon_s = Some (fst (last pairs))\<rparr>)"

definition curve_empty :: "survival_curve \<Rightarrow> bool" where
  "curve_empty c \<longleftrightarrow> sc_sample_count c = 0"

fun last_step_at :: "flt \<Rightarrow> flt \<Rightarrow> survival_step list \<Rightarrow> flt" where
  \<comment> \<open>The loop of \<open>survival_at\<close>, with the estimate so far.\<close>
  "last_step_at t s [] = s"
| "last_step_at t s (st # sts) =
     (if t < st_age_s st then s else last_step_at t (st_survival st) sts)"

definition survival_at :: "survival_curve \<Rightarrow> flt \<Rightarrow> flt option" where
  "survival_at c t =
     (if curve_empty c then None
      else case sc_horizon_s c of
        None \<Rightarrow> None
      | Some h \<Rightarrow>
          if h < t then None
          else (case sc_steps c of
                  [] \<Rightarrow> Some 1
                | st # sts \<Rightarrow> if t < st_age_s st then Some 1
                             else Some (last_step_at t (st_survival st) (st # sts))))"

fun first_half :: "survival_step list \<Rightarrow> flt option" where
  "first_half [] = None"
| "first_half (st # sts) = (if st_survival st \<le> 1 / 2 then Some (st_age_s st) else first_half sts)"

definition median_survival_s :: "survival_curve \<Rightarrow> flt option" where
  "median_survival_s c = first_half (sc_steps c)"

definition curve_from_observations :: "string option \<Rightarrow> stored_ttl_observation list \<Rightarrow> survival_curve" where
  "curve_from_observations key obs =
     estimate_survival
       (map (\<lambda>ob. \<lparr>so_idle_age_s = s_idle_age_s ob, so_outcome = s_outcome ob\<rparr>)
         (filter (\<lambda>ob. s_clean ob \<and> s_idle_age_s ob \<noteq> None) obs)) key"

definition curve_from_profile :: "db \<Rightarrow> ttl_profile \<Rightarrow> survival_curve" where
  "curve_from_profile d p =
     curve_from_observations (Some (profile_key p))
       (clean_observations_for_profile d (tp_provider p) (tp_model p) (tp_api_mode p)
         (tp_endpoint_hash p) (tp_route_hash p))"

section \<open>The product-limit reference\<close>

definition evidence :: "survival_observation list \<Rightarrow> (flt \<times> outcome) list" where
  "evidence obs = map (\<lambda>ob. (the (so_idle_age_s ob), so_outcome ob))
     (filter (\<lambda>ob. (case so_idle_age_s ob of None \<Rightarrow> False | Some a \<Rightarrow> 0 \<le> a) \<and>
                   so_outcome ob \<in> set SURVIVAL_OUTCOMES) obs)"

definition at_risk_at :: "(flt \<times> outcome) list \<Rightarrow> flt \<Rightarrow> nat" where
  "at_risk_at ps a = length (filter (\<lambda>p. a \<le> fst p) ps)"

definition deaths_at :: "(flt \<times> outcome) list \<Rightarrow> flt \<Rightarrow> nat" where
  "deaths_at ps a = length (filter (\<lambda>p. fst p = a \<and> snd p = MISS_REBUILT) ps)"

definition death_ages :: "(flt \<times> outcome) list \<Rightarrow> flt set" where
  "death_ages ps = fst ` {p \<in> set ps. snd p = MISS_REBUILT}"

definition hazard_factor :: "(flt \<times> outcome) list \<Rightarrow> flt \<Rightarrow> flt" where
  "hazard_factor ps a = 1 - of_nat (deaths_at ps a) / of_nat (at_risk_at ps a)"

definition product_limit :: "(flt \<times> outcome) list \<Rightarrow> flt \<Rightarrow> flt" where
  "product_limit ps t = (\<Prod>a \<in> {a \<in> death_ages ps. a \<le> t}. hazard_factor ps a)"

lemma finite_death_ages [simp]: "finite (death_ages ps)"
  by (simp add: death_ages_def)

lemma survival_pairs_evidence: "survival_pairs obs = sort (evidence obs)"
  by (simp add: survival_pairs_def evidence_def)

lemma reference_sort [simp]:
  "death_ages (sort ps) = death_ages ps" "hazard_factor (sort ps) a = hazard_factor ps a"
  "product_limit (sort ps) t = product_limit ps t"
  by (simp_all add: death_ages_def hazard_factor_def deaths_at_def at_risk_at_def product_limit_def filter_sort)

lemma hazard_factor_range: "0 \<le> hazard_factor ps a \<and> hazard_factor ps a \<le> 1"
proof -
  have "deaths_at ps a \<le> at_risk_at ps a"
    unfolding deaths_at_def at_risk_at_def by (induction ps) auto
  then have "of_nat (deaths_at ps a) \<le> (of_nat (at_risk_at ps a) :: flt)" by simp
  then show ?thesis by (cases "at_risk_at ps a = 0") (simp_all add: hazard_factor_def)
qed

lemma product_limit_range: "0 \<le> product_limit ps t \<and> product_limit ps t \<le> 1"
  using hazard_factor_range by (auto simp: product_limit_def intro!: prod_nonneg prod_le_1)

lemma product_limit_antimono: assumes "t \<le> u" shows "product_limit ps u \<le> product_limit ps t"
proof -
  let ?T = "{a \<in> death_ages ps. a \<le> t}" and ?U = "{a \<in> death_ages ps. a \<le> u}"
  have sub: "?T \<subseteq> ?U" using assms by auto
  have "product_limit ps u = product_limit ps t * (\<Prod>a \<in> ?U - ?T. hazard_factor ps a)"
    unfolding product_limit_def by (subst prod.subset_diff [OF sub]) (simp_all add: mult.commute)
  moreover have "(\<Prod>a \<in> ?U - ?T. hazard_factor ps a) \<le> 1"
    using hazard_factor_range by (intro prod_le_1) auto
  ultimately show ?thesis using product_limit_range [of ps t] by (simp add: mult_left_le)
qed

section \<open>One age group of a sorted list\<close>

lemma sort_nonempty: "xs \<noteq> [] \<Longrightarrow> sort xs \<noteq> []"
  by (metis length_sort length_0_conv)

lemma sorted_ages: "sorted ps \<Longrightarrow> sorted (map fst (ps :: (flt \<times> outcome) list))"
  by (induction ps) (auto simp: less_eq_prod_def)

text \<open>The first age group and what follows it, by strict order of age.\<close>

lemma group_split:
  assumes "sorted (map fst ((age, oc) # ps))"
  defines "grp \<equiv> (age, oc) # takeWhile (\<lambda>p. fst p = age) ps" and "rest \<equiv> dropWhile (\<lambda>p. fst p = age) ps"
  shows "(age, oc) # ps = grp @ rest" and "\<forall>p \<in> set grp. fst p = age" and "\<forall>p \<in> set rest. age < fst p"
    and "sorted (map fst rest)"
proof -
  show "(age, oc) # ps = grp @ rest" by (simp add: grp_def rest_def)
  show "\<forall>p \<in> set grp. fst p = age" by (auto simp: grp_def dest: set_takeWhileD)
  have s: "sorted (map fst ps)" "\<forall>p \<in> set ps. age \<le> fst p" using assms(1) by auto
  then show "sorted (map fst rest)" unfolding rest_def by (induction ps) auto
  show "\<forall>p \<in> set rest. age < fst p" using s unfolding rest_def
  proof (induction ps)
    case (Cons p ps)
    then show ?case by (cases "fst p = age") (auto simp: order.strict_iff_order)
  qed simp
qed

lemma group_counts:
  assumes "\<forall>p \<in> set grp. fst p = age" and "\<forall>p \<in> set rest. age < fst p"
  shows "deaths_at (grp @ rest) age = length (filter (\<lambda>p. snd p = MISS_REBUILT) grp)"
    and "at_risk_at (grp @ rest) age = length (grp @ rest)"
    and "age < a \<Longrightarrow> hazard_factor (grp @ rest) a = hazard_factor rest a"
    and "age < a \<Longrightarrow> at_risk_at (grp @ rest) a = at_risk_at rest a"
    and "age < a \<Longrightarrow> deaths_at (grp @ rest) a = deaths_at rest a"
proof -
  have g: "filter (\<lambda>p. fst p = age \<and> snd p = MISS_REBUILT) grp = filter (\<lambda>p. snd p = MISS_REBUILT) grp"
    using assms(1) by (intro filter_cong) auto
  have r: "filter (\<lambda>p. fst p = age \<and> snd p = MISS_REBUILT) rest = []"
    using assms(2) by (auto simp: filter_empty_conv)
  show "deaths_at (grp @ rest) age = length (filter (\<lambda>p. snd p = MISS_REBUILT) grp)"
    by (simp add: deaths_at_def g r)
  have "filter (\<lambda>p. age \<le> fst p) (grp @ rest) = grp @ rest"
    using assms by (intro filter_True) auto
  then show "at_risk_at (grp @ rest) age = length (grp @ rest)" by (simp add: at_risk_at_def)
  assume a: "age < a"
  have "filter (\<lambda>p. fst p = a \<and> snd p = MISS_REBUILT) grp = []" "filter (\<lambda>p. a \<le> fst p) grp = []"
    using assms(1) a by (auto simp: filter_empty_conv)
  then show "at_risk_at (grp @ rest) a = at_risk_at rest a" "deaths_at (grp @ rest) a = deaths_at rest a"
    by (simp_all add: at_risk_at_def deaths_at_def)
  then show "hazard_factor (grp @ rest) a = hazard_factor rest a" by (simp add: hazard_factor_def)
qed

lemma group_death_ages:
  assumes "\<forall>p \<in> set grp. fst p = age"
  shows "death_ages (grp @ rest) =
    (if filter (\<lambda>p. snd p = MISS_REBUILT) grp = [] then {} else {age}) \<union> death_ages rest"
proof -
  have "fst ` {p \<in> set grp. snd p = MISS_REBUILT} = (if filter (\<lambda>p. snd p = MISS_REBUILT) grp = [] then {} else {age})"
    using assms by (force simp: filter_empty_conv image_iff)
  moreover have "{p \<in> set (grp @ rest). snd p = MISS_REBUILT} =
      {p \<in> set grp. snd p = MISS_REBUILT} \<union> {p \<in> set rest. snd p = MISS_REBUILT}" by auto
  ultimately show ?thesis by (simp only: death_ages_def image_Un)
qed

lemma group_product_limit:
  assumes "\<forall>p \<in> set grp. fst p = age" and "\<forall>p \<in> set rest. age < fst p" and "grp \<noteq> []"
  shows "age \<le> t \<Longrightarrow> product_limit (grp @ rest) t = hazard_factor (grp @ rest) age * product_limit rest t"
    and "t < age \<Longrightarrow> product_limit (grp @ rest) t = 1"
proof -
  let ?D = "filter (\<lambda>p. snd p = MISS_REBUILT) grp"
  have gt: "\<forall>a \<in> death_ages rest. age < a" using assms(2) by (auto simp: death_ages_def)
  have c: "(\<Prod>a \<in> {a \<in> death_ages rest. a \<le> t}. hazard_factor (grp @ rest) a) = product_limit rest t" for t
    unfolding product_limit_def using gt group_counts(3) [OF assms(1,2)] by (intro prod.cong) auto
  show "product_limit (grp @ rest) t = hazard_factor (grp @ rest) age * product_limit rest t" if t: "age \<le> t"
  proof (cases "?D = []")
    case True
    then have "hazard_factor (grp @ rest) age = 1"
      using group_counts(1) [OF assms(1,2)] by (simp add: hazard_factor_def)
    then show ?thesis using True c [of t]
      by (simp add: product_limit_def [of "grp @ rest"] group_death_ages [OF assms(1)])
  next
    case False
    have e: "{a \<in> death_ages (grp @ rest). a \<le> t} = insert age {a \<in> death_ages rest. a \<le> t}"
      using False t by (auto simp: group_death_ages [OF assms(1)])
    have n: "age \<notin> {a \<in> death_ages rest. a \<le> t}" using gt by auto
    have fin: "finite {a \<in> death_ages rest. a \<le> t}" by simp
    show ?thesis
      unfolding product_limit_def [of "grp @ rest"] e prod.insert [OF fin n] by (simp only: c)
  qed
  show "product_limit (grp @ rest) t = 1" if t: "t < age"
  proof -
    have "{a \<in> death_ages (grp @ rest). a \<le> t} = {}"
      using t gt by (auto simp: group_death_ages [OF assms(1)] split: if_splits)
    then show ?thesis by (simp only: product_limit_def prod.empty)
  qed
qed

section \<open>The loop computes the product limit\<close>

definition km_step :: "flt \<Rightarrow> (flt \<times> outcome) list \<Rightarrow> flt \<Rightarrow> survival_step" where
  "km_step s ps a = \<lparr>st_age_s = a, st_survival = round_to 6 (s * product_limit ps a),
     st_at_risk = int (at_risk_at ps a), st_events = int (deaths_at ps a)\<rparr>"

lemma km_step_group:
  assumes "\<forall>p \<in> set grp. fst p = age" and "\<forall>p \<in> set rest. age < fst p" and "grp \<noteq> []"
    and "a \<in> death_ages rest"
  shows "km_step s (grp @ rest) a = km_step (s * hazard_factor (grp @ rest) age) rest a"
proof -
  have a: "age < a" using assms(2,4) by (auto simp: death_ages_def)
  then show ?thesis
    using group_counts(4,5) [OF assms(1,2) a] group_product_limit(1) [OF assms(1-3), of a]
    by (simp add: km_step_def mult.assoc)
qed

lemma km_loop_group:
  fixes age oc ps
  defines "grp \<equiv> (age, oc) # takeWhile (\<lambda>p. fst p = age) ps" and "rest \<equiv> dropWhile (\<lambda>p. fst p = age) ps"
  shows "km_loop k s ((age, oc) # ps) =
    (if deaths_in grp \<noteq> 0
     then \<lparr>st_age_s = age, st_survival = round_to 6 (s * (1 - of_int (deaths_in grp) / of_int k)),
           st_at_risk = k, st_events = deaths_in grp\<rparr>
          # km_loop (k - int (length grp)) (s * (1 - of_int (deaths_in grp) / of_int k)) rest
     else km_loop (k - int (length grp)) s rest)"
  by (simp add: grp_def rest_def Let_def)

lemma km_loop_steps:
  assumes "sorted (map fst ps)"
  shows "km_loop (int (length ps)) s ps = map (km_step s ps) (sorted_list_of_set (death_ages ps))"
  using assms
proof (induction "length ps" arbitrary: ps s rule: less_induct)
  case less
  show ?case
  proof (cases ps)
    case Nil
    then show ?thesis by (simp add: death_ages_def)
  next
    case (Cons p0 ps0)
    obtain age oc where p0: "p0 = (age, oc)" by (cases p0)
    define grp rest where "grp = (age, oc) # takeWhile (\<lambda>p. fst p = age) ps0"
      and "rest = dropWhile (\<lambda>p. fst p = age) ps0"
    have "sorted (map fst ((age, oc) # ps0))" using less.prems unfolding Cons p0 .
    note g = group_split [OF this, folded grp_def rest_def]
    have ps: "ps = grp @ rest" unfolding Cons p0 by (rule g(1))
    note grp = g(2) and rest = g(3) and sr = g(4)
    have ne: "grp \<noteq> []" by (simp add: grp_def)
    have lr: "length rest < length ps" using ne by (simp add: ps)
    note IH = less.hyps [OF lr sr]
    note cnt = group_counts [OF grp rest]
    let ?d = "filter (\<lambda>p. snd p = MISS_REBUILT) grp"
    have d: "deaths_in grp = int (length ?d)" by (simp add: deaths_in_def)
    have n: "int (length ps) - int (length grp) = int (length rest)" by (simp add: ps)
    have gt: "\<forall>a \<in> death_ages rest. age < a" using rest by (auto simp: death_ages_def)
    have ages: "sorted_list_of_set (death_ages ps) =
        (if ?d = [] then [] else [age]) @ sorted_list_of_set (death_ages rest)"
    proof (cases "?d = []")
      case False
      have "Min (insert age (death_ages rest)) = age" using gt by (intro Min_eqI) auto
      moreover have "insert age (death_ages rest) - {age} = death_ages rest" using gt by auto
      ultimately have "sorted_list_of_set (insert age (death_ages rest)) = age # sorted_list_of_set (death_ages rest)"
        using sorted_list_of_set_nonempty [of "insert age (death_ages rest)"] by simp
      then show ?thesis using False by (simp add: ps group_death_ages [OF grp])
    qed (simp add: ps group_death_ages [OF grp])
    have h: "hazard_factor ps age = 1 - of_int (deaths_in grp) / of_int (int (length ps))"
      using cnt(1,2) by (simp add: hazard_factor_def ps d)
    have steps: "map (km_step (s * hazard_factor ps age) rest) (sorted_list_of_set (death_ages rest)) =
        map (km_step s ps) (sorted_list_of_set (death_ages rest))"
      using km_step_group [OF grp rest ne] by (simp add: ps)
    note unf = km_loop_group [of "int (length ps)" s age oc ps0, folded grp_def rest_def, unfolded n, folded p0 Cons]
    show ?thesis
    proof (cases "?d = []")
      case True
      then have "hazard_factor ps age = 1" using h d by simp
      then show ?thesis using unf True IH [of s] d steps ages by simp
    next
      case False
      then have d0: "deaths_in grp \<noteq> 0" using d by simp
      have "product_limit rest age = 1"
        using gt by (auto simp: product_limit_def intro!: prod.neutral)
      then have st: "km_step s ps age = \<lparr>st_age_s = age, st_survival = round_to 6 (s * hazard_factor ps age),
          st_at_risk = int (length ps), st_events = deaths_in grp\<rparr>"
        using cnt(1,2) group_product_limit(1) [OF grp rest ne, of age] by (simp add: km_step_def ps d)
      show ?thesis
        unfolding unf ages using False d0 IH [of "s * hazard_factor ps age"] steps st by (simp add: h)
    qed
  qed
qed

section \<open>What the curve answers\<close>

definition horizon :: "(flt \<times> outcome) list \<Rightarrow> flt" where
  "horizon ps = Max (fst ` set ps)"

text \<open>The estimate at an age is the step of the last death age that is not above it.\<close>

lemma last_step_at_eq:
  assumes "sorted xs" and "xs \<noteq> []" and "hd xs \<le> t"
  shows "last_step_at t d (map (km_step s ps) xs) =
    st_survival (km_step s ps (last (filter (\<lambda>a. a \<le> t) xs)))"
  using assms
proof (induction xs arbitrary: d)
  case (Cons x xs)
  show ?case
  proof (cases "xs = [] \<or> t < hd xs")
    case True
    then have "filter (\<lambda>a. a \<le> t) xs = []"
      using Cons.prems by (cases xs) (auto simp: filter_empty_conv)
    then show ?thesis using True Cons.prems by (cases xs) (auto simp: km_step_def)
  next
    case False
    then have "filter (\<lambda>a. a \<le> t) xs \<noteq> []" by (cases xs) (auto simp: filter_empty_conv)
    then show ?thesis using False Cons.prems Cons.IH by (simp add: km_step_def)
  qed
qed simp

lemma sorted_le_last: "sorted xs \<Longrightarrow> a \<in> set xs \<Longrightarrow> a \<le> last (xs :: flt list)"
  by (induction xs rule: rev_induct) (auto simp: sorted_append)

lemma product_limit_last:
  assumes "xs = sorted_list_of_set (death_ages ps)" and "xs \<noteq> []" and "hd xs \<le> t"
  shows "product_limit ps (last (filter (\<lambda>a. a \<le> t) xs)) = product_limit ps t"
proof -
  let ?f = "filter (\<lambda>a. a \<le> t) xs"
  have s: "sorted ?f" "set xs = death_ages ps" using assms(1) by (simp_all add: sorted_filter [of id, simplified])
  have ne: "?f \<noteq> []" using assms(2,3) by (cases xs) auto
  then have l: "last ?f \<in> set ?f" by (rule last_in_set)
  have "\<forall>a \<in> set ?f. a \<le> last ?f"
    using sorted_le_last [OF s(1)] by blast
  then have "{a \<in> death_ages ps. a \<le> last ?f} = {a \<in> death_ages ps. a \<le> t}"
    using l s(2) by auto
  then show ?thesis by (simp only: product_limit_def)
qed

lemma last_sorted_Max: "sorted (map fst ps) \<Longrightarrow> ps \<noteq> [] \<Longrightarrow> fst (last ps) = horizon (ps :: (flt \<times> outcome) list)"
  unfolding horizon_def
  by (induction ps rule: rev_induct) (auto simp: sorted_append intro!: Max_eqI [symmetric])

lemma survival_at_exact:
  assumes "evidence obs \<noteq> []"
  shows "survival_at (estimate_survival obs key) t =
    (if horizon (evidence obs) < t then None else Some (round_to 6 (product_limit (evidence obs) t)))"
proof -
  let ?e = "evidence obs" and ?ps = "survival_pairs obs" and ?xs = "sorted_list_of_set (death_ages (evidence obs))"
  have ps: "?ps = sort ?e" by (rule survival_pairs_evidence)
  have sf: "sorted (map fst ?ps)" unfolding ps by (rule sorted_ages) simp
  have ne: "?ps \<noteq> []" using assms sort_nonempty unfolding ps by blast
  have h: "fst (last ?ps) = horizon ?e"
    using last_sorted_Max [OF sf ne] by (simp add: ps horizon_def)
  have st: "km_loop (int (length ?ps)) 1 ?ps = map (km_step 1 ?ps) ?xs"
    using km_loop_steps [OF sf] by (simp add: ps)
  have pl: "st_survival (km_step 1 ?ps a) = round_to 6 (product_limit ?e a)" for a
    by (simp add: km_step_def ps)
  have one: "product_limit ?e t = 1" if "?xs = [] \<or> t < hd ?xs"
  proof -
    have "{a \<in> death_ages ?e. a \<le> t} = {}"
    proof (cases ?xs)
      case (Cons x xs)
      have "sorted ?xs" by simp
      then have "\<forall>a \<in> set ?xs. x \<le> a" unfolding Cons by simp
      moreover have "death_ages ?e = set ?xs" by simp
      ultimately show ?thesis using that Cons by force
    qed simp
    then show ?thesis by (simp only: product_limit_def prod.empty)
  qed
  have est: "estimate_survival obs key = \<lparr>sc_profile_key = key, sc_steps = map (km_step 1 ?ps) ?xs,
      sc_sample_count = int (length ?ps), sc_horizon_s = Some (horizon ?e)\<rparr>"
    using ne by (simp add: estimate_survival_def Let_def st h)
  have ag: "st_age_s (km_step 1 ?ps a) = a" for a by (simp add: km_step_def)
  show ?thesis
  proof (cases "?xs = [] \<or> t < hd ?xs")
    case True
    then show ?thesis
      using one ne by (cases ?xs) (simp_all add: est survival_at_def curve_empty_def ag)
  next
    case False
    then obtain x xs where xs: "?xs = x # xs" "x \<le> t" by (cases ?xs) auto
    have "last_step_at t d (map (km_step 1 ?ps) ?xs) = round_to 6 (product_limit ?e t)" for d
      using last_step_at_eq [of ?xs t d 1 ?ps] product_limit_last [of ?xs ?e t] False pl by simp
    then show ?thesis
      using ne xs by (simp add: est survival_at_def curve_empty_def ag)
  qed
qed

lemma estimate_empty: "evidence obs = [] \<Longrightarrow> estimate_survival obs key = empty_curve key"
  by (simp add: estimate_survival_def survival_pairs_evidence)

section \<open>Without censoring: the fraction that is older\<close>

definition older :: "(flt \<times> outcome) list \<Rightarrow> flt \<Rightarrow> nat" where
  "older ps t = length (filter (\<lambda>p. t < fst p) ps)"

lemma older_sort [simp]: "older (sort ps) t = older ps t"
  by (simp add: older_def filter_sort)

lemma all_deaths_empirical:
  assumes "sorted (map fst ps)" and "ps \<noteq> []" and "\<forall>p \<in> set ps. snd p = MISS_REBUILT"
  shows "product_limit ps t = of_nat (older ps t) / of_nat (length ps)"
  using assms
proof (induction "length ps" arbitrary: ps rule: less_induct)
  case less
  obtain age oc ps0 where c: "ps = (age, oc) # ps0" using less.prems(2) by (cases ps) auto
  define grp rest where "grp = (age, oc) # takeWhile (\<lambda>p. fst p = age) ps0"
    and "rest = dropWhile (\<lambda>p. fst p = age) ps0"
  note g = group_split [OF less.prems(1) [unfolded c], folded grp_def rest_def]
  have ps: "ps = grp @ rest" unfolding c by (rule g(1))
  have ne: "grp \<noteq> []" by (simp add: grp_def)
  have md: "filter (\<lambda>p. snd p = MISS_REBUILT) grp = grp"
    using less.prems(3) by (simp add: ps)
  note cnt = group_counts [OF g(2,3)]
  have old: "age \<le> t \<Longrightarrow> older ps t = older rest t" "t < age \<Longrightarrow> older ps t = length ps"
  proof -
    assume "age \<le> t"
    then have "filter (\<lambda>p. t < fst p) grp = []" using g(2) by (auto simp: filter_empty_conv)
    then show "older ps t = older rest t" by (simp add: ps older_def)
  next
    assume "t < age"
    then have "filter (\<lambda>p. t < fst p) (grp @ rest) = grp @ rest"
      using g(2,3) by (intro filter_True) fastforce
    then show "older ps t = length ps" by (simp add: ps older_def)
  qed
  show ?case
  proof (cases "t < age")
    case True
    then show ?thesis using group_product_limit(2) [OF g(2,3) ne True, folded ps] old(2) less.prems(2) by simp
  next
    case False
    have h: "hazard_factor ps age = of_nat (length rest) / of_nat (length ps)"
    proof -
      have "of_nat (length ps) \<noteq> (0::flt)" using less.prems(2) by simp
      moreover have "of_nat (length ps) = of_nat (length grp) + (of_nat (length rest) :: flt)" by (simp add: ps)
      moreover have "hazard_factor ps age = 1 - of_nat (length grp) / of_nat (length ps)"
        using cnt(1,2) by (simp add: hazard_factor_def ps md)
      ultimately show ?thesis by (simp add: field_simps)
    qed
    have p: "product_limit ps t = hazard_factor ps age * product_limit rest t"
      using group_product_limit(1) [OF g(2,3) ne, of t] False by (simp add: ps)
    show ?thesis
    proof (cases "rest = []")
      case True
      then show ?thesis using p h old(1) False by (simp add: older_def)
    next
      case ne': False
      have "product_limit rest t = of_nat (older rest t) / of_nat (length rest)"
        using less.hyps [OF _ g(4) ne'] less.prems(3) ne by (simp add: ps)
      then show ?thesis using p h old(1) False ne' by simp
    qed
  qed
qed

section \<open>Properties\<close>

text \<open>C29: The loop computes the Kaplan-Meier estimate. Whatever the order of the observations, the curve
  answers at an age up to the horizon the product, over the ages of the recorded misses that are not
  above it, of one minus the misses at that age over the observations at or above it, rounded to six
  digits, and nothing beyond the horizon or without evidence; failed and unverified observations play
  no part. When every observation is a miss that is the fraction of the misses that came later.\<close>

theorem survival_is_product_limit:
  "survival_at (estimate_survival obs key) t =
      (if evidence obs = [] \<or> horizon (evidence obs) < t then None
       else Some (round_to 6 (product_limit (evidence obs) t))) \<and>
    (evidence obs \<noteq> [] \<longrightarrow> (\<forall>ob \<in> set obs. so_outcome ob = MISS_REBUILT) \<longrightarrow>
      product_limit (evidence obs) t = of_nat (older (evidence obs) t) / of_nat (length (evidence obs)))"
proof (intro conjI impI)
  show "survival_at (estimate_survival obs key) t =
      (if evidence obs = [] \<or> horizon (evidence obs) < t then None
       else Some (round_to 6 (product_limit (evidence obs) t)))"
  proof (cases "evidence obs = []")
    case True
    then show ?thesis by (simp add: estimate_empty survival_at_def curve_empty_def empty_curve_def)
  qed (simp add: survival_at_exact)
  assume e: "evidence obs \<noteq> []" and m: "\<forall>ob \<in> set obs. so_outcome ob = MISS_REBUILT"
  have "sorted (map fst (sort (evidence obs)))" by (rule sorted_ages) simp
  moreover have "\<forall>p \<in> set (sort (evidence obs)). snd p = MISS_REBUILT" using m by (auto simp: evidence_def)
  moreover have "sort (evidence obs) \<noteq> []" using e by (rule sort_nonempty)
  ultimately show "product_limit (evidence obs) t = of_nat (older (evidence obs) t) / of_nat (length (evidence obs))"
    using all_deaths_empirical [of "sort (evidence obs)" t] by simp
qed

definition sample_miss :: "flt \<Rightarrow> survival_observation" where
  "sample_miss a = \<lparr>so_idle_age_s = Some a, so_outcome = MISS_REBUILT\<rparr>"

theorem survival_is_product_limit_witness:
  "product_limit (evidence [sample_miss 2, sample_miss 1]) 1 =
     of_nat (older (evidence [sample_miss 2, sample_miss 1]) 1) /
     of_nat (length (evidence [sample_miss 2, sample_miss 1]))"
proof -
  have "evidence [sample_miss 2, sample_miss 1] \<noteq> []" "\<forall>ob \<in> set [sample_miss 2, sample_miss 1]. so_outcome ob = MISS_REBUILT"
    by (simp_all add: evidence_def sample_miss_def SURVIVAL_OUTCOMES_def)
  then show ?thesis using survival_is_product_limit [of "[sample_miss 2, sample_miss 1]" None 1] by blast
qed

text \<open>A survival probability is one, and never grows with age. Wherever the curve answers, the
  answer is between 0 and 1 and at most the answer at any smaller age; it answers at every age up to
  the horizon and never beyond it.\<close>

theorem survival_bounded_antitone:
  assumes "survival_at (estimate_survival obs key) u = Some q" and "t \<le> u"
  shows "\<exists>p. survival_at (estimate_survival obs key) t = Some p \<and> 0 \<le> q \<and> q \<le> p \<and> p \<le> 1 \<and>
    u \<le> horizon (evidence obs)"
proof -
  have e: "evidence obs \<noteq> []"
  proof
    assume "evidence obs = []"
    then show False using assms(1) by (simp add: estimate_empty survival_at_def curve_empty_def empty_curve_def)
  qed
  have u: "u \<le> horizon (evidence obs)" "q = round_to 6 (product_limit (evidence obs) u)"
    using assms(1) by (auto simp: survival_at_exact [OF e] split: if_splits)
  have "survival_at (estimate_survival obs key) t = Some (round_to 6 (product_limit (evidence obs) t))"
    using u(1) assms(2) by (simp add: survival_at_exact [OF e])
  moreover have "0 \<le> q"
    unfolding u(2) using round_to_mono [of 0 "product_limit (evidence obs) u" 6] product_limit_range by simp
  moreover have "q \<le> round_to 6 (product_limit (evidence obs) t)"
    unfolding u(2) by (rule round_to_mono) (rule product_limit_antimono [OF assms(2)])
  moreover have "round_to 6 (product_limit (evidence obs) t) \<le> 1"
    using round_to_mono [of "product_limit (evidence obs) t" 1 6] product_limit_range by simp
  ultimately show ?thesis using u(1) by blast
qed

theorem survival_bounded_antitone_witness:
  "\<exists>p. survival_at (estimate_survival [sample_miss 2, sample_miss 1] None) 1 = Some p \<and> 0 \<le> (0::flt) \<and> (0::flt) \<le> p \<and>
    p \<le> 1 \<and> 2 \<le> horizon (evidence [sample_miss 2, sample_miss 1])"
proof -
  have "survival_at (estimate_survival [sample_miss 2, sample_miss 1] None) 2 = Some 0" by code_simp
  from survival_bounded_antitone [OF this, of 1] show ?thesis by simp
qed

text \<open>
  The stored curve. Only clean observations of the profile's own key enter it, so recording any other
  observation leaves the curve as it was.
\<close>

lemma curve_ignores_other_observations:
  assumes "\<not> s_clean ob \<or> s_provider ob \<noteq> Some (tp_provider p) \<or> s_route_hash ob \<noteq> tp_route_hash p"
  shows "curve_from_profile (fst (record_ttl_observation d ob)) p = curve_from_profile d p"
  using assms
  by (auto simp: curve_from_profile_def clean_observations_for_profile_def record_ttl_observation_def
      insert_row_def Let_def case_prod_beta)

end
