(* ===== verification/Topology.thy ===== *)
theory Topology
  imports Observer Survival
begin

text \<open>
  The prefix topology (\<open>topology.py\<close>): how often each layer changed between consecutive requests, over
  layered snapshots or over the stored events of each session, with the loss the churn events give to
  each layer and the ordering stability of the tools per route. The dictionary with one row per layer
  is a function from layers. The lemmas are the accounting of the rows and the soundness of what the
  stored view attributes to the sub-layers.
\<close>

section \<open>Rows and reports\<close>

definition TOPOLOGY_LAYER_ORDER :: "layer list" where
  "TOPOLOGY_LAYER_ORDER = [System_prefix, System_suffix, Tools, History, History_tail, Route, Model, Cache_key]"

definition LAYERED_CONTENT_LAYERS :: "layer list" where
  "LAYERED_CONTENT_LAYERS = [System_prefix, System_suffix, History, History_tail]"

definition LOSS_LAYERS :: "layer list" where
  "LOSS_LAYERS = [System_prefix, System_suffix, Tools, History, History_tail]"

record layer_stats =
  tl_layer :: layer
  tl_pairs :: nat
  tl_changes :: nat
  tl_stability_pct :: "flt option"
  tl_change_frequency :: string
  tl_loss :: "int option"
  tl_attribution_based :: bool

record ordering_stats =
  to_route :: "string option"
  to_pairs :: nat
  to_set_changes :: nat
  to_permutations :: nat
  to_stability_pct :: "flt option"

record topology_report =
  tr_layers :: "layer_stats list"
  tr_tool_ordering :: "ordering_stats list"
  tr_sessions :: nat
  tr_total_pairs :: nat
  tr_churn_pairs :: nat
  tr_prefix_stability_pct :: "flt option"
  tr_attribution_gaps :: nat
  tr_unattributed_loss :: int

text \<open>What the loops update: the report, the row of each layer, the row of each route.\<close>

record topology =
  tp_report :: topology_report
  tp_layers :: "layer \<Rightarrow> layer_stats"
  tp_routes :: "(string option, ordering_stats) dict"

definition empty_report :: topology_report where
  "empty_report = \<lparr>tr_layers = [], tr_tool_ordering = [], tr_sessions = 0, tr_total_pairs = 0, tr_churn_pairs = 0,
     tr_prefix_stability_pct = None, tr_attribution_gaps = 0, tr_unattributed_loss = 0\<rparr>"

definition empty_layers :: "layer \<Rightarrow> layer_stats" where
  "empty_layers l = \<lparr>tl_layer = l, tl_pairs = 0, tl_changes = 0, tl_stability_pct = None,
     tl_change_frequency = ''no observations'', tl_loss = None, tl_attribution_based = False\<rparr>"

definition empty_topology :: topology where
  "empty_topology = \<lparr>tp_report = empty_report, tp_layers = empty_layers, tp_routes = []\<rparr>"

section \<open>Pairs\<close>

definition hash_diff :: "string option \<Rightarrow> string option \<Rightarrow> bool option" where
  "hash_diff a b = (case (a, b) of (Some x, Some y) \<Rightarrow> Some (x \<noteq> y) | _ \<Rightarrow> None)"

definition sub_layer_status ::
  "string option \<Rightarrow> string option \<Rightarrow> string option \<Rightarrow> string option \<Rightarrow> layer option \<Rightarrow> layer \<Rightarrow> bool option" where
  "sub_layer_status system_a system_b history_a history_b first =
     (let system_identical = (system_a \<noteq> None \<and> system_b \<noteq> None \<and> system_a = system_b);
          history_identical = (history_a \<noteq> None \<and> history_b \<noteq> None \<and> history_a = history_b);
          st = (\<lambda>_. None);
          st = (if system_identical then st(System_prefix := Some False, System_suffix := Some False) else st);
          st = (if history_identical then st(History := Some False, History_tail := Some False) else st);
          st = (if first = Some System_suffix then st(System_prefix := Some False, System_suffix := Some True)
                else if first = Some System_prefix then st(System_prefix := Some True)
                else if first \<in> {Some Tools, Some History, Some History_tail}
                then (if \<not> system_identical then st(System_prefix := Some False, System_suffix := Some False) else st)
                else st);
          st = (if first = Some History then st(History := Some True)
                else if first = Some History_tail then st(History := Some False, History_tail := Some True)
                else if first \<in> {Some System_prefix, Some System_suffix, Some Tools} \<and> \<not> history_identical
                then st(History := Some False, History_tail := Some False)
                else st)
      in st)"

definition count_layer :: "layer \<Rightarrow> bool option \<Rightarrow> (layer \<Rightarrow> layer_stats) \<Rightarrow> layer \<Rightarrow> layer_stats" where
  \<comment> \<open>An undecidable flag counts for nothing.\<close>
  "count_layer l flag rows =
     (case flag of None \<Rightarrow> rows
      | Some changed \<Rightarrow> rows(l := (rows l)\<lparr>tl_pairs := tl_pairs (rows l) + 1,
          tl_changes := tl_changes (rows l) + (if changed then 1 else 0)\<rparr>))"

definition count_sub_layer :: "layer \<Rightarrow> bool option \<Rightarrow> (layer \<Rightarrow> layer_stats) \<Rightarrow> layer \<Rightarrow> layer_stats" where
  "count_sub_layer l flag rows =
     (case flag of None \<Rightarrow> rows
      | Some changed \<Rightarrow> (count_layer l flag rows)(l := (count_layer l flag rows l)\<lparr>tl_attribution_based := True\<rparr>))"

definition empty_ordering :: "string option \<Rightarrow> ordering_stats" where
  "empty_ordering route = \<lparr>to_route = route, to_pairs = 0, to_set_changes = 0, to_permutations = 0,
     to_stability_pct = None\<rparr>"

definition ordering_after :: "bool \<Rightarrow> bool \<Rightarrow> ordering_stats \<Rightarrow> ordering_stats" where
  \<comment> \<open>One more decidable pair; when the order-sensitive digest moved, the set digest says how.\<close>
  "ordering_after moved same_set row =
     (let row = row\<lparr>to_pairs := to_pairs row + 1\<rparr> in
      if moved
      then (if same_set then row\<lparr>to_permutations := to_permutations row + 1\<rparr>
            else row\<lparr>to_set_changes := to_set_changes row + 1\<rparr>)
      else row)"

definition count_tools ::
  "string option \<Rightarrow> string option \<Rightarrow> string option \<Rightarrow> string option \<Rightarrow> string option \<Rightarrow> string option \<Rightarrow>
   (string option, ordering_stats) dict \<Rightarrow> (string option, ordering_stats) dict" where
  \<comment> \<open>Order-sensitive and order-free digests of both requests, then their routes.\<close>
  "count_tools tools_a set_a tools_b set_b route_a route_b routes =
     (if set_a \<noteq> None \<and> set_b \<noteq> None \<and> tools_a \<noteq> None \<and> tools_b \<noteq> None
      then (let route = (if route_b \<noteq> None then route_b else route_a)
            in dset routes route (ordering_after (tools_a \<noteq> tools_b) (set_a = set_b)
                 (opt_or (dget routes route) (empty_ordering route))))
      else routes)"

section \<open>Derived fields\<close>

definition stable_pct :: "nat \<Rightarrow> nat \<Rightarrow> flt" where
  "stable_pct changes pairs = round_to 1 (100 * (1 - of_nat changes / of_nat pairs))"

definition finalize_layer :: "layer_stats \<Rightarrow> layer_stats" where
  "finalize_layer r =
     (if 0 < tl_pairs r
      then r\<lparr>tl_stability_pct := Some (stable_pct (tl_changes r) (tl_pairs r)),
             tl_change_frequency := changed_frequency
               (replicate (tl_changes r) True @ replicate (tl_pairs r - tl_changes r) False) ''requests''\<rparr>
      else r)"

definition finalize_ordering :: "ordering_stats \<Rightarrow> ordering_stats" where
  "finalize_ordering r =
     (if 0 < to_pairs r then r\<lparr>to_stability_pct := Some (stable_pct (to_permutations r) (to_pairs r))\<rparr> else r)"

definition finalize_report :: "topology \<Rightarrow> topology_report" where
  "finalize_report tp =
     (let r = tp_report tp in
      if 0 < tr_total_pairs r
      then r\<lparr>tr_layers := map (finalize_layer \<circ> tp_layers tp) TOPOLOGY_LAYER_ORDER,
             tr_prefix_stability_pct := Some (stable_pct (tr_churn_pairs r) (tr_total_pairs r)),
             tr_tool_ordering := map (\<lambda>route. finalize_ordering (the (dget (tp_routes tp) route)))
               (sort_key (\<lambda>k. (k \<noteq> None, opt_or k [])) (map fst (tp_routes tp)))\<rparr>
      else r)"

section \<open>Over snapshots\<close>

definition pair_flags :: "layered_hashes \<Rightarrow> layered_hashes \<Rightarrow> layer \<Rightarrow> bool option" where
  "pair_flags a b l =
     (case l of
        Route \<Rightarrow> hash_diff (lh_route a) (lh_route b)
      | Model \<Rightarrow> hash_diff (lh_model a) (lh_model b)
      | Cache_key \<Rightarrow> Some (lh_cache_key a \<noteq> lh_cache_key b)
      | _ \<Rightarrow> hash_diff (layer_hash a l) (layer_hash b l))"

definition snapshot_pair :: "layered_hashes \<times> layered_hashes \<Rightarrow> topology \<Rightarrow> topology" where
  "snapshot_pair = (\<lambda>(a, b) tp.
     let moved = (lh_cache_key a \<noteq> lh_cache_key b \<or>
                  list_ex (\<lambda>l. pair_flags a b l = Some True) TOPOLOGY_LAYER_ORDER);
         r = tp_report tp
     in tp\<lparr>tp_report := r\<lparr>tr_churn_pairs := tr_churn_pairs r + (if moved then 1 else 0)\<rparr>,
           tp_layers := foldl (\<lambda>rows l. count_layer l (pair_flags a b l) rows) (tp_layers tp) TOPOLOGY_LAYER_ORDER,
           tp_routes := count_tools (lh_tools a) (lh_tools_set a) (lh_tools b) (lh_tools_set b)
             (lh_route a) (lh_route b) (tp_routes tp)\<rparr>)"

definition pairwise :: "'a list \<Rightarrow> ('a \<times> 'a) list" where
  "pairwise xs = zip xs (tl xs)"

definition topology_from_snapshots :: "layered_hashes list \<Rightarrow> topology_report" where
  "topology_from_snapshots snaps =
     (if length snaps < 2 then finalize_report empty_topology
      else finalize_report (fold snapshot_pair (pairwise snaps)
        (empty_topology\<lparr>tp_report := empty_report\<lparr>tr_sessions := 1, tr_total_pairs := length snaps - 1\<rparr>\<rparr>)))"

section \<open>Over the store\<close>

type_synonym churn_key = "string option \<times> string \<times> string"

definition churn_index :: "churn_event list \<Rightarrow> (churn_key, churn_event) dict" where
  "churn_index es = foldl (\<lambda>d e. dset d
     (ce_session_hash e, ce_previous_cache_fingerprint e, ce_new_cache_fingerprint e) e) [] es"

definition layer_of_name :: "string \<Rightarrow> layer option" where
  "layer_of_name s = find (\<lambda>l. layer_name l = s) TOPOLOGY_LAYER_ORDER"

definition add_loss :: "layer option \<Rightarrow> int option \<Rightarrow> topology \<Rightarrow> topology" where
  "add_loss first loss tp =
     (case loss of None \<Rightarrow> tp
      | Some n \<Rightarrow>
          (case first of
             Some l \<Rightarrow>
               if l \<in> set LOSS_LAYERS
               then tp\<lparr>tp_layers := (tp_layers tp)(l := (tp_layers tp l)
                         \<lparr>tl_loss := Some (opt_or (tl_loss (tp_layers tp l)) 0 + n)\<rparr>)\<rparr>
               else tp\<lparr>tp_report := (tp_report tp)
                         \<lparr>tr_unattributed_loss := tr_unattributed_loss (tp_report tp) + n\<rparr>\<rparr>
           | None \<Rightarrow> tp\<lparr>tp_report := (tp_report tp)
                         \<lparr>tr_unattributed_loss := tr_unattributed_loss (tp_report tp) + n\<rparr>\<rparr>))"

definition event_flags :: "stored_request_event \<Rightarrow> stored_request_event \<Rightarrow> bool option list" where
  "event_flags a b = [hash_diff (sr_system_hash a) (sr_system_hash b), hash_diff (sr_tools_hash a) (sr_tools_hash b),
     hash_diff (sr_history_hash a) (sr_history_hash b), hash_diff (sr_route_hash a) (sr_route_hash b),
     Some (sr_model a \<noteq> sr_model b)]"

definition exact_flag :: "stored_request_event \<Rightarrow> stored_request_event \<Rightarrow> layer \<Rightarrow> bool option" where
  \<comment> \<open>The four layers the flat columns decide; the cache key is blamed when nothing else moved.\<close>
  "exact_flag a b l =
     (case l of
        Tools \<Rightarrow> hash_diff (sr_tools_hash a) (sr_tools_hash b)
      | Route \<Rightarrow> hash_diff (sr_route_hash a) (sr_route_hash b)
      | Model \<Rightarrow> Some (sr_model a \<noteq> sr_model b)
      | Cache_key \<Rightarrow> if sr_cache_fingerprint a \<noteq> sr_cache_fingerprint b
                     then Some (Some True \<notin> set (event_flags a b)) else None
      | _ \<Rightarrow> None)"

definition count_exact :: "stored_request_event \<Rightarrow> stored_request_event \<Rightarrow> (layer \<Rightarrow> layer_stats) \<Rightarrow> layer \<Rightarrow> layer_stats" where
  "count_exact a b rows =
     foldl (\<lambda>rows l. count_layer l (exact_flag a b l) rows) rows [Tools, Route, Model, Cache_key]"

definition event_status :: "layer option \<Rightarrow> stored_request_event \<Rightarrow> stored_request_event \<Rightarrow> layer \<Rightarrow> bool option" where
  "event_status first a b =
     sub_layer_status (sr_system_hash a) (sr_system_hash b) (sr_history_hash a) (sr_history_hash b) first"

definition count_attributed ::
  "layer option \<Rightarrow> stored_request_event \<Rightarrow> stored_request_event \<Rightarrow> (layer \<Rightarrow> layer_stats) \<Rightarrow> layer \<Rightarrow> layer_stats" where
  "count_attributed first a b rows =
     foldl (\<lambda>rows l. count_sub_layer l (event_status first a b l) rows) rows LAYERED_CONTENT_LAYERS"

definition pair_churn :: "(churn_key, churn_event) dict \<Rightarrow> stored_request_event \<Rightarrow> stored_request_event \<Rightarrow> churn_event option" where
  "pair_churn index a b = dget index (sr_session_hash a, sr_cache_fingerprint a, sr_cache_fingerprint b)"

definition pair_first :: "(churn_key, churn_event) dict \<Rightarrow> stored_request_event \<Rightarrow> stored_request_event \<Rightarrow> layer option" where
  "pair_first index a b =
     Option.bind (Option.bind (pair_churn index a b) ce_first_divergent_layer) layer_of_name"

definition pair_loss :: "(churn_key, churn_event) dict \<Rightarrow> stored_request_event \<Rightarrow> stored_request_event \<Rightarrow> int option" where
  "pair_loss index a b = Option.bind (pair_churn index a b) ce_estimated_prefix_loss_tokens"

definition stored_pair ::
  "(churn_key, churn_event) dict \<Rightarrow> stored_request_event \<times> stored_request_event \<Rightarrow> topology \<Rightarrow> topology" where
  "stored_pair index = (\<lambda>(a, b) tp.
     let first = pair_first index a b;
         r = tp_report tp;
         r = r\<lparr>tr_total_pairs := tr_total_pairs r + 1,
               tr_churn_pairs := tr_churn_pairs r +
                 (if sr_cache_fingerprint a \<noteq> sr_cache_fingerprint b then 1 else 0)\<rparr>;
         rows = count_attributed first a b (count_exact a b (tp_layers tp));
         gap = ((hash_diff (sr_system_hash a) (sr_system_hash b) = Some True \<or>
                 hash_diff (sr_history_hash a) (sr_history_hash b) = Some True) \<and>
                first \<notin> Some ` set LAYERED_CONTENT_LAYERS);
         r = r\<lparr>tr_attribution_gaps := tr_attribution_gaps r + (if gap then 1 else 0)\<rparr>;
         tp = add_loss first (pair_loss index a b) (tp\<lparr>tp_report := r, tp_layers := rows\<rparr>)
     in tp\<lparr>tp_routes := count_tools (sr_tools_hash a) (sr_tools_set_hash a) (sr_tools_hash b) (sr_tools_set_hash b)
             (sr_route_hash a) (sr_route_hash b) (tp_routes tp)\<rparr>)"

definition by_session :: "stored_request_event list \<Rightarrow> (string option, stored_request_event list) dict" where
  "by_session es = foldl (\<lambda>d e. dset d (sr_session_hash e) (opt_or (dget d (sr_session_hash e)) [] @ [e])) [] es"

definition session_pairs :: "stored_request_event list \<Rightarrow> (stored_request_event \<times> stored_request_event) list" where
  "session_pairs es = pairwise (sort_key sr_id es)"

definition count_session :: "topology \<Rightarrow> topology" where
  "count_session tp = tp\<lparr>tp_report := (tp_report tp)\<lparr>tr_sessions := tr_sessions (tp_report tp) + 1\<rparr>\<rparr>"

definition stored_topology :: "churn_event list \<Rightarrow> stored_request_event list \<Rightarrow> topology" where
  "stored_topology churn events =
     foldl (\<lambda>tp (k, es). fold (stored_pair (churn_index churn)) (session_pairs es) (count_session tp))
       empty_topology (by_session events)"

definition topology_from_store :: "db \<Rightarrow> nat \<Rightarrow> topology_report" where
  "topology_from_store d limit =
     finalize_report (stored_topology (map snd (churn_list d limit None)) (recent_events d limit))"

section \<open>Accounting\<close>

text \<open>One row counts changes among decidable pairs, never more than all pairs.\<close>

definition rows_ok :: "nat \<Rightarrow> (layer \<Rightarrow> layer_stats) \<Rightarrow> bool" where
  "rows_ok n rows \<longleftrightarrow> (\<forall>l. tl_layer (rows l) = l \<and> tl_changes (rows l) \<le> tl_pairs (rows l) \<and> tl_pairs (rows l) \<le> n \<and>
     tl_stability_pct (rows l) = None)"

definition routes_ok :: "nat \<Rightarrow> (string option, ordering_stats) dict \<Rightarrow> bool" where
  "routes_ok n d \<longleftrightarrow> distinct (map fst d) \<and>
     (\<forall>(k, r) \<in> set d. to_route r = k \<and> to_set_changes r + to_permutations r \<le> to_pairs r \<and> 0 < to_pairs r \<and>
        to_stability_pct r = None) \<and>
     sum_list (map (to_pairs \<circ> snd) d) \<le> n"

definition topology_ok :: "nat \<Rightarrow> topology \<Rightarrow> bool" where
  \<comment> \<open>After \<open>n\<close> pairs.\<close>
  "topology_ok n tp \<longleftrightarrow> rows_ok n (tp_layers tp) \<and> routes_ok n (tp_routes tp) \<and>
     tr_churn_pairs (tp_report tp) \<le> n \<and> tr_attribution_gaps (tp_report tp) \<le> n \<and>
     tr_layers (tp_report tp) = [] \<and> tr_tool_ordering (tp_report tp) = [] \<and>
     tr_prefix_stability_pct (tp_report tp) = None"

definition counted :: "bool option \<Rightarrow> layer_stats \<Rightarrow> layer_stats" where
  "counted flag r =
     (case flag of None \<Rightarrow> r
      | Some c \<Rightarrow> r\<lparr>tl_pairs := tl_pairs r + 1, tl_changes := tl_changes r + (if c then 1 else 0)\<rparr>)"

definition attributed :: "bool option \<Rightarrow> layer_stats \<Rightarrow> layer_stats" where
  "attributed flag r = (case flag of None \<Rightarrow> r | Some c \<Rightarrow> (counted flag r)\<lparr>tl_attribution_based := True\<rparr>)"

lemma count_layers:
  "distinct ls \<Longrightarrow> foldl (\<lambda>rows l. count_layer l (f l) rows) rows ls =
    (\<lambda>k. if k \<in> set ls then counted (f k) (rows k) else rows k)"
proof (induction ls arbitrary: rows)
  case (Cons l ls)
  have "count_layer l (f l) rows = rows(l := counted (f l) (rows l))"
    by (auto simp: count_layer_def counted_def split: option.splits)
  then show ?case using Cons by (auto simp: fun_eq_iff)
qed simp

lemma count_sub_layers:
  "distinct ls \<Longrightarrow> foldl (\<lambda>rows l. count_sub_layer l (f l) rows) rows ls =
    (\<lambda>k. if k \<in> set ls then attributed (f k) (rows k) else rows k)"
proof (induction ls arbitrary: rows)
  case (Cons l ls)
  have "count_sub_layer l (f l) rows = rows(l := attributed (f l) (rows l))"
    by (auto simp: count_sub_layer_def count_layer_def attributed_def counted_def split: option.splits)
  then show ?case using Cons by (auto simp: fun_eq_iff)
qed simp

lemma layer_rows:
  "foldl (\<lambda>rows l. count_layer l (pair_flags x y l) rows) rows TOPOLOGY_LAYER_ORDER k = counted (pair_flags x y k) (rows k)"
  "count_attributed first a b (count_exact a b rows) k =
    (if k \<in> {Tools, Route, Model, Cache_key} then counted (exact_flag a b k) (rows k)
     else attributed (event_status first a b k) (rows k))"
proof -
  have "k \<in> set TOPOLOGY_LAYER_ORDER" by (cases k) (simp_all add: TOPOLOGY_LAYER_ORDER_def)
  then show "foldl (\<lambda>rows l. count_layer l (pair_flags x y l) rows) rows TOPOLOGY_LAYER_ORDER k = counted (pair_flags x y k) (rows k)"
    by (subst count_layers) (simp_all add: TOPOLOGY_LAYER_ORDER_def)
  have d: "distinct LAYERED_CONTENT_LAYERS" "distinct [Tools, Route, Model, Cache_key]"
    by (simp_all add: LAYERED_CONTENT_LAYERS_def)
  show "count_attributed first a b (count_exact a b rows) k =
    (if k \<in> {Tools, Route, Model, Cache_key} then counted (exact_flag a b k) (rows k)
     else attributed (event_status first a b k) (rows k))"
    unfolding count_attributed_def count_exact_def count_layers [OF d(2)] count_sub_layers [OF d(1)]
    by (cases k) (simp_all add: LAYERED_CONTENT_LAYERS_def)
qed

lemma counted_ok:
  "tl_changes r \<le> tl_pairs r \<Longrightarrow> tl_changes (counted f r) \<le> tl_pairs (counted f r)"
  "tl_pairs (counted f r) \<le> tl_pairs r + 1" "tl_layer (counted f r) = tl_layer r"
  "tl_stability_pct (counted f r) = tl_stability_pct r" "tl_loss (counted f r) = tl_loss r"
  "tl_changes r \<le> tl_pairs r \<Longrightarrow> tl_changes (attributed f r) \<le> tl_pairs (attributed f r)"
  "tl_pairs (attributed f r) \<le> tl_pairs r + 1" "tl_layer (attributed f r) = tl_layer r"
  "tl_stability_pct (attributed f r) = tl_stability_pct r" "tl_loss (attributed f r) = tl_loss r"
  by (simp_all add: counted_def attributed_def split: option.split)

lemma rows_ok_step:
  assumes "rows_ok n rows" and "\<And>k. \<exists>f. rows' k = counted f (rows k) \<or> rows' k = attributed f (rows k)"
  shows "rows_ok (Suc n) rows'"
  unfolding rows_ok_def
proof
  fix l
  obtain f where "rows' l = counted f (rows l) \<or> rows' l = attributed f (rows l)" using assms(2) by blast
  moreover have "tl_layer (rows l) = l" "tl_changes (rows l) \<le> tl_pairs (rows l)" "tl_pairs (rows l) \<le> n"
      "tl_stability_pct (rows l) = None" using assms(1) by (auto simp: rows_ok_def)
  moreover have "tl_pairs (counted f (rows l)) \<le> Suc n" "tl_pairs (attributed f (rows l)) \<le> Suc n"
    using counted_ok(2,7) [of f "rows l"] calculation(4) by auto
  ultimately show "tl_layer (rows' l) = l \<and> tl_changes (rows' l) \<le> tl_pairs (rows' l) \<and> tl_pairs (rows' l) \<le> Suc n \<and>
      tl_stability_pct (rows' l) = None"
    by (auto simp: counted_ok)
qed

lemma route_pairs_dset:
  "distinct (map fst d) \<Longrightarrow>
    sum_list (map (to_pairs \<circ> snd) (dset d k r)) + (case dget d k of None \<Rightarrow> 0 | Some r0 \<Rightarrow> to_pairs r0) =
    sum_list (map (to_pairs \<circ> snd) d) + to_pairs r"
  by (induction d) (auto split: option.splits simp: dget_None_iff image_iff)

lemma routes_ok_step:
  assumes "routes_ok n d"
  shows "routes_ok (Suc n) (count_tools t1 s1 t2 s2 r1 r2 d)"
proof (cases "s1 \<noteq> None \<and> s2 \<noteq> None \<and> t1 \<noteq> None \<and> t2 \<noteq> None")
  case False
  then show ?thesis using assms by (auto simp: count_tools_def routes_ok_def)
next
  case True
  define k where "k = (if r2 \<noteq> None then r2 else r1)"
  define row where "row = opt_or (dget d k) (empty_ordering k)"
  define row' where "row' = ordering_after (t1 \<noteq> t2) (s1 = s2) row"
  have row': "count_tools t1 s1 t2 s2 r1 r2 d = dset d k row'"
      "to_route row' = to_route row" "to_pairs row' = to_pairs row + 1"
      "to_set_changes row' + to_permutations row' \<le> to_set_changes row + to_permutations row + 1"
      "to_stability_pct row' = to_stability_pct row"
    using True by (simp_all add: count_tools_def row'_def ordering_after_def Let_def k_def row_def)
  have d: "distinct (map fst d)" "sum_list (map (to_pairs \<circ> snd) d) \<le> n"
    and e: "\<forall>(k, r) \<in> set d. to_route r = k \<and> to_set_changes r + to_permutations r \<le> to_pairs r \<and> 0 < to_pairs r \<and>
        to_stability_pct r = None" using assms by (auto simp: routes_ok_def)
  have "to_route row = k \<and> to_set_changes row + to_permutations row \<le> to_pairs row \<and> to_stability_pct row = None \<and>
      (case dget d k of None \<Rightarrow> 0 | Some r0 \<Rightarrow> to_pairs r0) = to_pairs row"
    using e by (cases "dget d k") (auto simp: row_def empty_ordering_def dest: map_of_SomeD)
  then have row: "to_route row = k" "to_set_changes row + to_permutations row \<le> to_pairs row" "to_stability_pct row = None"
      "(case dget d k of None \<Rightarrow> 0 | Some r0 \<Rightarrow> to_pairs r0) = to_pairs row" by auto
  have "sum_list (map (to_pairs \<circ> snd) (dset d k row')) \<le> Suc n"
    using route_pairs_dset [OF d(1), of k row'] row(4) row'(3) d(2) by simp
  moreover have "\<forall>(k, r) \<in> set (dset d k row'). to_route r = k \<and> to_set_changes r + to_permutations r \<le> to_pairs r \<and>
      0 < to_pairs r \<and> to_stability_pct r = None"
    using e row row'(2-) by (auto simp: set_dset_distinct [OF d(1)])
  ultimately show ?thesis using d(1) by (simp add: routes_ok_def row'(1) distinct_update)
qed

lemma rows_ok_loss: "rows_ok n rows \<Longrightarrow> rows_ok n (rows(l := (rows l)\<lparr>tl_loss := x\<rparr>))"
  by (auto simp: rows_ok_def)

lemma add_loss_ok:
  "topology_ok n tp \<Longrightarrow> topology_ok n (add_loss first loss tp)"
  "tr_total_pairs (tp_report (add_loss first loss tp)) = tr_total_pairs (tp_report tp)"
  "tr_sessions (tp_report (add_loss first loss tp)) = tr_sessions (tp_report tp)"
  "tp_routes (add_loss first loss tp) = tp_routes tp"
  "(add_loss first loss tp)\<lparr>tp_routes := g\<rparr> = add_loss first loss (tp\<lparr>tp_routes := g\<rparr>)"
  by (auto simp: add_loss_def topology_ok_def rows_ok_loss split: option.split)

lemma stored_pair_eq:
  "stored_pair index (a, b) tp = add_loss (pair_first index a b) (pair_loss index a b)
     (tp\<lparr>tp_report := (tp_report tp)
        \<lparr>tr_total_pairs := tr_total_pairs (tp_report tp) + 1,
         tr_churn_pairs := tr_churn_pairs (tp_report tp) + (if sr_cache_fingerprint a \<noteq> sr_cache_fingerprint b then 1 else 0),
         tr_attribution_gaps := tr_attribution_gaps (tp_report tp) +
           (if (hash_diff (sr_system_hash a) (sr_system_hash b) = Some True \<or>
                hash_diff (sr_history_hash a) (sr_history_hash b) = Some True) \<and>
               pair_first index a b \<notin> Some ` set LAYERED_CONTENT_LAYERS then 1 else 0)\<rparr>,
      tp_layers := count_attributed (pair_first index a b) a b (count_exact a b (tp_layers tp)),
      tp_routes := count_tools (sr_tools_hash a) (sr_tools_set_hash a) (sr_tools_hash b) (sr_tools_set_hash b)
        (sr_route_hash a) (sr_route_hash b) (tp_routes tp)\<rparr>)"
  by (simp add: stored_pair_def Let_def add_loss_ok)

lemma stored_pair_ok:
  assumes "topology_ok n tp"
  shows "topology_ok (Suc n) (stored_pair index (a, b) tp)"
proof -
  have "rows_ok (Suc n) (count_attributed (pair_first index a b) a b (count_exact a b (tp_layers tp)))"
    using assms by (intro rows_ok_step [of n "tp_layers tp"]) (auto simp: topology_ok_def layer_rows(2))
  then show ?thesis
    unfolding stored_pair_eq using assms by (intro add_loss_ok(1)) (simp add: topology_ok_def routes_ok_step)
qed

lemma snapshot_pair_ok:
  assumes "topology_ok n tp"
  shows "topology_ok (Suc n) (snapshot_pair (a, b) tp)"
proof -
  have "rows_ok (Suc n) (foldl (\<lambda>rows l. count_layer l (pair_flags a b l) rows) (tp_layers tp) TOPOLOGY_LAYER_ORDER)"
    using assms by (intro rows_ok_step [of n "tp_layers tp"]) (auto simp: topology_ok_def layer_rows(1))
  then show ?thesis
    using assms by (simp add: snapshot_pair_def Let_def topology_ok_def routes_ok_step)
qed

lemma pairs_ok:
  assumes "topology_ok n tp"
  shows "topology_ok (n + length ps) (fold (stored_pair index) ps tp)"
    and "topology_ok (n + length qs) (fold snapshot_pair qs tp)"
proof -
  show "topology_ok (n + length ps) (fold (stored_pair index) ps tp)"
    using assms
  proof (induction ps arbitrary: n tp)
    case (Cons p ps)
    have "topology_ok (Suc n) (stored_pair index (fst p, snd p) tp)" by (rule stored_pair_ok) (rule Cons.prems)
    then show ?case using Cons.IH [of "Suc n"] by simp
  qed simp
  show "topology_ok (n + length qs) (fold snapshot_pair qs tp)"
    using assms
  proof (induction qs arbitrary: n tp)
    case (Cons p qs)
    have "topology_ok (Suc n) (snapshot_pair (fst p, snd p) tp)" by (rule snapshot_pair_ok) (rule Cons.prems)
    then show ?case using Cons.IH [of "Suc n"] by simp
  qed simp
qed

lemma pairs_totals:
  "tr_total_pairs (tp_report (fold (stored_pair index) ps tp)) = tr_total_pairs (tp_report tp) + length ps"
  "tr_sessions (tp_report (fold (stored_pair index) ps tp)) = tr_sessions (tp_report tp)"
  "tr_total_pairs (tp_report (fold snapshot_pair qs tp)) = tr_total_pairs (tp_report tp)"
  "tr_sessions (tp_report (fold snapshot_pair qs tp)) = tr_sessions (tp_report tp)"
proof -
  show "tr_total_pairs (tp_report (fold (stored_pair index) ps tp)) = tr_total_pairs (tp_report tp) + length ps"
    by (induction ps arbitrary: tp) (simp_all add: stored_pair_eq add_loss_ok split_paired_all)
  show "tr_sessions (tp_report (fold (stored_pair index) ps tp)) = tr_sessions (tp_report tp)"
    by (induction ps arbitrary: tp) (simp_all add: stored_pair_eq add_loss_ok split_paired_all)
  show "tr_total_pairs (tp_report (fold snapshot_pair qs tp)) = tr_total_pairs (tp_report tp)"
    by (induction qs arbitrary: tp) (simp_all add: snapshot_pair_def Let_def split_paired_all)
  show "tr_sessions (tp_report (fold snapshot_pair qs tp)) = tr_sessions (tp_report tp)"
    by (induction qs arbitrary: tp) (simp_all add: snapshot_pair_def Let_def split_paired_all)
qed

lemma empty_ok: "topology_ok 0 empty_topology"
  by (simp add: topology_ok_def empty_topology_def empty_report_def rows_ok_def routes_ok_def empty_layers_def)

section \<open>The sessions of the store\<close>

definition session_sizes :: "(string option, stored_request_event list) dict \<Rightarrow> nat" where
  "session_sizes d = sum_list (map (length \<circ> snd) d)"

lemma session_sizes_dset:
  "distinct (map fst d) \<Longrightarrow> session_sizes (dset d k (opt_or (dget d k) [] @ [e])) = session_sizes d + 1"
  by (induction d) (auto simp: session_sizes_def dget_None_iff)

lemma by_session_inv:
  defines "step \<equiv> \<lambda>d e. dset d (sr_session_hash e) (opt_or (dget d (sr_session_hash e)) [] @ [e])"
  assumes "distinct (map fst d)" and "\<forall>(k, es) \<in> set d. es \<noteq> [] \<and> (\<forall>e \<in> set es. sr_session_hash e = k)"
  shows "distinct (map fst (foldl step d es)) \<and>
    (\<forall>(k, es) \<in> set (foldl step d es). es \<noteq> [] \<and> (\<forall>e \<in> set es. sr_session_hash e = k)) \<and>
    session_sizes (foldl step d es) = session_sizes d + length es"
  using assms(2,3)
proof (induction es arbitrary: d)
  case (Cons e es)
  have d: "distinct (map fst (step d e))" using Cons.prems(1) by (simp add: step_def distinct_update)
  have "\<forall>e' \<in> set (opt_or (dget d (sr_session_hash e)) []). sr_session_hash e' = sr_session_hash e"
    using Cons.prems(2) by (cases "dget d (sr_session_hash e)") (auto dest!: map_of_SomeD)
  then have v: "\<forall>(k, es) \<in> set (step d e). es \<noteq> [] \<and> (\<forall>e \<in> set es. sr_session_hash e = k)"
    using Cons.prems(2) by (auto simp: step_def set_dset_distinct [OF Cons.prems(1)])
  have "session_sizes (step d e) = session_sizes d + 1"
    unfolding step_def by (rule session_sizes_dset [OF Cons.prems(1)])
  then show ?case using Cons.IH [OF d v] by simp
qed simp

lemma by_session_keys: "dkeys (by_session es) = sr_session_hash ` set es"
proof -
  have "dkeys (foldl (\<lambda>d e. dset d (sr_session_hash e) (opt_or (dget d (sr_session_hash e)) [] @ [e])) d es) =
      dkeys d \<union> sr_session_hash ` set es" for d
    by (induction es arbitrary: d) auto
  then show ?thesis by (simp add: by_session_def)
qed

lemma by_session_ok:
  "distinct (map fst (by_session es))" "(k, xs) \<in> set (by_session es) \<Longrightarrow> xs \<noteq> [] \<and> (\<forall>e \<in> set xs. sr_session_hash e = k)"
  "session_sizes (by_session es) = length es"
  using by_session_inv [of "[]" es] by (auto simp: by_session_def session_sizes_def)

lemma stored_fold:
  fixes index
  assumes "topology_ok n tp" and "n = tr_total_pairs (tp_report tp)" and "\<forall>(k, es) \<in> set d. es \<noteq> []"
  defines "tp' \<equiv> foldl (\<lambda>tp (k, es). fold (stored_pair index) (session_pairs es) (count_session tp)) tp d"
  shows "topology_ok (tr_total_pairs (tp_report tp')) tp' \<and>
    tr_sessions (tp_report tp') = tr_sessions (tp_report tp) + length d \<and>
    tr_total_pairs (tp_report tp') + length d = tr_total_pairs (tp_report tp) + session_sizes d"
  using assms(1-3) unfolding tp'_def
proof (induction d arbitrary: tp n)
  case (Cons p d)
  obtain k es where p: "p = (k, es)" by (cases p)
  have c: "topology_ok n (count_session tp)" "tr_total_pairs (tp_report (count_session tp)) = tr_total_pairs (tp_report tp)"
      "tr_sessions (tp_report (count_session tp)) = tr_sessions (tp_report tp) + 1"
    using Cons.prems(1) by (simp_all add: count_session_def topology_ok_def)
  have l: "length (session_pairs es) + 1 = length es"
    using Cons.prems(3) p by (simp add: session_pairs_def pairwise_def Suc_leI flip: length_greater_0_conv)
  let ?tp = "fold (stored_pair index) (session_pairs es) (count_session tp)"
  have "topology_ok (n + length (session_pairs es)) ?tp" by (rule pairs_ok(1)) (rule c(1))
  from Cons.IH [OF this] show ?case
    using Cons.prems(2,3) c l by (simp add: p pairs_totals session_sizes_def)
qed (simp add: session_sizes_def)

lemma stored_topology_ok:
  shows "topology_ok (tr_total_pairs (tp_report (stored_topology churn evs))) (stored_topology churn evs) \<and>
    tr_sessions (tp_report (stored_topology churn evs)) = length (by_session evs) \<and>
    tr_total_pairs (tp_report (stored_topology churn evs)) + length (by_session evs) = length evs"
proof -
  have ne: "\<forall>(k, es) \<in> set (by_session evs). es \<noteq> []" using by_session_ok(2) [where es = evs] by fast
  have z: "0 = tr_total_pairs (tp_report empty_topology)" "tr_sessions (tp_report empty_topology) = 0"
    by (simp_all add: empty_topology_def empty_report_def)
  show ?thesis
    using stored_fold [OF empty_ok z(1) ne, of "churn_index churn"] z by_session_ok(3) [of evs]
    unfolding stored_topology_def by simp
qed

section \<open>The report\<close>

definition pct_ok :: "flt option \<Rightarrow> bool" where
  "pct_ok p \<longleftrightarrow> (case p of None \<Rightarrow> True | Some x \<Rightarrow> 0 \<le> x \<and> x \<le> 100)"

definition report_ok :: "topology_report \<Rightarrow> bool" where
  "report_ok r \<longleftrightarrow>
     tr_churn_pairs r \<le> tr_total_pairs r \<and> tr_attribution_gaps r \<le> tr_total_pairs r \<and> pct_ok (tr_prefix_stability_pct r) \<and>
     (tr_prefix_stability_pct r = None \<longleftrightarrow> tr_total_pairs r = 0) \<and>
     map tl_layer (tr_layers r) = (if tr_total_pairs r = 0 then [] else TOPOLOGY_LAYER_ORDER) \<and>
     (\<forall>row \<in> set (tr_layers r). tl_changes row \<le> tl_pairs row \<and> tl_pairs row \<le> tr_total_pairs r \<and>
        pct_ok (tl_stability_pct row) \<and> (tl_stability_pct row = None \<longleftrightarrow> tl_pairs row = 0)) \<and>
     distinct (map to_route (tr_tool_ordering r)) \<and> sum_list (map to_pairs (tr_tool_ordering r)) \<le> tr_total_pairs r \<and>
     (\<forall>row \<in> set (tr_tool_ordering r). to_permutations row + to_set_changes row \<le> to_pairs row \<and>
        pct_ok (to_stability_pct row) \<and> to_stability_pct row \<noteq> None)"

lemma stable_pct_range: "c \<le> n \<Longrightarrow> pct_ok (Some (stable_pct c n))"
proof -
  assume c: "c \<le> n"
  have "of_nat c / of_nat n \<le> (1 :: flt)" using c by (cases "n = 0") simp_all
  then have "0 \<le> (100 * (1 - of_nat c / of_nat n) :: flt)" "(100 * (1 - of_nat c / of_nat n) :: flt) \<le> 100"
    by simp_all
  then have "round_to 1 0 \<le> stable_pct c n" "stable_pct c n \<le> round_to 1 100"
    unfolding stable_pct_def by (intro round_to_mono; simp)+
  moreover have "round_to 1 100 = 100" by code_simp
  ultimately show ?thesis by (simp add: pct_ok_def)
qed

lemma sum_list_sort_key:
  "distinct xs \<Longrightarrow> sum_list (map f (sort_key g xs)) = (sum_list (map f xs) :: nat)"
  by (simp add: sum_list_distinct_conv_sum_set)

lemma finalize_ok:
  assumes "topology_ok (tr_total_pairs (tp_report tp)) tp"
  shows "report_ok (finalize_report tp)"
proof -
  let ?n = "tr_total_pairs (tp_report tp)"
  have rows: "rows_ok ?n (tp_layers tp)" and routes: "routes_ok ?n (tp_routes tp)" using assms by (simp_all add: topology_ok_def)
  define ks where "ks = sort_key (\<lambda>k. (k \<noteq> None, opt_or k [])) (map fst (tp_routes tp))"
  have d: "distinct (map fst (tp_routes tp))" using routes by (simp add: routes_ok_def)
  have ks: "distinct ks" "set ks = dkeys (tp_routes tp)" using d by (simp_all add: ks_def)
  have row: "to_route r = k \<and> to_set_changes r + to_permutations r \<le> to_pairs r \<and> 0 < to_pairs r"
    if "k \<in> set ks" "r = the (dget (tp_routes tp) k)" for k r
  proof -
    have "dget (tp_routes tp) k \<noteq> None" using that(1) ks(2) by (simp add: dget_None_iff)
    then obtain r0 where r0: "dget (tp_routes tp) k = Some r0" by auto
    then have "(k, r0) \<in> set (tp_routes tp)" by (rule map_of_SomeD)
    then show ?thesis using routes that(2) r0 by (auto simp: routes_ok_def)
  qed
  have total: "sum_list (map (\<lambda>k. to_pairs (the (dget (tp_routes tp) k))) ks) \<le> ?n"
  proof -
    have e: "map (\<lambda>k. to_pairs (the (dget (tp_routes tp) k))) (map fst (tp_routes tp)) = map (to_pairs \<circ> snd) (tp_routes tp)"
      using d by (auto simp: map_of_is_SomeI)
    show ?thesis using routes unfolding ks_def sum_list_sort_key [OF d] e by (simp add: routes_ok_def)
  qed
  have fin: "to_route (finalize_ordering r) = to_route r" "to_pairs (finalize_ordering r) = to_pairs r"
      "to_permutations (finalize_ordering r) = to_permutations r" "to_set_changes (finalize_ordering r) = to_set_changes r"
      "0 < to_pairs r \<Longrightarrow> to_stability_pct (finalize_ordering r) = Some (stable_pct (to_permutations r) (to_pairs r))" for r
    by (simp_all add: finalize_ordering_def)
  have fil: "tl_layer (finalize_layer r) = tl_layer r" "tl_pairs (finalize_layer r) = tl_pairs r"
      "tl_changes (finalize_layer r) = tl_changes r"
      "tl_stability_pct (finalize_layer r) = (if 0 < tl_pairs r then Some (stable_pct (tl_changes r) (tl_pairs r)) else tl_stability_pct r)" for r
    by (simp_all add: finalize_layer_def)
  have rr: "map (to_route \<circ> (\<lambda>k. finalize_ordering (the (dget (tp_routes tp) k)))) ks = ks"
    using row [OF _ refl] by (intro map_idI) (simp add: fin)
  show ?thesis
  proof (cases "?n = 0")
    case True
    then show ?thesis using assms by (simp add: finalize_report_def report_ok_def topology_ok_def pct_ok_def)
  next
    case False
    have e: "finalize_report tp = (tp_report tp)\<lparr>tr_layers := map (finalize_layer \<circ> tp_layers tp) TOPOLOGY_LAYER_ORDER,
        tr_prefix_stability_pct := Some (stable_pct (tr_churn_pairs (tp_report tp)) ?n),
        tr_tool_ordering := map (\<lambda>k. finalize_ordering (the (dget (tp_routes tp) k))) ks\<rparr>"
      using False by (simp add: finalize_report_def Let_def ks_def)
    have "map tl_layer (map (finalize_layer \<circ> tp_layers tp) TOPOLOGY_LAYER_ORDER) = TOPOLOGY_LAYER_ORDER"
      using rows by (auto simp: rows_ok_def fil intro: map_idI)
    moreover have "\<forall>l. tl_changes (tp_layers tp l) \<le> tl_pairs (tp_layers tp l) \<and> tl_pairs (tp_layers tp l) \<le> ?n \<and>
        tl_stability_pct (tp_layers tp l) = None"
      using rows by (simp add: rows_ok_def)
    moreover have "pct_ok None" by (simp add: pct_ok_def)
    moreover have "\<forall>k \<in> set ks. to_permutations (the (dget (tp_routes tp) k)) \<le> to_pairs (the (dget (tp_routes tp) k))"
      using row [OF _ refl] by fastforce
    moreover note row' = row [OF _ refl]
    ultimately show ?thesis
      unfolding e report_ok_def
      using assms False ks(1) total row' stable_pct_range
      by (simp add: topology_ok_def fin fil rr o_def [of to_pairs] add.commute)
  qed
qed

text \<open>C30: The topology report accounts for every pair once. Over the store the pairs are the events less
  the sessions, so no pair joins two sessions; over snapshots they are one less than the snapshots. In
  either report a layer changed at most as often as it was decidable, and was decidable at most once
  per pair; permutations and set changes of a route exclude each other; the pairs of all routes
  together are at most all pairs; and every percentage is between 0 and 100 and present exactly when it
  has a denominator.\<close>

theorem topology_accounting:
  "(report_ok (topology_from_store d limit) \<and>
      tr_total_pairs (topology_from_store d limit) + tr_sessions (topology_from_store d limit) =
        length (recent_events d limit) \<and>
      tr_sessions (topology_from_store d limit) = card (sr_session_hash ` set (recent_events d limit))) \<and>
    report_ok (topology_from_snapshots snaps) \<and>
      tr_total_pairs (topology_from_snapshots snaps) = length snaps - 1"
proof (rule conjI)
  let ?tp = "stored_topology (map snd (churn_list d limit None)) (recent_events d limit)"
  have fin: "tr_total_pairs (finalize_report tp) = tr_total_pairs (tp_report tp)"
      "tr_sessions (finalize_report tp) = tr_sessions (tp_report tp)" for tp
    by (simp_all add: finalize_report_def Let_def)
  have ok: "topology_ok (tr_total_pairs (tp_report ?tp)) ?tp"
      "tr_sessions (tp_report ?tp) = length (by_session (recent_events d limit))"
      "tr_total_pairs (tp_report ?tp) + length (by_session (recent_events d limit)) = length (recent_events d limit)"
    using stored_topology_ok by blast+
  have "report_ok (finalize_report ?tp)" by (rule finalize_ok) (rule ok(1))
  moreover have "length (by_session (recent_events d limit)) = card (sr_session_hash ` set (recent_events d limit))"
    using distinct_card [OF by_session_ok(1)] by (simp add: by_session_keys)
  ultimately show "report_ok (topology_from_store d limit) \<and>
      tr_total_pairs (topology_from_store d limit) + tr_sessions (topology_from_store d limit) =
        length (recent_events d limit) \<and>
      tr_sessions (topology_from_store d limit) = card (sr_session_hash ` set (recent_events d limit))"
    using ok(2,3) by (simp add: topology_from_store_def fin)
  show "report_ok (topology_from_snapshots snaps) \<and>
      tr_total_pairs (topology_from_snapshots snaps) = length snaps - 1"
  proof (cases "length snaps < 2")
    case True
    have "report_ok (finalize_report empty_topology)"
      using finalize_ok [of empty_topology] empty_ok by (simp add: empty_topology_def empty_report_def)
    then show ?thesis
      using True by (auto simp: topology_from_snapshots_def fin empty_topology_def empty_report_def)
  next
    case False
    define tp0 where "tp0 = empty_topology\<lparr>tp_report := empty_report\<lparr>tr_sessions := 1, tr_total_pairs := length snaps - 1\<rparr>\<rparr>"
    have t: "tr_total_pairs (tp_report (fold snapshot_pair (pairwise snaps) tp0)) = length snaps - 1"
      by (simp add: pairs_totals tp0_def)
    have "topology_ok 0 tp0" using empty_ok by (simp add: tp0_def topology_ok_def empty_topology_def empty_report_def)
    from pairs_ok(2) [OF this, of "pairwise snaps"]
    have "topology_ok (length snaps - 1) (fold snapshot_pair (pairwise snaps) tp0)" by (simp add: pairwise_def)
    then have "report_ok (finalize_report (fold snapshot_pair (pairwise snaps) tp0))"
      by (intro finalize_ok) (simp add: t)
    then show ?thesis using False t by (simp add: topology_from_snapshots_def tp0_def fin)
  qed
qed

section \<open>What the stored view attributes\<close>

text \<open>The truth about one pair of requests: which layers differ, and the first content layer that does.\<close>

definition differs :: "layered_hashes \<Rightarrow> layered_hashes \<Rightarrow> layer \<Rightarrow> bool" where
  "differs a b l \<longleftrightarrow> layer_hash a l \<noteq> layer_hash b l"

definition first_differing :: "layered_hashes \<Rightarrow> layered_hashes \<Rightarrow> layer option" where
  "first_differing a b = find (differs a b) CONTENT_LAYER_ORDER"

lemma first_differing_eq:
  "first_differing a b =
    (if differs a b System_prefix then Some System_prefix else if differs a b System_suffix then Some System_suffix
     else if differs a b Tools then Some Tools else if differs a b History then Some History
     else if differs a b History_tail then Some History_tail else None)"
  by (simp add: first_differing_def CONTENT_LAYER_ORDER_def)

text \<open>The status of each sub-layer in closed form.\<close>

lemma sub_layer_status_cases:
  fixes sa sb ha hb :: "string option"
  defines "si \<equiv> sa \<noteq> None \<and> sa = sb" and "hi \<equiv> ha \<noteq> None \<and> ha = hb"
  shows "sub_layer_status sa sb ha hb first System_prefix =
      (if first = Some System_prefix then Some True
       else if first \<in> {Some System_suffix, Some Tools, Some History, Some History_tail} \<or> si then Some False else None)"
    and "sub_layer_status sa sb ha hb first System_suffix =
      (if first = Some System_suffix then Some True
       else if first \<in> {Some Tools, Some History, Some History_tail} \<or> si then Some False else None)"
    and "sub_layer_status sa sb ha hb first History =
      (if first = Some History then Some True
       else if first \<in> {Some History_tail, Some System_prefix, Some System_suffix, Some Tools} \<or> hi then Some False
       else None)"
    and "sub_layer_status sa sb ha hb first History_tail =
      (if first = Some History_tail then Some True
       else if first \<in> {Some System_prefix, Some System_suffix, Some Tools} \<or> hi then Some False else None)"
  unfolding si_def hi_def sub_layer_status_def Let_def by (simp_all, auto)

text \<open>C31: What the stored view attributes to the system prompt is true. When the churn event names the
  first content layer that really differs, or none is known, and equal flat system and history hashes
  mean equal sub-layers, a sub-layer of the system prompt that is counted as changed or unchanged is so.
  For the two history layers it is so unless the history moved together with an earlier layer; then both are counted
  as unchanged whatever happened to them.\<close>

theorem attribution_sound:
  assumes "first = None \<or> first = first_differing a b"
    and "lh_system a = lh_system b \<Longrightarrow> \<not> differs a b System_prefix \<and> \<not> differs a b System_suffix"
    and "lh_history a = lh_history b \<Longrightarrow> \<not> differs a b History \<and> \<not> differs a b History_tail"
    and "sub_layer_status (lh_system a) (lh_system b) (lh_history a) (lh_history b) first l = Some changed"
  shows "(l \<in> {System_prefix, System_suffix} \<longrightarrow> changed = differs a b l) \<and>
    (l \<in> {History, History_tail} \<longrightarrow>
      (if first \<in> {Some System_prefix, Some System_suffix, Some Tools} \<and>
          (lh_history a \<noteq> lh_history b \<or> lh_history a = None) then \<not> changed
       else changed = differs a b l))"
proof (intro conjI impI)
  have first: "first = None \<or> first = first_differing a b" by (rule assms(1))
  show "changed = differs a b l" if "l \<in> {System_prefix, System_suffix}"
    using that first assms(2,4)
    by (auto simp: sub_layer_status_cases first_differing_eq split: if_splits)
  show "if first \<in> {Some System_prefix, Some System_suffix, Some Tools} \<and> (lh_history a \<noteq> lh_history b \<or> lh_history a = None)
      then \<not> changed else changed = differs a b l" if "l \<in> {History, History_tail}"
    using that first assms(3,4)
    by (auto simp: sub_layer_status_cases first_differing_eq split: if_splits)
qed

definition sample_hashes :: "string \<Rightarrow> string \<Rightarrow> layered_hashes" where
  "sample_hashes p h = \<lparr>lh_system_prefix = Some p, lh_system_suffix = Some ''s'', lh_system = Some p,
     lh_tools = Some ''t'', lh_tools_set = Some ''t'', lh_history = Some h, lh_history_prefix = Some h,
     lh_history_tail = Some ''e'', lh_route = None, lh_model = None, lh_cache_key = None\<rparr>"

lemma sample_differs: "differs (sample_hashes p h) (sample_hashes q k) l \<longleftrightarrow> l = System_prefix \<and> p \<noteq> q \<or> l = History \<and> h \<noteq> k"
  by (cases l) (simp_all add: differs_def sample_hashes_def)

theorem attribution_sound_witness:
  "True = differs (sample_hashes ''a'' ''h'') (sample_hashes ''b'' ''h'') System_prefix"
proof -
  let ?a = "sample_hashes ''a'' ''h''" and ?b = "sample_hashes ''b'' ''h''"
  have "Some System_prefix = None \<or> Some System_prefix = first_differing ?a ?b"
    by (simp add: first_differing_eq sample_differs)
  moreover have "lh_system ?a = lh_system ?b \<Longrightarrow> \<not> differs ?a ?b System_prefix \<and> \<not> differs ?a ?b System_suffix"
    by (simp add: sample_hashes_def)
  moreover have "lh_history ?a = lh_history ?b \<Longrightarrow> \<not> differs ?a ?b History \<and> \<not> differs ?a ?b History_tail"
    by (simp add: sample_differs)
  moreover have "sub_layer_status (lh_system ?a) (lh_system ?b) (lh_history ?a) (lh_history ?b)
      (Some System_prefix) System_prefix = Some True"
    by (simp add: sub_layer_status_cases)
  ultimately show ?thesis using attribution_sound [of "Some System_prefix" ?a ?b System_prefix True] by blast
qed

text \<open>
  A history that was rewritten together with a change of the system prompt is counted as unchanged in
  both of its layers: the code takes what lies after the first divergent layer as unchanged, where its
  description calls it unknown.
\<close>

lemma moved_history_counted_unchanged:
  "sub_layer_status (lh_system (sample_hashes ''a'' ''h'')) (lh_system (sample_hashes ''b'' ''k''))
      (lh_history (sample_hashes ''a'' ''h'')) (lh_history (sample_hashes ''b'' ''k''))
      (first_differing (sample_hashes ''a'' ''h'') (sample_hashes ''b'' ''k'')) History = Some False \<and>
   differs (sample_hashes ''a'' ''h'') (sample_hashes ''b'' ''k'') History"
  by (simp add: first_differing_eq sample_differs sub_layer_status_cases)

end
