(* ===== verification/RelayConfig.thy ===== *)
theory RelayConfig
  imports LeaseConfig
begin

text \<open>
  The relay's configuration (\<open>config.py\<close>, with the exit codes of \<open>server.py\<close>'s \<open>main\<close>): the listen
  address, the refusal of wildcard binds, the environment and the explicit arguments. The part of
  \<open>urlsplit\<close> that the validator uses is \<open>url_parts\<close>; the check of the address inside brackets is the
  parameter \<open>bracket_ok\<close>.
\<close>

section \<open>Listen addresses\<close>

definition DEFAULT_LISTEN :: string where "DEFAULT_LISTEN = ''127.0.0.1:8787''"

definition WILDCARD_HOSTS :: "string list" where "WILDCARD_HOSTS = [''0.0.0.0'', ''::'']"

definition is_unicode_digit :: "char \<Rightarrow> bool" where
  \<comment> \<open>\<open>str.isdigit\<close> below code point 256: the superscripts count.\<close>
  "is_unicode_digit c \<longleftrightarrow> is_digit c \<or> code c \<in> {178, 179, 185}"

definition py_isdigit :: "string \<Rightarrow> bool" where
  "py_isdigit s \<longleftrightarrow> s \<noteq> [] \<and> list_all is_unicode_digit s"

definition str_partition :: "char \<Rightarrow> string \<Rightarrow> string \<times> string \<times> string" where
  \<comment> \<open>\<open>s.partition(c)\<close>\<close>
  "str_partition c s = (case span_at (\<lambda>x. x \<noteq> c) s of (a, []) \<Rightarrow> (a, [], []) | (a, x # b) \<Rightarrow> (a, [x], b))"

definition str_rpartition :: "char \<Rightarrow> string \<Rightarrow> string \<times> string \<times> string" where
  \<comment> \<open>\<open>s.rpartition(c)\<close>: without a separator the whole string is the last part.\<close>
  "str_rpartition c s =
     (case span_at (\<lambda>x. x \<noteq> c) (rev s) of (b, []) \<Rightarrow> ([], [], s) | (b, x # a) \<Rightarrow> (rev a, [x], rev b))"

definition listen_port :: "string \<Rightarrow> string \<Rightarrow> py_error + string \<times> int" where
  "listen_port host port_text =
     (if host = [] then Inl ValueError
      else if \<not> py_isdigit port_text then Inl ValueError
      else case py_int_of_string port_text of
        None \<Rightarrow> Inl ValueError
      | Some port \<Rightarrow> if 0 \<le> port \<and> port \<le> 65535 then Inr (host, port) else Inl ValueError)"

definition parse_listen :: "string \<Rightarrow> py_error + string \<times> int" where
  "parse_listen s =
     (let v = py_strip s in
      if starts_with ''['' v
      then (let (host, _, rest) = str_partition (CHR '']'') (tl v)
            in if \<not> starts_with '':'' rest then Inl ValueError else listen_port host (tl rest))
      else (let (host, _, port_text) = str_rpartition (CHR '':'') v in listen_port host port_text))"

section \<open>Upstream URLs\<close>

definition is_alpha :: "char \<Rightarrow> bool" where
  "is_alpha c \<longleftrightarrow> 65 \<le> code c \<and> code c \<le> 90 \<or> 97 \<le> code c \<and> code c \<le> 122"

definition is_scheme_char :: "char \<Rightarrow> bool" where
  "is_scheme_char c \<longleftrightarrow> is_alpha c \<or> is_digit c \<or> c \<in> {CHR ''+'', CHR ''-'', CHR ''.''}"

definition url_parts :: "(string \<Rightarrow> bool) \<Rightarrow> string \<Rightarrow> py_error + string \<times> string" where
  \<comment> \<open>The scheme and the network location of \<open>urlsplit\<close>.\<close>
  "url_parts bracket_ok url =
     (let u = filter (\<lambda>c. code c \<notin> {9, 10, 13}) (dropWhile (\<lambda>c. code c \<le> 32) url);
          (a, sep, b) = str_partition (CHR '':'') u;
          (scheme, rest) = (if sep \<noteq> [] \<and> a \<noteq> [] \<and> is_alpha (hd a) \<and> list_all is_scheme_char a
                            then (py_lower a, b) else ([], u))
      in if starts_with ''//'' rest
         then (let (netloc, _) = span_at (\<lambda>c. c \<notin> {CHR ''/'', CHR ''?'', CHR ''#''}) (drop 2 rest)
               in if (CHR ''['' \<in> set netloc) \<noteq> (CHR '']'' \<in> set netloc) then Inl ValueError
                  else if CHR ''['' \<in> set netloc \<and> \<not> bracket_ok netloc then Inl ValueError
                  else Inr (scheme, netloc))
         else Inr (scheme, []))"

section \<open>The configuration\<close>

record relay_config =
  rc_listen :: string
  rc_upstream :: string
  rc_allow_external_bind :: bool
  rc_telemetry_db_path :: string
  rc_observation_enabled :: bool
  rc_route_intel_enabled :: bool
  rc_churn_detection_enabled :: bool
  rc_route_affinity_enabled :: bool
  rc_extra_cost_usd :: flt
  rc_safety_margin_usd :: flt
  rc_lease_settings :: raw_settings

definition relay_flag :: "string option \<Rightarrow> bool" where
  "relay_flag raw \<longleftrightarrow> (case raw of None \<Rightarrow> False
     | Some s \<Rightarrow> py_lower (py_strip s) \<in> {''1'', ''true'', ''yes'', ''on''})"

definition env_decimal :: "string option \<Rightarrow> flt \<Rightarrow> pyfloat" where
  \<comment> \<open>\<open>max\<close> compares with a NaN by raising, which is caught.\<close>
  "env_decimal raw dflt =
     (case raw of None \<Rightarrow> Fin dflt
      | Some s \<Rightarrow> (case py_decimal_of_string (py_strip s) of
                     None \<Rightarrow> Fin dflt
                   | Some NaN \<Rightarrow> Fin dflt
                   | Some PInf \<Rightarrow> PInf
                   | Some NInf \<Rightarrow> Fin 0
                   | Some (Fin r) \<Rightarrow> Fin (max r 0)))"

definition or_else :: "string option \<Rightarrow> string option \<Rightarrow> string option" where
  \<comment> \<open>\<open>a or b\<close>: an empty string counts as absent.\<close>
  "or_else a b = (case a of Some (c # cs) \<Rightarrow> a | _ \<Rightarrow> b)"

definition finite_usd :: "pyfloat \<Rightarrow> flt option" where
  \<comment> \<open>A \<open>Decimal\<close> field accepts finite numbers only; this one must not be negative.\<close>
  "finite_usd x = (case x of Fin r \<Rightarrow> if 0 \<le> r then Some r else None | _ \<Rightarrow> None)"

definition valid_upstream :: "(string \<Rightarrow> bool) \<Rightarrow> string \<Rightarrow> bool" where
  "valid_upstream bracket_ok u =
     (case url_parts bracket_ok u of Inl e \<Rightarrow> False
      | Inr (scheme, netloc) \<Rightarrow> scheme \<in> {''http'', ''https''} \<and> netloc \<noteq> [])"

definition bind_allowed :: "string \<Rightarrow> bool \<Rightarrow> bool" where
  \<comment> \<open>The address parses, and a wildcard host is explicitly allowed.\<close>
  "bind_allowed listen allow =
     (case parse_listen listen of Inl e \<Rightarrow> False
      | Inr (host, _) \<Rightarrow> host \<notin> set WILDCARD_HOSTS \<or> allow)"

definition mk_relay_config ::
  "(string \<Rightarrow> bool) \<Rightarrow> string \<Rightarrow> string \<Rightarrow> bool \<Rightarrow> string \<Rightarrow> bool \<Rightarrow> bool \<Rightarrow> bool \<Rightarrow> bool \<Rightarrow> pyfloat \<Rightarrow> pyfloat \<Rightarrow>
   raw_settings \<Rightarrow> py_error + relay_config" where
  "mk_relay_config bracket_ok listen upstream allow db watch intel churn affinity extra margin leases =
     (case (finite_usd extra, finite_usd margin) of
        (Some e, Some m) \<Rightarrow>
          if valid_upstream bracket_ok upstream \<and> bind_allowed listen allow
          then Inr \<lparr>rc_listen = listen, rc_upstream = upstream, rc_allow_external_bind = allow,
             rc_telemetry_db_path = db, rc_observation_enabled = watch, rc_route_intel_enabled = intel,
             rc_churn_detection_enabled = churn, rc_route_affinity_enabled = affinity,
             rc_extra_cost_usd = e, rc_safety_margin_usd = m, rc_lease_settings = leases\<rparr>
          else Inl ValidationError
      | _ \<Rightarrow> Inl ValidationError)"

definition relay_from_env ::
  "(string \<Rightarrow> bool) \<Rightarrow> string \<Rightarrow> env \<Rightarrow> string option \<Rightarrow> string option \<Rightarrow> bool option \<Rightarrow> py_error + relay_config" where
  "relay_from_env bracket_ok default_db env listen upstream allow =
     (let effective_listen = opt_or (or_else listen (or_else (env ''CACHEPILOT_RELAY_LISTEN'') None)) DEFAULT_LISTEN;
          effective_upstream = or_else upstream (env ''CACHEPILOT_UPSTREAM'')
      in case effective_upstream of
        None \<Rightarrow> Inl ValueError
      | Some [] \<Rightarrow> Inl ValueError
      | Some u \<Rightarrow>
          res_bind (from_env env) (\<lambda>leases.
            mk_relay_config bracket_ok effective_listen u
              (case allow of Some b \<Rightarrow> b | None \<Rightarrow> relay_flag (env ''CACHEPILOT_RELAY_ALLOW_EXTERNAL_BIND''))
              (opt_or (or_else (env ''CACHEPILOT_TELEMETRY_DB'') None) default_db)
              (relay_flag (Some (opt_or (env ''CACHEPILOT_RELAY_OBSERVATION_ENABLED'') ''true'')))
              (relay_flag (Some (opt_or (env ''CACHEPILOT_ROUTE_INTEL'') ''true'')))
              (relay_flag (Some (opt_or (env ''CACHEPILOT_CHURN_DETECTION_ENABLED'') ''true'')))
              (relay_flag (env ''CACHEPILOT_ROUTE_AFFINITY''))
              (env_decimal (env ''CACHEPILOT_ROUTE_AFFINITY_EXTRA_COST_USD'') 0)
              (env_decimal (env ''CACHEPILOT_ROUTE_AFFINITY_SAFETY_MARGIN_USD'') 0)
              leases))"

section \<open>Parsing a listen address\<close>

lemma span_at_append:
  "(\<forall>x \<in> set xs. p x) \<Longrightarrow> \<not> p y \<Longrightarrow> span_at p (xs @ y # ys) = (xs, y # ys)"
  by (induction xs) auto

lemma span_at_all: "(\<forall>x \<in> set xs. p x) \<Longrightarrow> span_at p xs = (xs, [])"
  by (induction xs) auto

lemma str_partition_append: assumes "c \<notin> set a" shows "str_partition c (a @ c # b) = (a, [c], b)"
proof -
  have "span_at (\<lambda>x. x \<noteq> c) (a @ c # b) = (a, c # b)" using assms by (intro span_at_append) auto
  then show ?thesis by (simp add: str_partition_def)
qed

lemma str_rpartition_append: assumes "c \<notin> set b" shows "str_rpartition c (a @ c # b) = (a, [c], b)"
proof -
  have "span_at (\<lambda>x. x \<noteq> c) (rev b @ c # rev a) = (rev b, c # rev a)" using assms by (intro span_at_append) auto
  then show ?thesis by (simp add: str_rpartition_def)
qed

lemma strip_ends:
  assumes "s \<noteq> []" and "\<not> is_space (hd s)" and "\<not> is_space (last s)"
  shows "py_strip s = s"
proof -
  have d: "dropWhile is_space xs = xs" if "xs \<noteq> []" "\<not> is_space (hd xs)" for xs
    using that by (cases xs) auto
  show ?thesis using d [of s] d [of "rev s"] assms by (simp add: py_strip_def lstrip_def rstrip_by_def hd_rev)
qed

lemma port_text:
  assumes "p \<le> 65535"
  shows "py_isdigit (nat_str p)" and "py_int_of_string (nat_str p) = Some (int p)"
    and "CHR '':'' \<notin> set (nat_str p)" and "\<not> is_space (last (nat_str p))"
proof -
  have d: "list_all is_digit (nat_str p)" "nat_str p \<noteq> []" using nat_str_digits by auto
  then show "py_isdigit (nat_str p)" by (auto simp: py_isdigit_def list_all_iff is_unicode_digit_def)
  have "length (nat_str p) \<le> 5" using assms by (intro length_nat_str) auto
  then show "py_int_of_string (nat_str p) = Some (int p)" by (intro int_of_nat_str) simp
  show "CHR '':'' \<notin> set (nat_str p)" using d(1) by (auto simp: list_all_iff is_digit_def code_def)
  show "\<not> is_space (last (nat_str p))" using d last_in_set [of "nat_str p"] digit_not_space by (auto simp: list_all_iff)
qed

lemma listen_port_ok: "host \<noteq> [] \<Longrightarrow> p \<le> 65535 \<Longrightarrow> listen_port host (nat_str p) = Inr (host, int p)"
  using port_text [of p] by (simp add: listen_port_def)

lemma listen_port_bounds: "listen_port h t = Inr (host, port) \<Longrightarrow> host = h \<and> h \<noteq> [] \<and> 0 \<le> port \<and> port \<le> 65535"
  by (auto simp: listen_port_def split: if_splits option.splits)

lemma parse_listen_bounds: "parse_listen s = Inr (host, port) \<Longrightarrow> host \<noteq> [] \<and> 0 \<le> port \<and> port \<le> 65535"
  by (auto simp: parse_listen_def Let_def split: if_splits prod.splits dest!: listen_port_bounds)

text \<open>A listen address parses to what it names. Of a host that is not empty, does not begin with a
  bracket or a space, and a port up to 65535, the string \<open>host:port\<close> parses back to the two, also when
  the host has colons of its own; inside brackets the host may be any text without a closing bracket.
  What parses has a host and a port in range.\<close>

theorem listen_roundtrip:
  assumes "host \<noteq> []" and "p \<le> 65535"
  shows "(parse_listen s = Inr (h, q) \<longrightarrow> h \<noteq> [] \<and> 0 \<le> q \<and> q \<le> 65535) \<and>
    (hd host \<noteq> CHR ''['' \<and> \<not> is_space (hd host) \<longrightarrow> parse_listen (host @ '':'' @ nat_str p) = Inr (host, int p)) \<and>
    (CHR '']'' \<notin> set host \<longrightarrow> parse_listen (''['' @ host @ '']:'' @ nat_str p) = Inr (host, int p))"
proof (intro conjI impI)
  note port = port_text [OF assms(2)]
  have ne: "nat_str p \<noteq> []" using nat_str_digits [of p] by simp
  show "h \<noteq> []" "0 \<le> q" "q \<le> 65535" if "parse_listen s = Inr (h, q)"
    using parse_listen_bounds [OF that] by auto
  show "parse_listen (host @ '':'' @ nat_str p) = Inr (host, int p)"
    if "hd host \<noteq> CHR ''['' \<and> \<not> is_space (hd host)"
  proof -
    have "py_strip (host @ '':'' @ nat_str p) = host @ '':'' @ nat_str p"
      using that assms(1) ne port(4) by (intro strip_ends) auto
    moreover have "\<not> starts_with ''['' (host @ '':'' @ nat_str p)"
      using that assms(1) by (cases host) (auto simp: starts_with_def)
    ultimately show ?thesis
      using str_rpartition_append [OF port(3), of host] listen_port_ok [OF assms]
      by (simp add: parse_listen_def)
  qed
  show "parse_listen (''['' @ host @ '']:'' @ nat_str p) = Inr (host, int p)" if "CHR '']'' \<notin> set host"
  proof -
    have "py_strip (''['' @ host @ '']:'' @ nat_str p) = ''['' @ host @ '']:'' @ nat_str p"
      using ne port(4) by (intro strip_ends) (auto simp: is_space_def code_def)
    then show ?thesis
      using str_partition_append [OF that, of "'':'' @ nat_str p"] listen_port_ok [OF assms]
      by (simp add: parse_listen_def starts_with_def)
  qed
qed

theorem listen_roundtrip_witness:
  "parse_listen (''::1'' @ '':'' @ nat_str 8787) = Inr (''::1'', int 8787) \<and>
   parse_listen (''['' @ ''::1'' @ '']:'' @ nat_str 8787) = Inr (''::1'', int 8787)"
  using listen_roundtrip [of "''::1''" 8787] by (simp add: is_space_def code_def)

section \<open>What a configuration guarantees\<close>

lemma mk_relay_config_Inr:
  "mk_relay_config bracket_ok listen upstream allow db watch intel churn affinity extra margin leases = Inr c \<longleftrightarrow>
   (\<exists>e m. finite_usd extra = Some e \<and> finite_usd margin = Some m \<and> valid_upstream bracket_ok upstream \<and>
     bind_allowed listen allow \<and>
     c = \<lparr>rc_listen = listen, rc_upstream = upstream, rc_allow_external_bind = allow,
          rc_telemetry_db_path = db, rc_observation_enabled = watch, rc_route_intel_enabled = intel,
          rc_churn_detection_enabled = churn, rc_route_affinity_enabled = affinity,
          rc_extra_cost_usd = e, rc_safety_margin_usd = m, rc_lease_settings = leases\<rparr>)"
  by (auto simp: mk_relay_config_def split: option.splits)

lemma finite_usd_nonneg: "finite_usd x = Some e \<Longrightarrow> 0 \<le> e"
  by (auto simp: finite_usd_def split: pyfloat.splits if_splits)

definition infinite_var :: "env \<Rightarrow> string \<Rightarrow> bool" where
  "infinite_var env k \<longleftrightarrow> (\<exists>s. env k = Some s \<and> py_decimal_of_string (py_strip s) = Some PInf)"

lemma env_decimal_cost: "(\<exists>e. finite_usd (env_decimal (env k) 0) = Some e) \<longleftrightarrow> \<not> infinite_var env k"
  by (auto simp: infinite_var_def env_decimal_def finite_usd_def split: option.splits pyfloat.splits)

lemma bind_allowed_iff:
  "bind_allowed l a \<longleftrightarrow> (\<exists>host port. parse_listen l = Inr (host, port) \<and> (host \<in> {''0.0.0.0'', ''::''} \<longrightarrow> a))"
  by (auto simp: bind_allowed_def WILDCARD_HOSTS_def split: sum.splits)

definition effective_listen :: "env \<Rightarrow> string option \<Rightarrow> string" where
  "effective_listen env listen =
     (case listen of Some (c # cs) \<Rightarrow> c # cs
      | _ \<Rightarrow> (case env ''CACHEPILOT_RELAY_LISTEN'' of Some (c # cs) \<Rightarrow> c # cs | _ \<Rightarrow> ''127.0.0.1:8787''))"

definition effective_allow :: "env \<Rightarrow> bool option \<Rightarrow> bool" where
  "effective_allow env allow =
     (case allow of Some b \<Rightarrow> b | None \<Rightarrow> relay_flag (env ''CACHEPILOT_RELAY_ALLOW_EXTERNAL_BIND''))"

lemma relay_from_env_eq:
  "relay_from_env bracket_ok default_db env listen upstream allow = Inr c \<longleftrightarrow>
   (\<exists>u ls e m. or_else upstream (env ''CACHEPILOT_UPSTREAM'') = Some u \<and> u \<noteq> [] \<and> from_env env = Inr ls \<and>
     finite_usd (env_decimal (env ''CACHEPILOT_ROUTE_AFFINITY_EXTRA_COST_USD'') 0) = Some e \<and>
     finite_usd (env_decimal (env ''CACHEPILOT_ROUTE_AFFINITY_SAFETY_MARGIN_USD'') 0) = Some m \<and>
     valid_upstream bracket_ok u \<and> bind_allowed (effective_listen env listen) (effective_allow env allow) \<and>
     c = \<lparr>rc_listen = effective_listen env listen, rc_upstream = u,
          rc_allow_external_bind = effective_allow env allow,
          rc_telemetry_db_path = opt_or (or_else (env ''CACHEPILOT_TELEMETRY_DB'') None) default_db,
          rc_observation_enabled = relay_flag (Some (opt_or (env ''CACHEPILOT_RELAY_OBSERVATION_ENABLED'') ''true'')),
          rc_route_intel_enabled = relay_flag (Some (opt_or (env ''CACHEPILOT_ROUTE_INTEL'') ''true'')),
          rc_churn_detection_enabled = relay_flag (Some (opt_or (env ''CACHEPILOT_CHURN_DETECTION_ENABLED'') ''true'')),
          rc_route_affinity_enabled = relay_flag (env ''CACHEPILOT_ROUTE_AFFINITY''),
          rc_extra_cost_usd = e, rc_safety_margin_usd = m, rc_lease_settings = ls\<rparr>)"
proof -
  have l: "opt_or (or_else listen (or_else (env ''CACHEPILOT_RELAY_LISTEN'') None)) DEFAULT_LISTEN =
      effective_listen env listen"
    by (auto simp: effective_listen_def or_else_def DEFAULT_LISTEN_def split: option.splits list.splits)
  show ?thesis
    unfolding relay_from_env_def Let_def l effective_allow_def [symmetric]
    by (auto simp: mk_relay_config_Inr split: option.splits list.splits)
qed

text \<open>C32: What the relay refuses to start with. It starts exactly when an upstream is given that is an
  absolute http or https URL, the lease settings load, the listen address parses, its host is not one
  of the two wildcards unless that is allowed, and neither affinity cost is infinite; explicit
  arguments win over the environment and the environment over the defaults. A configuration that loads
  has costs that are not negative.\<close>

theorem relay_config_exact:
  "((\<exists>c. relay_from_env bracket_ok default_db env listen upstream allow = Inr c) \<longleftrightarrow>
      (\<exists>u host port. or_else upstream (env ''CACHEPILOT_UPSTREAM'') = Some u \<and> u \<noteq> [] \<and>
        valid_upstream bracket_ok u \<and> (\<exists>ls. from_env env = Inr ls) \<and>
        parse_listen (effective_listen env listen) = Inr (host, port) \<and>
        (host \<in> {''0.0.0.0'', ''::''} \<longrightarrow> effective_allow env allow) \<and>
        \<not> infinite_var env ''CACHEPILOT_ROUTE_AFFINITY_EXTRA_COST_USD'' \<and>
        \<not> infinite_var env ''CACHEPILOT_ROUTE_AFFINITY_SAFETY_MARGIN_USD'')) \<and>
    (relay_from_env bracket_ok default_db env listen upstream allow = Inr c \<longrightarrow>
      rc_listen c = effective_listen env listen \<and>
      Some (rc_upstream c) = or_else upstream (env ''CACHEPILOT_UPSTREAM'') \<and>
      rc_allow_external_bind c = effective_allow env allow \<and> from_env env = Inr (rc_lease_settings c) \<and>
      0 \<le> rc_extra_cost_usd c \<and> 0 \<le> rc_safety_margin_usd c)"
proof (rule conjI)
  show "(\<exists>c. relay_from_env bracket_ok default_db env listen upstream allow = Inr c) \<longleftrightarrow>
      (\<exists>u host port. or_else upstream (env ''CACHEPILOT_UPSTREAM'') = Some u \<and> u \<noteq> [] \<and>
        valid_upstream bracket_ok u \<and> (\<exists>ls. from_env env = Inr ls) \<and>
        parse_listen (effective_listen env listen) = Inr (host, port) \<and>
        (host \<in> {''0.0.0.0'', ''::''} \<longrightarrow> effective_allow env allow) \<and>
        \<not> infinite_var env ''CACHEPILOT_ROUTE_AFFINITY_EXTRA_COST_USD'' \<and>
        \<not> infinite_var env ''CACHEPILOT_ROUTE_AFFINITY_SAFETY_MARGIN_USD'')"
    unfolding relay_from_env_eq env_decimal_cost [symmetric] bind_allowed_iff by blast
qed (auto simp: relay_from_env_eq dest: finite_usd_nonneg)

theorem relay_config_exact_witness:
  "\<exists>c. relay_from_env (\<lambda>_. True) ''/db'' (\<lambda>_. None) (Some ''[::]:80'') (Some ''https://api.example/v1'') (Some True) = Inr c \<and>
     rc_listen c = ''[::]:80'' \<and> rc_allow_external_bind c"
proof -
  have l: "parse_listen ''[::]:80'' = Inr (''::'', 80)" by code_simp
  have u: "valid_upstream (\<lambda>_. True) ''https://api.example/v1''" by code_simp
  have "\<exists>c. relay_from_env (\<lambda>_. True) ''/db'' (\<lambda>_. None) (Some ''[::]:80'')
      (Some ''https://api.example/v1'') (Some True) = Inr c"
    using relay_config_exact [of "\<lambda>_. True" "''/db''" "\<lambda>_. None" "Some ''[::]:80''"
        "Some ''https://api.example/v1''" "Some True"] l u from_env_unset
    by (simp add: or_else_def effective_listen_def effective_allow_def infinite_var_def)
  then obtain c where c: "relay_from_env (\<lambda>_. True) ''/db'' (\<lambda>_. None) (Some ''[::]:80'')
      (Some ''https://api.example/v1'') (Some True) = Inr c" by blast
  then have "rc_listen c = effective_listen (\<lambda>_. None) (Some ''[::]:80'') \<and>
      rc_allow_external_bind c = effective_allow (\<lambda>_. None) (Some True)"
    using relay_config_exact [of "\<lambda>_. True" "''/db''" "\<lambda>_. None" "Some ''[::]:80''"
        "Some ''https://api.example/v1''" "Some True" c] by blast
  then show ?thesis using c by (auto simp: effective_listen_def effective_allow_def)
qed

text \<open>
  The refusal compares the text of the host. Another spelling of the wildcard address, which the
  operating system binds just the same, is let through, and an infinite affinity cost stops the relay
  although malformed values are meant to fall back.
\<close>

lemma wildcard_alias_accepted: "bind_allowed ''0:8787'' False \<and> bind_allowed ''[::0]:8787'' False"
  by (intro conjI; code_simp)

lemma infinite_cost_stops_relay:
  assumes "env ''CACHEPILOT_ROUTE_AFFINITY_EXTRA_COST_USD'' = Some ''Infinity''"
  shows "relay_from_env bracket_ok default_db env listen upstream allow \<noteq> Inr c"
proof -
  have "py_decimal_of_string (py_strip ''Infinity'') = Some PInf" by code_simp
  then have "infinite_var env ''CACHEPILOT_ROUTE_AFFINITY_EXTRA_COST_USD''"
    using assms by (auto simp: infinite_var_def)
  then show ?thesis unfolding relay_from_env_eq using env_decimal_cost by fastforce
qed

section \<open>The exit code\<close>

datatype serve_result = Served | Interrupted | Listen_in_use

datatype main_result = Exit int | Crash py_error

definition relay_main ::
  "(string \<Rightarrow> bool) \<Rightarrow> string \<Rightarrow> env \<Rightarrow> string option \<Rightarrow> string option \<Rightarrow> bool option \<Rightarrow>
   (relay_config \<Rightarrow> serve_result) \<Rightarrow> main_result" where
  \<comment> \<open>A pydantic \<open>ValidationError\<close> is a \<open>ValueError\<close>; nothing else is caught.\<close>
  "relay_main bracket_ok default_db env listen upstream allow serve =
     (case relay_from_env bracket_ok default_db env listen upstream allow of
        Inl e \<Rightarrow> if e \<in> {ValueError, ValidationError} then Exit 2 else Crash e
      | Inr c \<Rightarrow> if serve c = Listen_in_use then Exit 2 else Exit 0)"

lemma nan_budget_crashes_main:
  assumes "env ''CACHEPILOT_ECONOMICS_BUDGET_RATIO'' = Some ''nan''" and "or_else upstream (env ''CACHEPILOT_UPSTREAM'') = Some (c # cs)"
  shows "relay_main bracket_ok default_db env listen upstream allow serve = Crash InvalidOperation"
proof -
  have "py_decimal_of_string (py_strip ''nan'') = Some NaN" by code_simp
  then have "from_env env = Inl InvalidOperation"
    using assms(1) by (simp add: from_env_def env_bounded_def)
  then show ?thesis using assms(2) by (simp add: relay_main_def relay_from_env_def)
qed

end
