(* ===== verification/Views.thy ===== *)
theory Views
  imports Topology RelayConfig
begin

text \<open>
  What the command line (\<open>main.py\<close>, \<open>churn.py\<close> of the CLI) prints and what the two readers of the
  telemetry database share. A command is the list of the lines it writes to standard output, as the
  bytes of UTF-8; the database is absent (\<open>None\<close>) when the file is missing, corrupt or of another
  schema. The rendering of a time stamp, \<open>repr\<close>, the answer of the health probe and \<open>json.loads\<close> are
  parameters. Hashes and lease ids, which are cut to a prefix, are ASCII. The lemmas are the
  honesty of the views: an absent database reads as an empty one.
\<close>

section \<open>Formatting\<close>

definition py_len :: "string \<Rightarrow> nat" where
  \<comment> \<open>The number of characters: every byte of the UTF-8 form but the continuation bytes.\<close>
  "py_len s = length (filter (\<lambda>c. code c div 64 \<noteq> 2) s)"

definition ljust :: "nat \<Rightarrow> string \<Rightarrow> string" where
  \<comment> \<open>\<open>f"{s:<n}"\<close>\<close>
  "ljust n s = s @ replicate (n - py_len s) (CHR '' '')"

definition rjust :: "nat \<Rightarrow> string \<Rightarrow> string" where
  "rjust n s = replicate (n - py_len s) (CHR '' '') @ s"

definition fmt_fixed :: "nat \<Rightarrow> rat \<Rightarrow> string" where
  \<comment> \<open>\<open>f"{x:.nf}"\<close>\<close>
  "fmt_fixed n r =
     (let v = round_half_even (\<bar>r\<bar> * 10 ^ n);
          whole = nat_str (nat (v div 10 ^ n));
          frac = zero_fill n (nat_str (nat (v mod 10 ^ n)))
      in (if r < 0 then ''-'' else []) @ whole @ (if n = 0 then [] else ''.'' @ frac))"

fun group_rev :: "string \<Rightarrow> string" where
  \<comment> \<open>A comma after every third digit, on the reversed digits.\<close>
  "group_rev (a # b # c # d # ds) = a # b # c # CHR '','' # group_rev (d # ds)"
| "group_rev ds = ds"

definition fmt_grouped :: "int \<Rightarrow> string" where
  \<comment> \<open>\<open>f"{n:,}"\<close>\<close>
  "fmt_grouped i = (if i < 0 then ''-'' else []) @ rev (group_rev (rev (nat_str (nat \<bar>i\<bar>))))"

definition ELLIPSIS :: string where
  "ELLIPSIS = map char_of [226 :: nat, 128, 166]"

definition ARROW :: string where
  "ARROW = map char_of [226 :: nat, 134, 146]"

definition DASH :: string where
  "DASH = map char_of [226 :: nat, 128, 148]"

definition SECTION_SIGN :: string where
  "SECTION_SIGN = map char_of [194 :: nat, 167]"

section \<open>Churn rows\<close>

definition CHURN_LAYERS :: "(string \<times> (churn_event \<Rightarrow> bool)) list" where
  "CHURN_LAYERS = [(''system'', ce_system_changed), (''tools'', ce_tools_changed), (''history'', ce_history_changed),
     (''route'', ce_route_changed), (''cache key'', ce_cache_key_changed), (''model'', ce_model_changed)]"

definition count_cause :: "(string, nat) dict \<Rightarrow> churn_event \<Rightarrow> (string, nat) dict" where
  "count_cause d e =
     (case ce_likely_cause e of
        None \<Rightarrow> d
      | Some c \<Rightarrow> if c = [] then d else dset d c (opt_or (dget d c) 0 + 1))"

definition most_common :: "nat \<Rightarrow> (string, nat) dict \<Rightarrow> (string \<times> nat) list" where
  \<comment> \<open>\<open>Counter.most_common\<close>: by falling count, ties in the order of first appearance.\<close>
  "most_common n d = take n (sort_key (\<lambda>(c, k). - int k) d)"

definition top_causes :: "churn_event list \<Rightarrow> (string \<times> nat) list" where
  "top_causes es = most_common 5 (foldl count_cause [] es)"

section \<open>Relay and plugin state\<close>

datatype probe_answer = Http_error | No_answer | Response int "byte list"

definition is_relay_health_body :: "(byte list \<Rightarrow> json option) \<Rightarrow> byte list \<Rightarrow> bool" where
  "is_relay_health_body loads body =
     (case loads body of Some (JObj kvs) \<Rightarrow> json_field ''service'' kvs = JStr ''cachepilot-relay'' | _ \<Rightarrow> False)"

definition probe_verdict :: "(byte list \<Rightarrow> json option) \<Rightarrow> probe_answer \<Rightarrow> string" where
  "probe_verdict loads a =
     (case a of
        Http_error \<Rightarrow> ''occupied by another service''
      | No_answer \<Rightarrow> ''unreachable''
      | Response status body \<Rightarrow>
          if status = 200 \<and> is_relay_health_body loads body then ''healthy'' else ''occupied by another service'')"

definition probe_url :: "string \<Rightarrow> int \<Rightarrow> string" where
  "probe_url host port =
     ''http://'' @ (if CHR '':'' \<in> set host then ''['' @ host @ '']'' else host) @ '':'' @ int_str port @ ''/cachepilot/health''"

definition cli_relay_health ::
  "(byte list \<Rightarrow> json option) \<Rightarrow> (string \<Rightarrow> string) \<Rightarrow> env \<Rightarrow> (string \<Rightarrow> probe_answer) \<Rightarrow> string" where
  "cli_relay_health loads py_repr env probe =
     (let listen = opt_or (or_else (env ''CACHEPILOT_RELAY_LISTEN'') None) DEFAULT_LISTEN in
      case parse_listen listen of
        Inl e \<Rightarrow> ''unreachable (invalid CACHEPILOT_RELAY_LISTEN='' @ py_repr listen @ '')''
      | Inr (host, port) \<Rightarrow> probe_verdict loads (probe (probe_url host port)))"

definition plugin_state :: "env \<Rightarrow> nat \<Rightarrow> string" where
  "plugin_state env total_requests =
     (if py_lower (py_strip (opt_or (env ''CACHEPILOT_ENABLED'') ''true'')) \<notin> {''1'', ''true'', ''yes'', ''on''}
      then ''inactive (CACHEPILOT_ENABLED=false)''
      else if 0 < total_requests then ''active''
      else ''active (no telemetry recorded yet)'')"

section \<open>Commands\<close>

definition churn_line :: "(timestamp \<Rightarrow> string) \<Rightarrow> churn_event \<Rightarrow> string" where
  "churn_line when c = when (ce_timestamp c) @ '' UTC prev='' @ take 12 (ce_previous_cache_fingerprint c) @ ELLIPSIS @
     '' new='' @ take 12 (ce_new_cache_fingerprint c) @ ELLIPSIS"

definition hit_rate_line :: "health_stats \<Rightarrow> string" where
  "hit_rate_line s =
     (case hit_rate s of
        None \<Rightarrow> ''  cache hit rate      n/a (no cache telemetry observed)''
      | Some r \<Rightarrow> ''  cache hit rate      '' @ fmt_fixed 1 (r * 100) @ ''% ('' @ nat_str (confirmed_hits s) @
          '' hits / '' @ nat_str (telemetry_observed s) @ '' with telemetry)'')"

definition most_recent :: "(timestamp \<Rightarrow> string) \<Rightarrow> (int \<times> churn_event) list \<Rightarrow> string list" where
  "most_recent when cs = (case cs of [] \<Rightarrow> [] | (i, c) # _ \<Rightarrow> [''    most recent       '' @ churn_line when c])"

definition cmd_status ::
  "string \<Rightarrow> string \<Rightarrow> env \<Rightarrow> (timestamp \<Rightarrow> string) \<Rightarrow> db option \<Rightarrow> string list" where
  "cmd_status version relay env when store =
     (let stats = (case store of None \<Rightarrow> empty_stats | Some d \<Rightarrow> aggregates d);
          churn = (case store of None \<Rightarrow> [] | Some d \<Rightarrow> churn_list d 1 None);
          routes = (case store of None \<Rightarrow> [] | Some d \<Rightarrow> route_changes_list d 1);
          head = [''CachePilot '' @ version, [], ''Mode: relay'', ''Relay: '' @ relay,
                  ''Hermes plugin: '' @ plugin_state env (total stats), [], ''Cache health (telemetry):'']
      in if total stats = 0 then head @ [''  no telemetry recorded yet'']
         else head @ [''  requests            '' @ nat_str (total stats), hit_rate_line stats,
                ''  CONFIRMED_HIT       '' @ nat_str (confirmed_hits stats),
                ''  MISS_REBUILT        '' @ nat_str (misses stats),
                ''  SUCCESS_UNVERIFIED  '' @ nat_str (unverified stats),
                ''  FAILED              '' @ nat_str (failed stats),
                ''  churn events        '' @ nat_str (churn_events stats)] @ most_recent when churn @
              [''  route-change churn events '' @ nat_str (route_changes stats)] @ most_recent when routes @
              [''  route-change churn events = churn events attributed to a route change'' @
               '' (churn_events.route_changed); all observed switches: cachepilot routes''])"

definition TERMINAL_LEASE_STATES :: "string list" where
  "TERMINAL_LEASE_STATES = [''inactive'', ''invalidated'']"

definition upper_char :: "char \<Rightarrow> char" where
  "upper_char c = (if 97 \<le> code c \<and> code c \<le> 122 then char_of (code c - 32) else c)"

definition lease_age :: "flt \<Rightarrow> stored_lease \<Rightarrow> string" where
  "lease_age now l =
     (case sl_last_cache_touch_at l of
        None \<Rightarrow> ''n/a''
      | Some t \<Rightarrow> int_str (max 0 (trunc_rat (now - t))) @ ''s'')"

definition lease_line :: "flt \<Rightarrow> stored_lease \<Rightarrow> string" where
  "lease_line now l = ljust 10 (take 8 (sl_lease_id l)) @ '' '' @ ljust 9 (nat_str (length (sl_active_targets l))) @ '' '' @
     ljust 11 (lease_age now l) @ '' '' @ ljust 8 (int_str (trunc_rat (sl_estimated_ttl_s l)) @ ''s'') @ '' '' @
     map upper_char (sl_state l)"

definition shown_leases :: "bool \<Rightarrow> db \<Rightarrow> stored_lease list" where
  "shown_leases show_all d =
     filter (\<lambda>l. show_all \<or> py_lower (sl_state l) \<notin> set TERMINAL_LEASE_STATES) (map snd (list_leases d 50))"

definition cmd_leases :: "flt \<Rightarrow> bool \<Rightarrow> db option \<Rightarrow> string list" where
  "cmd_leases now show_all store =
     (case store of
        None \<Rightarrow> [''no active leases'']
      | Some d \<Rightarrow>
          if shown_leases show_all d = [] then [''no active leases'']
          else (ljust 10 ''LEASE'' @ '' '' @ ljust 9 ''TARGETS'' @ '' '' @ ljust 11 ''CACHE AGE'' @ '' '' @
                ljust 8 ''TTL'' @ '' STATE'') # map (lease_line now) (shown_leases show_all d))"

definition cmd_costs :: "db option \<Rightarrow> string list" where
  "cmd_costs store =
     (let totals = (case store of None \<Rightarrow> [] | Some d \<Rightarrow> cost_totals d);
          width = foldl max 0 (map (py_len \<circ> fst) totals)
      in [''Recorded costs (from request_events telemetry)'',
          ''  NOTE: recorded-cost-only '' @ DASH @ '' cost data are incomplete; net savings are unknown (PRD '' @
            SECTION_SIGN @ ''79)'',
          ''  total recorded      $'' @ fmt_fixed 6 (sum_list (map snd totals))] @
         (if totals = [] then []
          else ''  by provider:'' # map (\<lambda>p. ''    '' @ ljust width p @ ''  $'' @ fmt_fixed 6 (the (dget totals p)))
                 (sort (map fst totals))))"

definition short_hash :: "string option \<Rightarrow> string" where
  "short_hash v = (case v of Some (c # cs) \<Rightarrow> take 12 (c # cs) @ ELLIPSIS | _ \<Rightarrow> ''none'')"

definition ttl_value :: "flt option \<Rightarrow> string" where
  "ttl_value v = (case v of None \<Rightarrow> ''unknown'' | Some x \<Rightarrow> fmt_fixed 0 x @ ''s'')"

definition survival_lines :: "db \<Rightarrow> ttl_profile \<Rightarrow> string list" where
  "survival_lines d p =
     (let curve = curve_from_profile d p;
          n = ''(n='' @ int_str (sc_sample_count curve) @ '' clean observations)''
      in if curve_empty curve then [''  survival      no clean observations yet'']
         else (case Option.bind (tp_estimated_ttl_s p) (survival_at curve) of
                 None \<Rightarrow> ''  survival      P(survive) n/a '' @ DASH @ '' beyond observed horizon '' @ n
               | Some q \<Rightarrow> ''  survival      P(survive at TTL) = '' @ fmt_fixed 2 q @ '' '' @ n) #
              (case median_survival_s curve of
                 None \<Rightarrow> [] | Some m \<Rightarrow> [''  median        '' @ fmt_fixed 0 m @ ''s'']))"

definition profile_lines :: "db \<Rightarrow> ttl_profile \<Rightarrow> string list" where
  "profile_lines d p =
     [''Route: '' @ tp_provider p @ '' | '' @ tp_model p @ '' | '' @ tp_api_mode p,
      ''  endpoint      '' @ short_hash (Some (tp_endpoint_hash p)),
      ''  route         '' @ short_hash (tp_route_hash p),
      ''  estimated     '' @ ttl_value (tp_estimated_ttl_s p),
      ''  lower bound   '' @ ttl_value (lower_bound_s p),
      ''  upper bound   '' @ ttl_value (upper_bound_s p),
      ''  confidence    '' @ fmt_fixed 2 (confidence p),
      ''  samples       '' @ int_str (sample_count p)] @ survival_lines d p"

definition cmd_ttl :: "db option \<Rightarrow> string list" where
  "cmd_ttl store =
     (let profiles = (case store of None \<Rightarrow> [] | Some d \<Rightarrow> list_profiles d 100)
      in case store of
        None \<Rightarrow> [''no TTL profiles yet (learning needs repeated observations of a stable route)'']
      | Some d \<Rightarrow>
          if profiles = [] then [''no TTL profiles yet (learning needs repeated observations of a stable route)'']
          else [''TTL profiles (route-keyed, PRD '' @ SECTION_SIGN @ ''82)'', []] @ concat (map (profile_lines d) profiles))"

definition or_na :: "string option \<Rightarrow> string" where
  "or_na v = opt_or (or_else v None) ''n/a''"

definition route_lines :: "(timestamp \<Rightarrow> string) \<Rightarrow> route_change_event \<Rightarrow> string list" where
  "route_lines when e =
     (let r = re_identity e in
      [when (re_timestamp e) @ '' UTC  verdict='' @ verdict_value (re_verdict e),
       ''  route      '' @ short_hash (re_previous_route_hash e) @ '' -> '' @ short_hash (re_new_route_hash e),
       ''  gateway    '' @ or_na (ri_gateway r),
       ''  upstream   '' @ or_na (ri_upstream_provider r),
       ''  endpoint   '' @ or_na (ri_endpoint r),
       ''  region     '' @ or_na (ri_region r),
       ''  deployment '' @ or_na (ri_deployment r)])"

definition NO_ROUTES :: string where
  "NO_ROUTES = ''no observed route changes yet (route intelligence records switches between repeated logical requests)''"

definition cmd_routes :: "(timestamp \<Rightarrow> string) \<Rightarrow> db option \<Rightarrow> string list" where
  "cmd_routes when store =
     (case store of
        None \<Rightarrow> [NO_ROUTES]
      | Some d \<Rightarrow>
          (let events = map snd (recent_route_events d 100); stats = route_intel_stats_of d
           in if events = [] then [NO_ROUTES]
              else [''Observed routes (PRD '' @ SECTION_SIGN @ ''71 identity, UC-5 instability)'', []] @
                   concat (map (route_lines when) events) @
                   [[], ''route switches        '' @ nat_str (rs_route_switches stats)] @
                   (case rs_last_switch_at stats of
                      None \<Rightarrow> [] | Some t \<Rightarrow> [''last switch           '' @ when t @ '' UTC'']) @
                   [''instability verdicts  '' @ nat_str (rs_instability_verdicts stats),
                    ''short-TTL verdicts    '' @ nat_str (rs_short_ttl_verdicts stats)]))"

definition cmd_churn :: "nat \<Rightarrow> db option \<Rightarrow> string list" where
  "cmd_churn limit store =
     (let events = (case store of None \<Rightarrow> [] | Some d \<Rightarrow> map snd (churn_list d limit None)) in
      if events = [] then [''no churn events'']
      else [''Cache churn (last '' @ nat_str (length events) @ '' churn events, PRD '' @ SECTION_SIGN @ ''25 detector)'', [],
            ''Per-layer change frequency:''] @
           map (\<lambda>(label, f). ''  '' @ ljust 12 label @ '' '' @ changed_frequency (map f events) ''churn events'') CHURN_LAYERS @
           (if top_causes events = [] then []
            else [[], ''Most common likely causes:''] @
                 map (\<lambda>(c, k). ''  '' @ rjust 3 (nat_str k) @ ''  '' @ c) (top_causes events)))"

definition stable_labels :: "churn_event \<Rightarrow> string list" where
  "stable_labels e = map fst (filter (\<lambda>(label, f). \<not> f e) CHURN_LAYERS)"

definition changed_labels :: "churn_event \<Rightarrow> string list" where
  "changed_labels e = map fst (filter (\<lambda>(label, f). f e) CHURN_LAYERS)"

definition explanation_lines :: "(timestamp \<Rightarrow> string) \<Rightarrow> int \<Rightarrow> churn_event \<Rightarrow> string list" where
  "explanation_lines when i e =
     [''Cache miss '' @ DASH @ '' churn event #'' @ int_str i @ '' ('' @ when (ce_timestamp e) @ '' UTC)'',
      ''  session        '' @ or_na (ce_session_hash e),
      ''  cache key      '' @ take 12 (ce_previous_cache_fingerprint e) @ ELLIPSIS @ '' '' @ ARROW @ '' '' @
        take 12 (ce_new_cache_fingerprint e) @ ELLIPSIS, []] @
     (if stable_labels e = [] then [''Stable: (none)''] else ''Stable:'' # map ((@) ''  '') (stable_labels e)) @
     (if changed_labels e = [] then [] else [] # ''Changed:'' # map ((@) ''  '') (changed_labels e)) @
     [[], ''Likely cause:'', ''  '' @ opt_or (or_else (ce_likely_cause e) None) ''n/a (not classified)'',
      ''Confidence:'', ''  '' @ (case ce_confidence e of None \<Rightarrow> ''n/a'' | Some c \<Rightarrow> fmt_fixed 2 c),
      ''Estimated reusable prefix lost:'',
      ''  '' @ (case ce_estimated_prefix_loss_tokens e of
                None \<Rightarrow> ''n/a (previous request content unavailable)'' | Some n \<Rightarrow> ''~'' @ int_str n @ '' tokens'')] @
     (case (ce_first_divergent_offset e, ce_first_divergent_layer e) of
        (Some off, Some l) \<Rightarrow> [''First divergent byte:'', ''  offset ~'' @ int_str off @ '' within '' @ [CHR 0x27] @ l @ [CHR 0x27]]
      | _ \<Rightarrow> [])"

definition nothing_to_explain :: "string option \<Rightarrow> string" where
  "nothing_to_explain session =
     (case session of
        Some (c # cs) \<Rightarrow> ''no churn events recorded for this session '' @ DASH @ '' nothing to explain''
      | _ \<Rightarrow> ''no churn events recorded '' @ DASH @ '' nothing to explain'')"

definition cmd_explain_miss :: "(timestamp \<Rightarrow> string) \<Rightarrow> string option \<Rightarrow> db option \<Rightarrow> string list" where
  "cmd_explain_miss when session store =
     (case (case store of None \<Rightarrow> [] | Some d \<Rightarrow> churn_list d 1 session) of
        [] \<Rightarrow> [nothing_to_explain session]
      | (i, e) # _ \<Rightarrow> explanation_lines when i e)"

definition pct_text :: "flt option \<Rightarrow> string" where
  "pct_text v = (case v of None \<Rightarrow> ''n/a'' | Some x \<Rightarrow> fmt_fixed 1 x @ ''%'')"

definition loss_text :: "int option \<Rightarrow> string" where
  "loss_text v = (case v of None \<Rightarrow> ''n/a'' | Some n \<Rightarrow> ''~'' @ fmt_grouped n @ '' tokens'')"

definition layer_line :: "layer_stats \<Rightarrow> string" where
  "layer_line r = ''  '' @ ljust 24 (layer_name (tl_layer r)) @ '' '' @ ljust 34 (tl_change_frequency r) @ '' '' @
     ljust 10 (pct_text (tl_stability_pct r)) @ '' '' @ loss_text (tl_loss r) @ (if tl_attribution_based r then ''*'' else '' '')"

definition ordering_line :: "ordering_stats \<Rightarrow> string" where
  "ordering_line r = ''  '' @ ljust 16 (short_hash (to_route r)) @ '' '' @ ljust 7 (nat_str (to_pairs r)) @ '' '' @
     ljust 13 (nat_str (to_set_changes r)) @ '' '' @ ljust 20 (nat_str (to_permutations r)) @ '' '' @ pct_text (to_stability_pct r)"

definition NOTHING_TO_MEASURE :: string where
  "NOTHING_TO_MEASURE = ''no consecutive request pairs recorded yet '' @ DASH @ '' nothing to measure''"

definition cmd_topology :: "nat \<Rightarrow> db option \<Rightarrow> string list" where
  "cmd_topology limit store =
     (case store of
        None \<Rightarrow> [NOTHING_TO_MEASURE]
      | Some d \<Rightarrow>
          (let r = topology_from_store d limit in
           if tr_total_pairs r = 0 then [NOTHING_TO_MEASURE]
           else
             [''Cache topology (PRD '' @ SECTION_SIGN @ ''24/'' @ SECTION_SIGN @ ''138 measurement view) '' @ DASH @
                '' last '' @ nat_str limit @ '' requests'', [],
              ''  sessions                  '' @ nat_str (tr_sessions r),
              ''  consecutive pairs         '' @ nat_str (tr_total_pairs r),
              ''  cache fingerprint churn   '' @ nat_str (tr_churn_pairs r) @ ''  (prefix stability '' @
                pct_text (tr_prefix_stability_pct r) @ '')''] @
             (if tr_attribution_gaps r = 0 then []
              else [''  attribution gaps          '' @ nat_str (tr_attribution_gaps r) @
                    ''  (system/history churn without layered attribution)'']) @
             (if tr_unattributed_loss r = 0 then []
              else [''  unattributed loss         ~'' @ fmt_grouped (tr_unattributed_loss r) @ '' tokens'']) @
             [[], ''Per-layer change frequency (consecutive request pairs):'',
              ''  '' @ ljust 24 ''layer'' @ '' '' @ ljust 34 ''changed'' @ '' '' @ ljust 10 ''stability'' @ '' est. prefix loss''] @
             map layer_line (tr_layers r) @
             (if list_ex tl_attribution_based (tr_layers r)
              then [[], ''  * layered sub-layer rows are attributed from classified churn'',
                    ''    events (exact layered hashes are memory-only, PRD '' @ SECTION_SIGN @ ''30)'']
              else []) @
             [[], ''Tool-schema ordering stability (per route):'',
              ''  '' @ ljust 16 ''route'' @ '' '' @ ljust 7 ''pairs'' @ '' '' @ ljust 13 ''set changes'' @ '' '' @
                ljust 20 ''order permutations'' @ '' stability''] @
             (if tr_tool_ordering r = []
              then [''  no decidable tool-set pairs recorded (tools_set_hash missing on pre-P11 rows)''] else []) @
             map ordering_line (tr_tool_ordering r)))"

section \<open>A printed number parses back\<close>

lemma round_half_even_minus: "round_half_even (- x) = - round_half_even x"
proof (cases "x = of_int \<lfloor>x\<rfloor>")
  case True
  then obtain i where "x = of_int i" by blast
  then show ?thesis using round_half_even_of_int [of i] round_half_even_of_int [of "- i"] by simp
next
  case False
  define f where "f = \<lfloor>x\<rfloor>"
  have "of_int f \<le> x" "x < of_int f + 1" unfolding f_def using floor_correct [of x] by simp_all
  moreover have "x \<noteq> of_int f" using False by (simp add: f_def)
  ultimately have b: "of_int f < x" "x < of_int f + 1" by auto
  then have g: "\<lfloor>- x\<rfloor> = - f - 1" by (simp add: floor_eq_iff)
  have fx: "\<lfloor>x\<rfloor> = f" by (simp add: f_def)
  show ?thesis unfolding round_half_even_def Let_def g fx using b by auto
qed

lemma parse_fixed:
  assumes "list_all is_digit a" and "a \<noteq> []" and "list_all is_digit b" and "b \<noteq> []"
  shows "parse_unsigned (a @ ''.'' @ b) = Some (of_int (digits_val 0 (a @ b)) / 10 ^ length b)"
proof -
  have dot: "\<not> is_dig_or_us (CHR ''.'')" by (simp add: is_dig_or_us_def is_digit_def code_def)
  have d: "\<forall>x \<in> set xs. is_dig_or_us x" if "list_all is_digit xs" for xs
    using that by (auto simp: list_all_iff is_dig_or_us_def)
  have s: "span_at is_dig_or_us (a @ CHR ''.'' # b) = (a, CHR ''.'' # b)" "span_at is_dig_or_us b = (b, [])"
    using d [OF assms(1)] d [OF assms(3)] dot by (auto intro: span_at_append span_at_all)
  have g: "opt_groups a = Some a" "opt_groups b = Some b"
    using assms by (simp_all add: opt_groups_def digit_groups_digits)
  show ?thesis
    using assms(2,4) by (simp add: parse_unsigned_def s g parse_exponent_def pow10_def code_def nat_minus_as_int)
qed

lemma fmt_fixed_parses:
  assumes "0 < n"
  shows "py_decimal_of_string (fmt_fixed n r) = Some (Fin (round_to n r))"
proof -
  define v where "v = round_half_even (\<bar>r\<bar> * 10 ^ n)"
  have v0: "0 \<le> v" unfolding v_def using round_half_even_mono [of 0 "\<bar>r\<bar> * 10 ^ n"] round_half_even_of_int [of 0] by simp
  define a where "a = nat_str (nat (v div 10 ^ n))"
  define b where "b = zero_fill n (nat_str (nat (v mod 10 ^ n)))"
  have m: "nat (v mod 10 ^ n) < 10 ^ n" by (simp add: nat_less_iff)
  note z = zero_fill_facts [OF m assms]
  have a: "list_all is_digit a" "a \<noteq> []" using nat_str_digits by (auto simp: a_def)
  have b: "list_all is_digit b" "b \<noteq> []" "length b = n" using z assms by (auto simp: b_def)
  have val: "digits_val 0 (a @ b) = v"
  proof -
    have "0 \<le> v div 10 ^ n" using v0 by (simp add: pos_imp_zdiv_nonneg_iff)
    then show ?thesis
      using z(3) div_mult_mod_eq [of v "10 ^ n"] b(3)
      by (simp add: digits_val_append) (simp add: a_def b_def digits_val_nat_str)
  qed
  have ab: "fmt_fixed n r = (if r < 0 then ''-'' else []) @ a @ ''.'' @ b"
    using assms by (simp add: fmt_fixed_def Let_def a_def b_def v_def)
  have ne: "\<forall>x \<in> set (a @ ''.'' @ b). code x \<noteq> 95 \<and> \<not> is_space x \<and> code x < 58"
    using a(1) b(1) by (auto simp: list_all_iff is_digit_def is_space_def code_def)
  have strip: "py_strip (fmt_fixed n r) = fmt_fixed n r"
    using a(2) b(2) ne by (intro strip_ends) (auto simp: ab is_space_def code_def hd_append dest: hd_in_set last_in_set)
  have flt: "filter (\<lambda>c. code c \<noteq> 95) (fmt_fixed n r) = fmt_fixed n r"
    using ne by (intro filter_True) (auto simp: ab code_def)
  obtain c cs where ac: "a = c # cs" "is_digit c" using a by (cases a) auto
  have sign: "split_sign (fmt_fixed n r) = (r < 0, a @ ''.'' @ b)"
    using ac by (auto simp: ab is_digit_def code_def)
  have low: "hd (py_lower (a @ ''.'' @ b)) = c" "py_lower (a @ ''.'' @ b) \<noteq> []"
    using ac by (auto simp: py_lower_def lower_char_def is_digit_def)
  have words: "py_lower (a @ ''.'' @ b) \<noteq> ''inf''" "py_lower (a @ ''.'' @ b) \<noteq> ''infinity''"
      "\<not> starts_with ''nan'' (py_lower (a @ ''.'' @ b))" "\<not> starts_with ''snan'' (py_lower (a @ ''.'' @ b))"
    using low ac(2) by (auto simp: starts_with_iff is_digit_def code_def)
  have p: "parse_unsigned (a @ ''.'' @ b) = Some (of_int v / 10 ^ n)"
    using parse_fixed [OF a b(1,2)] by (simp add: val b(3))
  have "round_to n r = (if r < 0 then - (of_int v / 10 ^ n) else of_int v / 10 ^ n)"
    using round_half_even_minus [of "r * 10 ^ n"] by (simp add: round_to_def v_def)
  then show ?thesis
    using words p by (simp add: py_decimal_of_string_def strip flt sign Let_def neg_float_def)
qed

section \<open>What the commands show\<close>

definition recorded_costs :: "db \<Rightarrow> flt list" where
  "recorded_costs d = List.map_filter sr_cost_usd (map snd (tb_rows (db_requests d)))"

lemma sum_dset:
  "distinct (map fst d) \<Longrightarrow> sum_list (map snd (dset d k (opt_or (dget d k) 0 + v))) = sum_list (map snd d) + (v :: flt)"
  by (induction d) (auto simp: dget_None_iff)

lemma cost_loop_sum:
  "distinct (map fst t) \<Longrightarrow> sum_list (map snd (cost_loop rs t)) = sum_list (map snd t) + sum_list (List.map_filter sr_cost_usd rs)"
proof (induction rs arbitrary: t)
  case (Cons r rs)
  then show ?case
    by (cases "sr_cost_usd r") (simp_all add: List.map_filter_simps sum_dset distinct_update add.assoc)
qed (simp add: List.map_filter_simps)

lemma cost_totals_sum: "sum_list (map snd (cost_totals d)) = sum_list (recorded_costs d)"
  by (simp add: cost_totals_def recorded_costs_def cost_loop_sum)

text \<open>The printed total is the recorded total. The third line of \<open>cachepilot costs\<close> ends in a number
  that parses back to the sum of every cost in the request log, rounded to six digits; providers only
  appear when something was recorded.\<close>

theorem printed_total_is_recorded:
  "\<exists>s. cmd_costs (Some d) ! 2 = ''  total recorded      $'' @ s \<and>
     py_decimal_of_string s = Some (Fin (round_to 6 (sum_list (recorded_costs d)))) \<and>
     (length (cmd_costs (Some d)) = 3 \<longleftrightarrow> cost_totals d = [])"
proof -
  have "length (cmd_costs (Some d)) = 3 \<longleftrightarrow> cost_totals d = []" by (simp add: cmd_costs_def Let_def)
  then show ?thesis
    using fmt_fixed_parses [of 6 "sum_list (map snd (cost_totals d))"]
    by (intro exI [of _ "fmt_fixed 6 (sum_list (map snd (cost_totals d)))"])
      (simp add: cmd_costs_def Let_def cost_totals_sum)
qed

lemmas fresh_reads = first_row_def fresh_db_def empty_table_def newest_def count_rows_def

lemma fresh_views:
  "aggregates fresh_db = empty_stats" "churn_list fresh_db n s = []" "route_changes_list fresh_db n = []"
  "list_leases fresh_db n = []" "cost_totals fresh_db = []" "list_profiles fresh_db n = []"
  "recent_route_events fresh_db n = []" "recent_events fresh_db n = []"
  "topology_from_store fresh_db n = empty_report" "provider_summary fresh_db = []"
  "route_intel_stats_of fresh_db = \<lparr>rs_route_switches = 0, rs_instability_verdicts = 0, rs_short_ttl_verdicts = 0,
     rs_last_switch_at = None\<rparr>"
  by (simp_all add: fresh_reads aggregates_def empty_stats_def churn_list_def route_changes_list_def list_leases_def
      cost_totals_def list_profiles_def recent_route_events_def recent_events_def topology_from_store_def
      stored_topology_def by_session_def finalize_report_def empty_topology_def empty_report_def provider_summary_def
      route_intel_stats_of_def split: option.split)

text \<open>An absent database reads as an empty one. Every command prints for a missing, corrupt or foreign
  file exactly what it prints for a database without a row: no command shows a row, a count or an
  amount that was not recorded.\<close>

theorem commands_honest_empty:
  "cmd_status v r env when None = cmd_status v r env when (Some fresh_db) \<and>
   cmd_leases now show_all None = cmd_leases now show_all (Some fresh_db) \<and>
   cmd_costs None = cmd_costs (Some fresh_db) \<and> cmd_ttl None = cmd_ttl (Some fresh_db) \<and>
   cmd_routes when None = cmd_routes when (Some fresh_db) \<and>
   cmd_churn n None = cmd_churn n (Some fresh_db) \<and>
   cmd_explain_miss when session None = cmd_explain_miss when session (Some fresh_db) \<and>
   cmd_topology n None = cmd_topology n (Some fresh_db)"
  by (simp add: cmd_status_def cmd_leases_def cmd_costs_def cmd_ttl_def cmd_routes_def cmd_churn_def
      cmd_explain_miss_def cmd_topology_def shown_leases_def fresh_views Let_def empty_report_def)

text \<open>
  The listing reads the newest fifty rows and only then drops the finished ones, so fifty finished
  leases hide every live one behind them. A profile without an estimate is reported as beyond the
  horizon.
\<close>

lemma finished_leases_hide_live_ones:
  assumes "tb_rows (db_leases d) = (i, live) # rows" and "length rows = 50"
    and "\<forall>(j, l) \<in> set rows. sl_state l = ''inactive''"
  shows "cmd_leases now False (Some d) = [''no active leases'']"
proof -
  have "list_leases d 50 = rev rows"
    using assms(1,2) by (simp add: list_leases_def newest_def)
  moreover have "py_lower ''inactive'' = ''inactive''" by code_simp
  ultimately have "shown_leases False d = []"
    using assms(3) by (auto simp: shown_leases_def filter_empty_conv TERMINAL_LEASE_STATES_def)
  then show ?thesis by (simp add: cmd_leases_def)
qed

lemma unknown_ttl_reads_beyond_horizon:
  assumes "tp_estimated_ttl_s p = None" and "\<not> curve_empty (curve_from_profile d p)"
  shows "hd (survival_lines d p) = ''  survival      P(survive) n/a '' @ DASH @ '' beyond observed horizon (n='' @
      int_str (sc_sample_count (curve_from_profile d p)) @ '' clean observations)''"
  using assms by (simp add: survival_lines_def Let_def)

end
