(* ===== verification/Dashboard.thy ===== *)
theory Dashboard
  imports Views "HOL-Library.Multiset"
begin

text \<open>
  The dashboard backend (\<open>dashboard/backend/server.py\<close>): one payload per view, the routing of GET and
  HEAD, the refusal of every other method and the static files. A payload is a record of what the
  code puts into the JSON object; \<open>json.dumps\<close>, the clock, the health probe and the file system are
  parameters. The query string is given as its parsed \<open>session\<close> value.
\<close>

section \<open>Payloads\<close>

record status_payload =
  ps_stats :: health_stats
  ps_telemetry_observed :: nat
  ps_hit_rate :: "flt option"
  ps_relay :: string
  ps_plugin :: string
  ps_providers :: "(string \<times> nat \<times> flt option) list"

record costs_payload =
  pc_total_usd :: flt
  pc_per_provider :: "(string, flt) dict"
  pc_recent :: "(timestamp \<times> string \<times> flt) list"

record survival_row =
  sv_sample_count :: int
  sv_horizon_s :: "flt option"
  sv_p_survive_at_ttl :: "flt option"
  sv_median_s :: "flt option"
  sv_steps :: "survival_step list"

record layer_row =
  lr_layer :: string
  lr_changed :: nat
  lr_total :: nat
  lr_frequency :: string

datatype payload =
    P_ok
  | P_error string
  | P_status status_payload
  | P_leases "(stored_lease \<times> flt option) list"
  | P_costs costs_payload
  | P_ttl "(ttl_profile \<times> string \<times> survival_row option) list"
  | P_routes "(int \<times> route_change_event) list" route_intel_stats
  | P_churn "(int \<times> churn_event) list" "layer_row list" "(string \<times> nat) list"
  | P_miss "(int \<times> churn_event) option" "string list" "string list"
  | P_topology topology_report

definition strip_brackets :: "string \<Rightarrow> string" where
  \<comment> \<open>\<open>host.strip("[]")\<close>\<close>
  "strip_brackets s =
     rstrip_by (\<lambda>c. c \<in> {CHR ''['', CHR '']''}) (dropWhile (\<lambda>c. c \<in> {CHR ''['', CHR '']''}) s)"

definition dash_relay_health ::
  "(byte list \<Rightarrow> json option) \<Rightarrow> env \<Rightarrow> (string \<Rightarrow> probe_answer) \<Rightarrow> string" where
  "dash_relay_health loads env probe =
     (let (host, _, port_text) = str_rpartition (CHR '':'') (opt_or (env ''CACHEPILOT_RELAY_LISTEN'') DEFAULT_LISTEN) in
      case py_int_of_string port_text of
        None \<Rightarrow> ''unknown (invalid CACHEPILOT_RELAY_LISTEN)''
      | Some port \<Rightarrow>
          probe_verdict loads (probe (probe_url (strip_brackets (if host = [] then ''127.0.0.1'' else host)) port)))"

definition payload_status :: "env \<Rightarrow> string \<Rightarrow> db option \<Rightarrow> payload" where
  "payload_status env relay store =
     (let stats = (case store of None \<Rightarrow> empty_stats | Some d \<Rightarrow> aggregates d)
      in P_status \<lparr>ps_stats = stats, ps_telemetry_observed = telemetry_observed stats, ps_hit_rate = hit_rate stats,
           ps_relay = relay, ps_plugin = plugin_state env (total stats),
           ps_providers = (case store of None \<Rightarrow> [] | Some d \<Rightarrow> provider_summary d)\<rparr>)"

definition cache_age :: "flt \<Rightarrow> stored_lease \<Rightarrow> flt option" where
  "cache_age now l = map_option (\<lambda>t. max 0 (now - t)) (sl_last_cache_touch_at l)"

definition payload_leases :: "flt \<Rightarrow> db option \<Rightarrow> payload" where
  "payload_leases now store =
     (case store of
        None \<Rightarrow> P_leases []
      | Some d \<Rightarrow> P_leases (map (\<lambda>(i, l). (l, cache_age now l)) (list_leases d 50)))"

definition payload_costs :: "db option \<Rightarrow> payload" where
  "payload_costs store =
     (case store of
        None \<Rightarrow> P_costs \<lparr>pc_total_usd = 0, pc_per_provider = [], pc_recent = []\<rparr>
      | Some d \<Rightarrow> P_costs \<lparr>pc_total_usd = sum_list (map snd (cost_totals d)), pc_per_provider = cost_totals d,
          pc_recent = List.map_filter (\<lambda>e. map_option (\<lambda>c. (sr_timestamp e, sr_provider e, c)) (sr_cost_usd e))
            (recent_events d 200)\<rparr>)"

definition survival_of :: "db \<Rightarrow> ttl_profile \<Rightarrow> survival_row option" where
  "survival_of d p =
     (let curve = curve_from_profile d p in
      if curve_empty curve then None
      else Some \<lparr>sv_sample_count = sc_sample_count curve, sv_horizon_s = sc_horizon_s curve,
        sv_p_survive_at_ttl = Option.bind (tp_estimated_ttl_s p) (survival_at curve),
        sv_median_s = median_survival_s curve, sv_steps = sc_steps curve\<rparr>)"

definition payload_ttl :: "db option \<Rightarrow> payload" where
  "payload_ttl store =
     (case store of
        None \<Rightarrow> P_ttl []
      | Some d \<Rightarrow> P_ttl (map (\<lambda>p. (p, profile_key p, survival_of d p)) (list_profiles d 100)))"

definition payload_routes :: "db option \<Rightarrow> payload" where
  "payload_routes store =
     (case store of
        None \<Rightarrow> P_routes [] \<lparr>rs_route_switches = 0, rs_instability_verdicts = 0, rs_short_ttl_verdicts = 0,
                  rs_last_switch_at = None\<rparr>
      | Some d \<Rightarrow> P_routes (recent_route_events d 100) (route_intel_stats_of d))"

definition layer_row_of :: "churn_event list \<Rightarrow> string \<times> (churn_event \<Rightarrow> bool) \<Rightarrow> layer_row" where
  "layer_row_of es = (\<lambda>(label, f).
     \<lparr>lr_layer = label, lr_changed = length (filter f es), lr_total = length es,
      lr_frequency = changed_frequency (map f es) ''churn events''\<rparr>)"

definition payload_churn :: "db option \<Rightarrow> payload" where
  "payload_churn store =
     (let rows = (case store of None \<Rightarrow> [] | Some d \<Rightarrow> churn_list d 100 None); es = map snd rows
      in P_churn rows (map (layer_row_of es) CHURN_LAYERS) (top_causes es))"

definition payload_miss :: "string option \<Rightarrow> db option \<Rightarrow> payload" where
  "payload_miss session store =
     (case store of
        None \<Rightarrow> P_miss None [] []
      | Some d \<Rightarrow> (case churn_list d 1 session of
                     [] \<Rightarrow> P_miss None [] []
                   | (i, e) # _ \<Rightarrow> P_miss (Some (i, e)) (stable_labels e) (changed_labels e)))"

definition payload_topology :: "db option \<Rightarrow> payload" where
  "payload_topology store =
     (case store of None \<Rightarrow> P_topology empty_report | Some d \<Rightarrow> P_topology (topology_from_store d 500))"

section \<open>Requests\<close>

datatype http_method = GET | HEAD | POST | PUT | DELETE | PATCH | OPTIONS | TRACE

record http_reply =
  hr_status :: int
  hr_headers :: "(string \<times> string) list"
  hr_body :: "byte list"

text \<open>What the static files are served from: paths are lists of components, already resolved.\<close>

record file_tree =
  ft_built :: bool
  ft_root :: "string list"
  ft_resolve :: "string \<Rightarrow> string list"
  ft_is_dir :: "string list \<Rightarrow> bool"
  ft_is_file :: "string list \<Rightarrow> bool"
  ft_read :: "string list \<Rightarrow> byte list"
  ft_mime :: "string list \<Rightarrow> string option"

record backend =
  bk_env :: env
  bk_now :: flt
  bk_relay :: string
  bk_dumps :: "payload \<Rightarrow> byte list"
  bk_files :: file_tree

definition send_json :: "backend \<Rightarrow> bool \<Rightarrow> int \<Rightarrow> payload \<Rightarrow> http_reply" where
  "send_json bk head_only status p =
     (let data = bk_dumps bk p in
      \<lparr>hr_status = status,
       hr_headers = [(''Content-Type'', ''application/json; charset=utf-8''), (''Cache-Control'', ''no-store''),
                     (''Content-Length'', nat_str (length data))],
       hr_body = (if head_only then [] else data)\<rparr>)"

definition static_target :: "file_tree \<Rightarrow> string \<Rightarrow> string + string list" where
  "static_target ft path =
     (if \<not> ft_built ft then Inl ''no API endpoint; frontend not built''
      else
        (let relative = dropWhile (\<lambda>c. c = CHR ''/'') path;
             candidate = ft_resolve ft (if relative = [] then ''index.html'' else relative)
         in if take (length (ft_root ft)) candidate \<noteq> ft_root ft then Inl ''forbidden path''
            else
              (let candidate = (if ft_is_dir ft candidate then candidate @ [''index.html''] else candidate);
                   fallback = ft_root ft @ [''index.html'']
               in if ft_is_file ft candidate then Inr candidate
                  else if ft_is_file ft fallback then Inr fallback
                  else Inl ''frontend not built'')))"

definition serve_static :: "backend \<Rightarrow> bool \<Rightarrow> string \<Rightarrow> http_reply" where
  "serve_static bk head_only path =
     (case static_target (bk_files bk) path of
        Inl e \<Rightarrow> send_json bk head_only 404 (P_error e)
      | Inr file \<Rightarrow>
          (let body = ft_read (bk_files bk) file in
           \<lparr>hr_status = 200,
            hr_headers = [(''Content-Type'', opt_or (ft_mime (bk_files bk) file) ''application/octet-stream''),
                          (''Content-Length'', nat_str (length body))],
            hr_body = (if head_only then [] else body)\<rparr>))"

definition API_VIEWS :: "(string \<times> (backend \<Rightarrow> string option \<Rightarrow> db option \<Rightarrow> payload)) list" where
  "API_VIEWS =
     [(''/api/status'', \<lambda>bk s. payload_status (bk_env bk) (bk_relay bk)),
      (''/api/leases'', \<lambda>bk s. payload_leases (bk_now bk)),
      (''/api/costs'', \<lambda>bk s. payload_costs),
      (''/api/ttl'', \<lambda>bk s. payload_ttl),
      (''/api/routes'', \<lambda>bk s. payload_routes),
      (''/api/churn'', \<lambda>bk s. payload_churn),
      (''/api/miss'', \<lambda>bk s. payload_miss s),
      (''/api/topology'', \<lambda>bk s. payload_topology)]"

definition do_get :: "backend \<Rightarrow> bool \<Rightarrow> string \<Rightarrow> string option \<Rightarrow> db option \<Rightarrow> http_reply" where
  "do_get bk head_only path session store =
     (if path = ''/api/health'' then send_json bk head_only 200 P_ok
      else case dget API_VIEWS path of
        Some build \<Rightarrow> send_json bk head_only 200 (build bk session store)
      | None \<Rightarrow>
          if starts_with ''/api/'' path then send_json bk head_only 404 (P_error (''unknown endpoint: '' @ path))
          else serve_static bk head_only path)"

definition write_refused :: "backend \<Rightarrow> http_reply" where
  "write_refused bk = send_json bk False 405 (P_error ''the dashboard backend is read-only (GET only)'')"

datatype file_state = Missing | Unreadable | Foreign_schema | Failing | Readable db

definition open_store :: "file_state \<Rightarrow> db option" where
  \<comment> \<open>\<open>Failing\<close> passes the check of the schema and raises at a query: the payload is then built again
    without a store.\<close>
  "open_store f = (case f of Readable d \<Rightarrow> Some d | _ \<Rightarrow> None)"

definition handle :: "backend \<Rightarrow> http_method \<Rightarrow> string \<Rightarrow> string option \<Rightarrow> file_state \<Rightarrow> http_reply" where
  \<comment> \<open>Every request opens the file anew.\<close>
  "handle bk m path session f =
     (case m of
        GET \<Rightarrow> do_get bk False path session (open_store f)
      | HEAD \<Rightarrow> do_get bk True path session (open_store f)
      | _ \<Rightarrow> write_refused bk)"

section \<open>Properties\<close>

lemma views_honest_empty: "dget API_VIEWS path = Some build \<Longrightarrow> build bk session None = build bk session (Some fresh_db)"
  by (auto simp: API_VIEWS_def payload_status_def payload_leases_def payload_costs_def payload_ttl_def
      payload_routes_def payload_churn_def payload_miss_def payload_topology_def fresh_views List.map_filter_simps
      split: if_splits)

lemma send_json_head: "send_json bk True s p = (send_json bk False s p)\<lparr>hr_body := []\<rparr>"
  by (simp add: send_json_def Let_def)

lemma do_get_head: "do_get bk True path session store = (do_get bk False path session store)\<lparr>hr_body := []\<rparr>"
  by (auto simp: do_get_def send_json_head serve_static_def Let_def split: option.split sum.split)


lemma take_root: "take (length r) xs = r \<Longrightarrow> take (length r) (xs @ ys) = r"
proof -
  assume t: "take (length r) xs = r"
  then have "length r \<le> length xs" by (metis length_take min.cobounded1)
  then show ?thesis using t by simp
qed

lemma static_target_inside:
  assumes "static_target ft path = Inr target"
  shows "take (length (ft_root ft)) target = ft_root ft" and "ft_is_file ft target"
proof -
  define rel where "rel = (let r = dropWhile (\<lambda>c. c = CHR ''/'') path in if r = [] then ''index.html'' else r)"
  define c where "c = ft_resolve ft rel"
  define c' where "c' = (if ft_is_dir ft c then c @ [''index.html''] else c)"
  have e: "static_target ft path =
      (if \<not> ft_built ft then Inl ''no API endpoint; frontend not built''
       else if take (length (ft_root ft)) c \<noteq> ft_root ft then Inl ''forbidden path''
       else if ft_is_file ft c' then Inr c'
       else if ft_is_file ft (ft_root ft @ [''index.html'']) then Inr (ft_root ft @ [''index.html''])
       else Inl ''frontend not built'')"
    unfolding static_target_def Let_def c'_def c_def rel_def by (rule refl)
  have b: "take (length (ft_root ft)) c = ft_root ft" using assms unfolding e by (auto split: if_splits)
  have "take (length (ft_root ft)) (c @ [''index.html'']) = ft_root ft" by (rule take_root [OF b])
  then have "take (length (ft_root ft)) c' = ft_root ft"
    using b unfolding c'_def by (cases "ft_is_dir ft c") (simp_all only: if_True if_False)
  then show "take (length (ft_root ft)) target = ft_root ft" and "ft_is_file ft target"
    using assms unfolding e by (auto split: if_splits)
qed

text \<open>The relay line is documented to mirror the command line; with an empty variable it does not.\<close>

lemma empty_listen_diverges:
  assumes "env ''CACHEPILOT_RELAY_LISTEN'' = Some []"
  shows "dash_relay_health loads env probe = ''unknown (invalid CACHEPILOT_RELAY_LISTEN)''"
    and "cli_relay_health loads py_repr env probe =
      cli_relay_health loads py_repr (env(''CACHEPILOT_RELAY_LISTEN'' := None)) probe"
proof -
  have "py_int_of_string [] = None" by code_simp
  then show "dash_relay_health loads env probe = ''unknown (invalid CACHEPILOT_RELAY_LISTEN)''"
    using assms by (simp add: dash_relay_health_def str_rpartition_def)
qed (use assms in \<open>simp add: cli_relay_health_def or_else_def\<close>)

text \<open>Static files stay inside the built frontend. A request that is no API path is answered with the
  content of a file below the root, or of the root's \<open>index.html\<close>, or with 404; a path that resolves
  outside the root is never read.\<close>

theorem static_stays_inside:
  assumes "\<not> starts_with ''/api/'' path" and "path \<noteq> ''/api/health''"
  shows "(\<exists>file. take (length (ft_root (bk_files bk))) file = ft_root (bk_files bk) \<and> ft_is_file (bk_files bk) file \<and>
      hr_status (handle bk GET path session f) = 200 \<and> hr_body (handle bk GET path session f) = ft_read (bk_files bk) file) \<or>
    (\<exists>e. handle bk GET path session f = send_json bk False 404 (P_error e))"
proof -
  have n: "dget API_VIEWS path = None"
  proof (rule ccontr)
    assume "dget API_VIEWS path \<noteq> None"
    then have "starts_with ''/api/'' path" by (auto simp: API_VIEWS_def starts_with_def split: if_splits)
    then show False using assms(1) by simp
  qed
  have g: "handle bk GET path session f = serve_static bk False path"
    using assms n by (simp add: handle_def do_get_def)
  show ?thesis
  proof (cases "static_target (bk_files bk) path")
    case (Inl e)
    then show ?thesis by (auto simp: g serve_static_def)
  next
    case (Inr target)
    then have "take (length (ft_root (bk_files bk))) target = ft_root (bk_files bk) \<and> ft_is_file (bk_files bk) target"
      using static_target_inside by blast
    then show ?thesis using Inr by (intro disjI1) (auto simp: g serve_static_def Let_def)
  qed
qed

definition sample_tree :: file_tree where
  "sample_tree = \<lparr>ft_built = True, ft_root = [''dist''], ft_resolve = (\<lambda>r. if r = ''../etc'' then [''etc''] else [''dist'', r]),
     ft_is_dir = (\<lambda>_. False), ft_is_file = (\<lambda>p. p = [''dist'', ''index.html'']), ft_read = (\<lambda>_. [7]), ft_mime = (\<lambda>_. None)\<rparr>"

definition sample_backend :: backend where
  "sample_backend = \<lparr>bk_env = (\<lambda>_. None), bk_now = 0, bk_relay = ''unreachable'', bk_dumps = (\<lambda>_. []), bk_files = sample_tree\<rparr>"

theorem static_stays_inside_witness:
  "\<exists>path. ft_is_file sample_tree path \<and> hr_body (handle sample_backend GET ''/leases'' None Missing) = ft_read sample_tree path"
proof -
  have "\<not> starts_with ''/api/'' ''/leases''" by (simp add: starts_with_def)
  moreover have "hr_status (handle sample_backend GET ''/leases'' None Missing) = 200"
    by (simp add: handle_def do_get_def API_VIEWS_def starts_with_def serve_static_def static_target_def Let_def
        sample_backend_def sample_tree_def open_store_def)
  moreover have "hr_status (send_json sample_backend False 404 (P_error e)) = 404" for e
    by (simp add: send_json_def Let_def)
  moreover have "bk_files sample_backend = sample_tree" by (simp add: sample_backend_def)
  ultimately show ?thesis
    using static_stays_inside [of "''/leases''" sample_backend None Missing] by fastforce
qed

lemma labels_disjoint: "set (stable_labels e) \<inter> set (changed_labels e) = {}"
  by (simp add: stable_labels_def changed_labels_def CHURN_LAYERS_def)

lemma labels_partition: "mset (stable_labels e @ changed_labels e) = mset (map fst CHURN_LAYERS)"
proof -
  have "mset CHURN_LAYERS = filter_mset (\<lambda>(label, f). f e) (mset CHURN_LAYERS) +
      filter_mset (\<lambda>x. \<not> (case x of (label, f) \<Rightarrow> f e)) (mset CHURN_LAYERS)"
    by (rule multiset_partition)
  moreover have "(\<lambda>x. \<not> (case x of (label, f) \<Rightarrow> f e)) = (\<lambda>(label, f). \<not> f e)" by auto
  ultimately have "mset CHURN_LAYERS = mset (filter (\<lambda>(label, f). \<not> f e) CHURN_LAYERS @ filter (\<lambda>(label, f). f e) CHURN_LAYERS)"
    by (simp add: union_commute)
  then show ?thesis
    unfolding stable_labels_def changed_labels_def map_append [symmetric] mset_map by (rule arg_cong [OF sym])
qed

text \<open>The command line and the dashboard show the same. For any database the dashboard's total is the sum
  of the recorded costs, the amount the command line prints; its layer rows count the changed among all
  listed churn events and carry the very text that \<open>cachepilot churn\<close> prints; and an explained miss
  splits the six layers into the stable and the changed ones of the same event.\<close>

theorem views_agree:
  "(\<exists>pc. payload_costs (Some d) = P_costs pc \<and> pc_total_usd pc = sum_list (recorded_costs d) \<and>
      cmd_costs (Some d) ! 2 = ''  total recorded      $'' @ fmt_fixed 6 (pc_total_usd pc)) \<and>
   (\<exists>rows ls tops. payload_churn (Some d) = P_churn rows ls tops \<and> rows = churn_list d 100 None \<and>
      (\<forall>r \<in> set ls. lr_changed r \<le> lr_total r \<and> lr_total r = length rows \<and>
        (rows \<noteq> [] \<longrightarrow> ''  '' @ ljust 12 (lr_layer r) @ '' '' @ lr_frequency r \<in> set (cmd_churn 100 (Some d))))) \<and>
   (\<exists>ev st ch. payload_miss session (Some d) = P_miss ev st ch \<and>
      (ev = None \<longleftrightarrow> churn_list d 1 session = []) \<and>
      (ev \<noteq> None \<longrightarrow> set st \<inter> set ch = {} \<and> mset (st @ ch) = mset (map fst CHURN_LAYERS)))"
proof (intro conjI)
  show "\<exists>pc. payload_costs (Some d) = P_costs pc \<and> pc_total_usd pc = sum_list (recorded_costs d) \<and>
      cmd_costs (Some d) ! 2 = ''  total recorded      $'' @ fmt_fixed 6 (pc_total_usd pc)"
    by (simp add: payload_costs_def cost_totals_sum cmd_costs_def Let_def)
  show "\<exists>rows ls tops. payload_churn (Some d) = P_churn rows ls tops \<and> rows = churn_list d 100 None \<and>
      (\<forall>r \<in> set ls. lr_changed r \<le> lr_total r \<and> lr_total r = length rows \<and>
        (rows \<noteq> [] \<longrightarrow> ''  '' @ ljust 12 (lr_layer r) @ '' '' @ lr_frequency r \<in> set (cmd_churn 100 (Some d))))"
    by (force simp: payload_churn_def layer_row_of_def cmd_churn_def Let_def)
  have p: "set (stable_labels e) \<inter> set (changed_labels e) = {} \<and>
      mset (stable_labels e @ changed_labels e) = mset (map fst CHURN_LAYERS)" for e
    using labels_disjoint labels_partition by blast
  show "\<exists>ev st ch. payload_miss session (Some d) = P_miss ev st ch \<and>
      (ev = None \<longleftrightarrow> churn_list d 1 session = []) \<and>
      (ev \<noteq> None \<longrightarrow> set st \<inter> set ch = {} \<and> mset (st @ ch) = mset (map fst CHURN_LAYERS))"
    using p by (cases "churn_list d 1 session") (auto simp: payload_miss_def split: prod.split)
qed

theorem views_agree_witness:
  "\<exists>pc. payload_costs (Some (fst (record_request fresh_db sample_event))) = P_costs pc \<and>
     pc_total_usd pc = sum_list (recorded_costs (fst (record_request fresh_db sample_event)))"
  using views_agree [of "fst (record_request fresh_db sample_event)" None] by blast

end
