(* ===== verification/IsoTime.thy ===== *)
theory IsoTime
  imports Ttl
begin

text \<open>
  The stored form of a time stamp, \<open>_iso\<close> of \<open>cachepilot_core/storage.py\<close>: the UTC time as
  \<open>YYYY-MM-DDTHH:MM:SS.ffffff+00:00\<close>, with the proleptic Gregorian calendar of \<open>datetime\<close>. The
  locale is the contract of a text field of fixed width that keeps the order of what it encodes; two
  fields compose to a field, so the numbers, the date, the time of day and the whole stamp are
  interpretations of it. What is shown is that the text reads back and that comparing texts, as the
  SQL statements do, compares times.
\<close>

section \<open>Fields of fixed width\<close>

lemma append_less_iff:
  "length a = length b \<Longrightarrow> a @ x < b @ y \<longleftrightarrow> a < b \<or> a = b \<and> x < (y :: 'a :: linorder list)"
  by (induction a b rule: list_induct2) auto

locale fixed_field =
  fixes enc :: "int \<Rightarrow> string" and dec :: "string \<Rightarrow> int option" and width :: nat and ok :: "int \<Rightarrow> bool"
  assumes width: "ok a \<Longrightarrow> length (enc a) = width"
    and dec_enc: "ok a \<Longrightarrow> dec (enc a) = Some a"
    and less: "ok a \<Longrightarrow> ok b \<Longrightarrow> a < b \<Longrightarrow> enc a < enc b"
begin

lemma enc_eq_iff: "ok a \<Longrightarrow> ok b \<Longrightarrow> enc a = enc b \<longleftrightarrow> a = b"
  by (metis dec_enc option.inject)

lemma enc_less_iff: "ok a \<Longrightarrow> ok b \<Longrightarrow> enc a < enc b \<longleftrightarrow> a < b"
  by (metis less less_asym linorder_less_linear)

lemma enc_append_less:
  "ok a \<Longrightarrow> ok b \<Longrightarrow> enc a @ x < enc b @ y \<longleftrightarrow> a < b \<or> a = b \<and> x < y"
  by (simp add: append_less_iff width enc_less_iff enc_eq_iff)

end

definition pair_enc :: "(int \<Rightarrow> string) \<Rightarrow> string \<Rightarrow> (int \<Rightarrow> string) \<Rightarrow> int \<Rightarrow> int \<Rightarrow> string" where
  "pair_enc e1 sep e2 k a = e1 (a div k) @ sep @ e2 (a mod k)"

definition pair_dec ::
  "(string \<Rightarrow> int option) \<Rightarrow> nat \<Rightarrow> string \<Rightarrow> (string \<Rightarrow> int option) \<Rightarrow> int \<Rightarrow> string \<Rightarrow> int option" where
  "pair_dec d1 w1 sep d2 k s =
     (case (d1 (take w1 s), d2 (drop (w1 + length sep) s)) of
        (Some a, Some b) \<Rightarrow> if take (length sep) (drop w1 s) = sep then Some (a * k + b) else None
      | _ \<Rightarrow> None)"

lemma fixed_field_pair:
  assumes "fixed_field e1 d1 w1 ok1" and "fixed_field e2 d2 w2 ok2" and "0 < k"
  shows "fixed_field (pair_enc e1 sep e2 k) (pair_dec d1 w1 sep d2 k) (w1 + length sep + w2)
    (\<lambda>a. ok1 (a div k) \<and> ok2 (a mod k))"
proof
  fix a assume a: "ok1 (a div k) \<and> ok2 (a mod k)"
  then have w: "length (e1 (a div k)) = w1" "length (e2 (a mod k)) = w2"
    using fixed_field.width [OF assms(1)] fixed_field.width [OF assms(2)] by auto
  then show "length (pair_enc e1 sep e2 k a) = w1 + length sep + w2" by (simp add: pair_enc_def)
  have "d1 (e1 (a div k)) = Some (a div k)" "d2 (e2 (a mod k)) = Some (a mod k)"
    using a fixed_field.dec_enc [OF assms(1)] fixed_field.dec_enc [OF assms(2)] by auto
  then show "pair_dec d1 w1 sep d2 k (pair_enc e1 sep e2 k a) = Some a"
    using w by (simp add: pair_dec_def pair_enc_def)
next
  fix a b assume a: "ok1 (a div k) \<and> ok2 (a mod k)" and b: "ok1 (b div k) \<and> ok2 (b mod k)" and l: "a < b"
  have "a div k < b div k \<or> a div k = b div k \<and> a mod k < b mod k"
  proof (cases "a div k = b div k")
    case True
    then show ?thesis using l by (metis add_less_cancel_left mult_div_mod_eq)
  qed (use l zdiv_mono1 [of a b k] assms(3) in simp)
  moreover have "e2 (a mod k) < e2 (b mod k)" if "a mod k < b mod k"
    using that a b fixed_field.less [OF assms(2)] by blast
  ultimately show "pair_enc e1 sep e2 k a < pair_enc e1 sep e2 k b"
    using a b by (auto simp: pair_enc_def fixed_field.enc_append_less [OF assms(1)] append_less_iff)
qed

lemma fixed_field_pair_range:
  assumes "fixed_field e1 d1 w1 (\<lambda>a. l1 \<le> a \<and> a < h1)" and "fixed_field e2 d2 w2 (\<lambda>b. 0 \<le> b \<and> b < k)"
    and "0 < k" and "w = w1 + length sep + w2" and "lo = l1 * k" and "hi = h1 * k"
  shows "fixed_field (pair_enc e1 sep e2 k) (pair_dec d1 w1 sep d2 k) w (\<lambda>a. lo \<le> a \<and> a < hi)"
proof -
  have "(l1 \<le> a div k \<and> a div k < h1) \<and> 0 \<le> a mod k \<and> a mod k < k" if "lo \<le> a \<and> a < hi" for a
  proof -
    have "l1 \<le> a div k" using zdiv_mono1 [of lo a k] that assms(3,5) by simp
    moreover have "a div k < h1"
    proof (rule ccontr)
      assume "\<not> a div k < h1"
      then have "h1 * k \<le> a div k * k" using assms(3) by (intro mult_right_mono) auto
      also have "a div k * k \<le> a" using pos_mod_sign [OF assms(3), of a] div_mult_mod_eq [of a k] by linarith
      finally show False using that assms(6) by simp
    qed
    ultimately show ?thesis using assms(3) by simp
  qed
  then show ?thesis
    using fixed_field_pair [OF assms(1-3), of sep] unfolding assms(4) fixed_field_def by blast
qed

section \<open>Numbers\<close>

definition num_enc :: "nat \<Rightarrow> int \<Rightarrow> string" where
  "num_enc w k = zero_fill w (nat_str (nat k))"

definition num_dec :: "nat \<Rightarrow> int \<Rightarrow> string \<Rightarrow> int option" where
  "num_dec w top_value s =
     (if length s = w \<and> list_all is_digit s \<and> digits_val 0 s < top_value then Some (digits_val 0 s) else None)"

lemma digits_val_bound: "list_all is_digit s \<Longrightarrow> 0 \<le> digits_val 0 s \<and> digits_val 0 s < 10 ^ length s"
proof (induction s rule: rev_induct)
  case (snoc c s)
  then have "0 \<le> digit_val c" "digit_val c \<le> 9" by (auto simp: is_digit_def digit_val_def)
  then show ?case using snoc by (auto simp: digits_val_snoc)
qed simp

lemma digits_val_Cons: "digits_val 0 (c # s) = digit_val c * 10 ^ length s + digits_val 0 s"
  using digits_val_append [of 0 "[c]" s] by simp

lemma char_less_iff: "c < d \<longleftrightarrow> code c < code d"
  by (simp add: code_def less_char_def)

lemma digit_texts_less:
  "length a = length b \<Longrightarrow> list_all is_digit a \<Longrightarrow> list_all is_digit b \<Longrightarrow> digits_val 0 a < digits_val 0 b \<Longrightarrow> a < b"
proof (induction a b rule: list_induct2)
  case (Cons c a d b)
  define K :: int where "K = 10 ^ length a"
  have ab: "0 \<le> digits_val 0 b" "digits_val 0 b < K" "0 \<le> digits_val 0 a"
    using digits_val_bound [of a] digits_val_bound [of b] Cons by (auto simp: K_def)
  have l: "digit_val c * K + digits_val 0 a < digit_val d * K + digits_val 0 b"
    using Cons.prems(3) Cons.hyps unfolding digits_val_Cons K_def by simp
  have "digit_val c \<le> digit_val d"
  proof (rule ccontr)
    assume "\<not> ?thesis"
    then have "(digit_val d + 1) * K \<le> digit_val c * K" using ab by (intro mult_right_mono) auto
    then show False using l ab by (simp add: algebra_simps)
  qed
  then have "code c < code d \<or> code c = code d" unfolding digit_val_def by auto
  then have "code c < code d \<or> c = d" by (auto simp: code_def)
  then show ?case using Cons l by (auto simp: char_less_iff)
qed simp

lemma num_field:
  assumes "0 < w" and "top_value \<le> 10 ^ w"
  shows "fixed_field (num_enc w) (num_dec w top_value) w (\<lambda>k. 0 \<le> k \<and> k < top_value)"
proof
  fix a :: int assume a: "0 \<le> a \<and> a < top_value"
  then have "nat a < 10 ^ w" using assms(2) by (simp add: nat_less_iff)
  note z = zero_fill_facts [OF this assms(1)]
  show "length (num_enc w a) = w" by (simp add: num_enc_def z)
  show "num_dec w top_value (num_enc w a) = Some a" using a by (simp add: num_dec_def num_enc_def z)
next
  fix a b :: int assume a: "0 \<le> a \<and> a < top_value" and b: "0 \<le> b \<and> b < top_value" and l: "a < b"
  have "nat a < 10 ^ w" "nat b < 10 ^ w" using a b assms(2) by (simp_all add: nat_less_iff)
  note za = zero_fill_facts [OF this(1) assms(1)] and zb = zero_fill_facts [OF this(2) assms(1)]
  show "num_enc w a < num_enc w b"
    unfolding num_enc_def using a b l by (intro digit_texts_less) (simp_all add: za zb)
qed

section \<open>The calendar\<close>

definition is_leap :: "int \<Rightarrow> bool" where
  "is_leap y \<longleftrightarrow> y mod 4 = 0 \<and> (y mod 100 \<noteq> 0 \<or> y mod 400 = 0)"

definition days_in_month :: "int \<Rightarrow> int \<Rightarrow> int" where
  "days_in_month y m =
     (if m = 2 then (if is_leap y then 29 else 28) else if m \<in> {4, 6, 9, 11} then 30 else 31)"

definition days_before_year :: "int \<Rightarrow> int" where
  "days_before_year y = (y - 1) * 365 + (y - 1) div 4 - (y - 1) div 100 + (y - 1) div 400"

definition days_before_month :: "int \<Rightarrow> int \<Rightarrow> int" where
  "days_before_month y m = sum_list (map (days_in_month y) [1..m - 1])"

definition ymd2ord :: "int \<Rightarrow> int \<Rightarrow> int \<Rightarrow> int" where
  \<comment> \<open>\<open>date.toordinal\<close>: 1 is the first of January of the year 1.\<close>
  "ymd2ord y m d = days_before_year y + days_before_month y m + d"

function month_day :: "int \<Rightarrow> int \<Rightarrow> int \<Rightarrow> int \<times> int" where
  "month_day y m n =
     (if m < 12 \<and> days_in_month y m \<le> n then month_day y (m + 1) (n - days_in_month y m) else (m, n + 1))"
  by auto
termination by (relation "measure (\<lambda>(y, m, n). nat (12 - m))") auto

declare month_day.simps [simp del]

definition ord2ymd :: "int \<Rightarrow> int \<times> int \<times> int" where
  \<comment> \<open>\<open>date.fromordinal\<close>, by cycles of 400, 100, 4 and 1 years.\<close>
  "ord2ymd n =
     (let n400 = (n - 1) div 146097; r = (n - 1) mod 146097;
          n100 = r div 36524; r = r mod 36524;
          n4 = r div 1461; r = r mod 1461;
          n1 = r div 365; r = r mod 365;
          y = n400 * 400 + n100 * 100 + n4 * 4 + n1 + 1
      in if n1 = 4 \<or> n100 = 4 then (y - 1, 12, 31)
         else (case month_day y 1 r of (m, d) \<Rightarrow> (y, m, d)))"

definition valid_ymd :: "int \<Rightarrow> int \<Rightarrow> int \<Rightarrow> bool" where
  "valid_ymd y m d \<longleftrightarrow> 1 \<le> m \<and> m \<le> 12 \<and> 1 \<le> d \<and> d \<le> days_in_month y m"

lemma days_in_month_pos: "28 \<le> days_in_month y m \<and> days_in_month y m \<le> 31"
  by (simp add: days_in_month_def)

lemma days_before_month_Suc: "1 \<le> m \<Longrightarrow> days_before_month y (m + 1) = days_before_month y m + days_in_month y m"
  using upto_rec2 [of 1 m] by (simp add: days_before_month_def)

lemma days_before_month_1: "days_before_month y 1 = 0"
  by (simp add: days_before_month_def)

lemma days_before_month_mono:
  assumes "1 \<le> m" and "m \<le> m'"
  shows "days_before_month y m \<le> days_before_month y m'"
  using assms(2)
proof (induction m' rule: int_ge_induct)
  case (step i)
  then show ?case using days_in_month_pos [of y i] assms(1) by (simp add: days_before_month_Suc)
qed simp

lemma days_before_month_13: "days_before_month y 13 = (if is_leap y then 366 else 365)"
proof -
  have "[1..12] = [1, 2, 3, 4, 5, 6, 7, 8, 9, 10, 11, 12 :: int]" by (simp add: upto_rec1)
  then show ?thesis by (simp add: days_before_month_def days_in_month_def)
qed

lemma div_step:
  assumes "0 < (k :: int)"
  shows "(z + 1) div k = z div k + (if (z + 1) mod k = 0 then 1 else 0)"
proof -
  define q r where "q = z div k" and "r = z mod k"
  have z: "z = k * q + r" and r: "0 \<le> r" "r < k" using assms by (simp_all add: q_def r_def)
  show ?thesis
  proof (cases "r + 1 = k")
    case True
    then have "z + 1 = k * (q + 1)" using z by (simp add: algebra_simps)
    then show ?thesis using assms by (simp add: q_def)
  next
    case False
    then have "(z + 1) div k = q" "(z + 1) mod k = r + 1"
      using z r by (auto intro: int_div_pos_eq int_mod_pos_eq)
    then show ?thesis using r by (simp add: q_def)
  qed
qed

lemma days_before_year_Suc: "days_before_year (y + 1) = days_before_year y + days_before_month y 13"
proof -
  have "y div k = (y - 1) div k + (if y mod k = 0 then 1 else 0)" if "0 < k" for k
    using div_step [OF that, of "y - 1"] by simp
  then have d: "y div 4 = (y - 1) div 4 + (if y mod 4 = 0 then 1 else 0)"
      "y div 100 = (y - 1) div 100 + (if y mod 100 = 0 then 1 else 0)"
      "y div 400 = (y - 1) div 400 + (if y mod 400 = 0 then 1 else 0)" by simp_all
  define P Q R where "P \<longleftrightarrow> y mod 4 = 0" and "Q \<longleftrightarrow> y mod 100 = 0" and "R \<longleftrightarrow> y mod 400 = 0"
  note f = P_def [symmetric] Q_def [symmetric] R_def [symmetric]
  have "days_before_year (y + 1) = days_before_year y + 365 + (if P then 1 else 0) -
      (if Q then 1 else 0) + (if R then 1 else 0)"
    unfolding days_before_year_def add_diff_cancel_right' d f by simp
  moreover have "R \<Longrightarrow> Q" "Q \<Longrightarrow> P"
    using mod_mod_cancel [of 100 400 y] mod_mod_cancel [of 4 100 y] by (simp_all add: P_def Q_def R_def)
  ultimately show ?thesis unfolding days_before_month_13 is_leap_def f by auto
qed

lemma days_before_year_mono: "y \<le> y' \<Longrightarrow> days_before_year y \<le> days_before_year y'"
proof (induction y' rule: int_ge_induct)
  case (step i)
  then show ?case by (simp add: days_before_year_Suc days_before_month_13 split: if_splits)
qed simp

lemma valid_ymd_range:
  assumes "valid_ymd y m d"
  shows "days_before_month y m < days_before_month y m + d"
    and "days_before_month y m + d \<le> days_before_month y (m + 1)"
    and "days_before_month y m + d \<le> days_before_month y 13"
    and "0 < days_before_month y m + d"
proof -
  show "days_before_month y m < days_before_month y m + d" using assms by (simp add: valid_ymd_def)
  show b: "days_before_month y m + d \<le> days_before_month y (m + 1)"
    using assms by (simp add: valid_ymd_def days_before_month_Suc)
  show "days_before_month y m + d \<le> days_before_month y 13"
    using b days_before_month_mono [of "m + 1" 13 y] assms by (simp add: valid_ymd_def)
  show "0 < days_before_month y m + d"
    using days_before_month_mono [of 1 m y] assms by (simp add: valid_ymd_def days_before_month_1)
qed

lemma ymd2ord_less_year:
  assumes "valid_ymd y m d" and "valid_ymd y' m' d'" and "y < y'"
  shows "ymd2ord y m d < ymd2ord y' m' d'"
proof -
  have "days_before_year y + days_before_month y 13 \<le> days_before_year y'"
    using days_before_year_mono [of "y + 1" y'] assms(3) by (simp add: days_before_year_Suc)
  then show ?thesis
    using valid_ymd_range(3) [OF assms(1)] valid_ymd_range(4) [OF assms(2)] by (simp add: ymd2ord_def)
qed

lemma ymd2ord_less_month:
  assumes "valid_ymd y m d" and "valid_ymd y m' d'" and "m < m'"
  shows "ymd2ord y m d < ymd2ord y m' d'"
proof -
  have "days_before_month y (m + 1) \<le> days_before_month y m'"
    using days_before_month_mono [of "m + 1" m' y] assms by (simp add: valid_ymd_def)
  then show ?thesis
    using valid_ymd_range(2) [OF assms(1)] valid_ymd_range(1) [OF assms(2)] by (simp add: ymd2ord_def)
qed

lemma month_day_correct:
  assumes "month_day y m n = (m', d)" and "1 \<le> m" and "m \<le> 12" and "0 \<le> n"
    and "days_before_month y m + n < days_before_month y 13"
  shows "valid_ymd y m' d \<and> days_before_month y m' + d = days_before_month y m + n + 1"
  using assms
proof (induction y m n rule: month_day.induct)
  case (1 y m n)
  show ?case
  proof (cases "m < 12 \<and> days_in_month y m \<le> n")
    case True
    then have "month_day y (m + 1) (n - days_in_month y m) = (m', d)"
      using 1(2) by (simp add: month_day.simps [of y m n])
    then show ?thesis using 1(1) [OF True] 1(3-6) True by (simp add: days_before_month_Suc)
  next
    case False
    then have "m' = m" "d = n + 1" using 1(2) by (auto simp: month_day.simps [of y m n])
    moreover have "n < days_in_month y m"
    proof (cases "m = 12")
      case True
      then show ?thesis using 1(6) days_before_month_Suc [of 12 y] by simp
    qed (use False 1 in auto)
    ultimately show ?thesis using 1 by (simp add: valid_ymd_def)
  qed
qed

lemma ord2ymd_correct:
  assumes "ord2ymd n = (y, m, d)"
  shows "valid_ymd y m d \<and> ymd2ord y m d = n"
proof -
  define a r1 where "a = (n - 1) div 146097" and "r1 = (n - 1) mod 146097"
  define b r2 where "b = r1 div 36524" and "r2 = r1 mod 36524"
  define c r3 where "c = r2 div 1461" and "r3 = r2 mod 1461"
  define e r where "e = r3 div 365" and "r = r3 mod 365"
  define p where "p = a * 400 + b * 100 + c * 4 + e"
  have n: "n - 1 = 146097 * a + 36524 * b + 1461 * c + 365 * e + r"
    unfolding a_def r1_def b_def r2_def c_def r3_def e_def r_def by (simp add: minus_mod_eq_mult_div [symmetric])
  have r1: "0 \<le> r1" "r1 < 146097" and r2: "0 \<le> r2" "r2 < 36524" and r3: "0 \<le> r3" "r3 < 1461" and r: "0 \<le> r" "r < 365"
    by (simp_all add: r1_def r2_def r3_def r_def)
  have s1: "r1 = 36524 * b + r2" and s2: "r2 = 1461 * c + r3" and s3: "r3 = 365 * e + r"
    by (simp_all add: b_def r2_def c_def r3_def e_def r_def)
  have b: "0 \<le> b" "b \<le> 4" and c: "0 \<le> c" "c \<le> 24" and e: "0 \<le> e" "e \<le> 4" using s1 s2 s3 r1 r2 r3 r by linarith+
  have o: "ord2ymd n = (if e = 4 \<or> b = 4 then (p, 12, 31) else (case month_day (p + 1) 1 r of (m, d) \<Rightarrow> (p + 1, m, d)))"
    unfolding ord2ymd_def Let_def p_def e_def r_def r3_def c_def r2_def b_def r1_def a_def by simp
  have year: "days_before_year (p + 1) = 146097 * a + 36524 * b + 1461 * c + 365 * e" if "e < 4" "b < 4"
  proof -
    have "p div 4 = 100 * a + 25 * b + c" unfolding p_def using that e b c by (intro int_div_pos_eq [where r = e]) auto
    moreover have "p div 100 = 4 * a + b" unfolding p_def using that e b c by (intro int_div_pos_eq [where r = "4 * c + e"]) auto
    moreover have "p div 400 = a" unfolding p_def using that e b c by (intro int_div_pos_eq [where r = "100 * b + 4 * c + e"]) auto
    ultimately show ?thesis by (simp add: days_before_year_def p_def)
  qed
  show ?thesis
  proof (cases "e = 4 \<or> b = 4")
    case False
    then have lt: "e < 4" "b < 4" using e b by auto
    obtain m' d' where md: "month_day (p + 1) 1 r = (m', d')" by fastforce
    then have "y = p + 1" "m = m'" "d = d'" using assms o False by auto
    moreover have "valid_ymd (p + 1) m' d' \<and> days_before_month (p + 1) m' + d' = r + 1"
      using month_day_correct [OF md] r days_before_month_13 [of "p + 1"] by (simp add: days_before_month_1 split: if_splits)
    ultimately show ?thesis using year [OF lt] n by (simp add: ymd2ord_def)
  next
    case True
    then have y: "y = p" "m = 12" "d = 31" using assms o by auto
    have v: "valid_ymd p 12 31" by (simp add: valid_ymd_def days_in_month_def)
    have last: "days_before_month p 12 + 31 = days_before_month p 13"
      using days_before_month_Suc [of 12 p] by (simp add: days_in_month_def)
    have "is_leap p \<and> days_before_year p + 366 = n"
    proof (cases "b = 4")
      case True
      then have z: "c = 0" "e = 0" "r = 0" using s1 s2 s3 r1 r2 r3 r c e by linarith+
      have p: "p = 400 * (a + 1)" using True z by (simp add: p_def)
      have "(p - 1) div 4 = 100 * a + 99" "(p - 1) div 100 = 4 * a + 3" "(p - 1) div 400 = a"
        unfolding p by (intro int_div_pos_eq [where r = 3] int_div_pos_eq [where r = 99] int_div_pos_eq [where r = 399]; simp)+
      then show ?thesis using n True z by (simp add: p is_leap_def days_before_year_def mod_mult_left_eq)
    next
      case False
      then have b4: "b < 4" and e4: "e = 4" using b True by auto
      then have z: "r = 0" "c \<noteq> 24" using s2 s3 r2 r3 r by linarith+
      then have c24: "c < 24" using c by simp
      have p: "p = 400 * a + 100 * b + 4 * (c + 1)" using e4 by (simp add: p_def)
      have "(p - 1) div 4 = 100 * a + 25 * b + c" unfolding p using c24 c by (intro int_div_pos_eq [where r = 3]) auto
      moreover have "(p - 1) div 100 = 4 * a + b" unfolding p using c24 c by (intro int_div_pos_eq [where r = "4 * c + 3"]) auto
      moreover have "(p - 1) div 400 = a" unfolding p using c24 c b b4 by (intro int_div_pos_eq [where r = "100 * b + 4 * c + 3"]) auto
      moreover have "p mod 4 = 0" unfolding p by presburger
      moreover have "p mod 100 = 4 * (c + 1)"
        unfolding p using c24 c by (intro int_mod_pos_eq [where q = "4 * a + b"]) auto
      ultimately show ?thesis using n z e4 c by (simp add: is_leap_def days_before_year_def p)
    qed
    then show ?thesis using v y last days_before_month_13 [of p] by (simp add: ymd2ord_def)
  qed
qed

section \<open>The text of a date\<close>

definition date_text :: "int \<Rightarrow> string" where
  "date_text n = (case ord2ymd n of (y, m, d) \<Rightarrow> num_enc 4 y @ ''-'' @ num_enc 2 m @ ''-'' @ num_enc 2 d)"

definition date_of_text :: "string \<Rightarrow> int option" where
  "date_of_text s =
     (case (num_dec 4 10000 (take 4 s), num_dec 2 13 (take 2 (drop 5 s)), num_dec 2 32 (drop 8 s)) of
        (Some y, Some m, Some d) \<Rightarrow>
          if take 1 (drop 4 s) = ''-'' \<and> take 1 (drop 7 s) = ''-'' \<and> 1 \<le> y \<and> valid_ymd y m d
          then Some (ymd2ord y m d) else None
      | _ \<Rightarrow> None)"

interpretation year_field: fixed_field "num_enc 4" "num_dec 4 10000" 4 "\<lambda>k. 0 \<le> k \<and> k < 10000"
  by (rule num_field) simp_all

interpretation month_field: fixed_field "num_enc 2" "num_dec 2 13" 2 "\<lambda>k. 0 \<le> k \<and> k < 13"
  by (rule num_field) simp_all

interpretation day_field: fixed_field "num_enc 2" "num_dec 2 32" 2 "\<lambda>k. 0 \<le> k \<and> k < 32"
  by (rule num_field) simp_all

lemma ord2ymd_range:
  assumes "ord2ymd n = (y, m, d)" and "1 \<le> n" and "n \<le> 3652059"
  shows "1 \<le> y" and "y \<le> 9999"
proof -
  note c = ord2ymd_correct [OF assms(1)]
  have first: "ymd2ord 1 1 1 = 1" "valid_ymd 1 1 1"
    by (simp_all add: ymd2ord_def days_before_year_def days_before_month_1 valid_ymd_def days_in_month_def)
  have "days_before_month 9999 12 = 334"
    using days_before_month_Suc [of 12 9999] days_before_month_13 [of 9999] by (simp add: days_in_month_def is_leap_def)
  then have last: "ymd2ord 9999 12 31 = 3652059" "valid_ymd 9999 12 31"
    by (simp_all add: ymd2ord_def days_before_year_def valid_ymd_def days_in_month_def)
  show "1 \<le> y"
    using ymd2ord_less_year [of y m d 1 1 1] c first assms(2) by force
  show "y \<le> 9999"
    using ymd2ord_less_year [of 9999 12 31 y m d] c last assms(3) by force
qed

interpretation date_field: fixed_field date_text date_of_text 10 "\<lambda>n. 1 \<le> n \<and> n \<le> 3652059"
proof
  fix n :: int assume n: "1 \<le> n \<and> n \<le> 3652059"
  obtain y m d where o: "ord2ymd n = (y, m, d)" by (cases "ord2ymd n")
  note c = ord2ymd_correct [OF o]
  have r: "1 \<le> y" "y \<le> 9999" using ord2ymd_range [OF o] n by simp_all
  have md: "1 \<le> m" "m \<le> 12" "1 \<le> d" "d \<le> 31"
    using c days_in_month_pos [of y m] by (auto simp: valid_ymd_def)
  have w: "length (num_enc 4 y) = 4" "length (num_enc 2 m) = 2" "length (num_enc 2 d) = 2"
    using year_field.width [of y] month_field.width [of m] day_field.width [of d] r md by simp_all
  then show "length (date_text n) = 10" by (simp add: date_text_def o)
  have "num_dec 4 10000 (num_enc 4 y) = Some y" "num_dec 2 13 (num_enc 2 m) = Some m" "num_dec 2 32 (num_enc 2 d) = Some d"
    using year_field.dec_enc [of y] month_field.dec_enc [of m] day_field.dec_enc [of d] r md by simp_all
  then show "date_of_text (date_text n) = Some n"
    using w c r by (simp add: date_of_text_def date_text_def o)
next
  fix n n' :: int assume n: "1 \<le> n \<and> n \<le> 3652059" and n': "1 \<le> n' \<and> n' \<le> 3652059" and l: "n < n'"
  obtain y m d y' m' d' where o: "ord2ymd n = (y, m, d)" "ord2ymd n' = (y', m', d')"
    by (cases "ord2ymd n", cases "ord2ymd n'")
  note c = ord2ymd_correct [OF o(1)] and c' = ord2ymd_correct [OF o(2)]
  have r: "0 \<le> y" "y < 10000" "0 \<le> y'" "y' < 10000"
    using ord2ymd_range [OF o(1)] ord2ymd_range [OF o(2)] n n' by simp_all
  have md: "0 \<le> m" "m < 13" "0 \<le> d" "d < 32" "0 \<le> m'" "m' < 13" "0 \<le> d'" "d' < 32"
    using c c' days_in_month_pos [of y m] days_in_month_pos [of y' m'] by (auto simp: valid_ymd_def)
  have "y < y' \<or> y = y' \<and> (m < m' \<or> m = m' \<and> d < d')"
  proof (rule ccontr)
    assume "\<not> ?thesis"
    then have "y' < y \<or> y' = y \<and> m' < m \<or> y' = y \<and> m' = m \<and> d' \<le> d" by auto
    moreover have "y' < y \<Longrightarrow> n' < n" using ymd2ord_less_year [of y' m' d' y m d] c c' by simp
    moreover have "y' = y \<and> m' < m \<Longrightarrow> n' < n" using ymd2ord_less_month [of y m' d' m d] c c' by simp
    moreover have "y' = y \<and> m' = m \<and> d' \<le> d \<Longrightarrow> n' \<le> n" using c c' by (simp add: ymd2ord_def)
    ultimately show False using l by auto
  qed
  then show "date_text n < date_text n'"
    using r md by (auto simp: date_text_def o year_field.enc_append_less month_field.enc_append_less day_field.enc_less_iff)
qed

section \<open>The text of a time stamp\<close>

definition second_text :: "int \<Rightarrow> string" where
  "second_text = pair_enc (num_enc 2) ''.'' (num_enc 6) 1000000"

definition minute_text :: "int \<Rightarrow> string" where
  "minute_text = pair_enc (num_enc 2) '':'' second_text 60000000"

definition time_text :: "int \<Rightarrow> string" where
  \<comment> \<open>\<open>HH:MM:SS.ffffff\<close> of the microseconds of a day.\<close>
  "time_text = pair_enc (num_enc 2) '':'' minute_text 3600000000"

definition second_of_text :: "string \<Rightarrow> int option" where
  "second_of_text = pair_dec (num_dec 2 60) 2 ''.'' (num_dec 6 1000000) 1000000"

definition minute_of_text :: "string \<Rightarrow> int option" where
  "minute_of_text = pair_dec (num_dec 2 60) 2 '':'' second_of_text 60000000"

definition time_of_text :: "string \<Rightarrow> int option" where
  "time_of_text = pair_dec (num_dec 2 24) 2 '':'' minute_of_text 3600000000"

definition stamp_text :: "timestamp \<Rightarrow> string" where
  \<comment> \<open>Day 719163 is the first of January 1970.\<close>
  "stamp_text = pair_enc (\<lambda>n. date_text (n + 719163)) ''T'' time_text 86400000000"

definition stamp_of_text :: "string \<Rightarrow> timestamp option" where
  "stamp_of_text = pair_dec (\<lambda>s. map_option (\<lambda>n. n - 719163) (date_of_text s)) 10 ''T'' time_of_text 86400000000"

definition iso :: "timestamp \<Rightarrow> string" where
  \<comment> \<open>\<open>value.astimezone(UTC).isoformat(timespec="microseconds")\<close>\<close>
  "iso t = stamp_text t @ ''+00:00''"

definition from_iso :: "string \<Rightarrow> timestamp option" where
  \<comment> \<open>\<open>datetime.fromisoformat\<close> on the form that is stored; \<open>None\<close> for any other text.\<close>
  "from_iso s = (if drop 26 s = ''+00:00'' then stamp_of_text (take 26 s) else None)"

definition representable :: "timestamp \<Rightarrow> bool" where
  \<comment> \<open>From the year 1 to the year 9999, the range of \<open>datetime\<close>.\<close>
  "representable t \<longleftrightarrow> -62135596800000000 \<le> t \<and> t < 253402300800000000"

interpretation second_field: fixed_field second_text second_of_text 9 "\<lambda>u. 0 \<le> u \<and> u < 60000000"
  unfolding second_text_def second_of_text_def
  by (rule fixed_field_pair_range [OF num_field num_field]) simp_all

interpretation minute_field: fixed_field minute_text minute_of_text 12 "\<lambda>u. 0 \<le> u \<and> u < 3600000000"
  unfolding minute_text_def minute_of_text_def
  by (rule fixed_field_pair_range [OF num_field second_field.fixed_field_axioms]) simp_all

interpretation time_field: fixed_field time_text time_of_text 15 "\<lambda>u. 0 \<le> u \<and> u < 86400000000"
  unfolding time_text_def time_of_text_def
  by (rule fixed_field_pair_range [OF num_field minute_field.fixed_field_axioms]) simp_all

lemma date_from_1970:
  "fixed_field (\<lambda>n. date_text (n + 719163)) (\<lambda>s. map_option (\<lambda>n. n - 719163) (date_of_text s)) 10
     (\<lambda>n. - 719162 \<le> n \<and> n < 2932897)"
proof
  fix a :: int assume "- 719162 \<le> a \<and> a < 2932897"
  then have r: "1 \<le> a + 719163 \<and> a + 719163 \<le> 3652059" by simp
  show "length (date_text (a + 719163)) = 10" by (rule date_field.width [OF r])
  show "map_option (\<lambda>n. n - 719163) (date_of_text (date_text (a + 719163))) = Some a"
    by (simp add: date_field.dec_enc [OF r])
next
  fix a b :: int assume "- 719162 \<le> a \<and> a < 2932897" and "- 719162 \<le> b \<and> b < 2932897" and "a < b"
  then show "date_text (a + 719163) < date_text (b + 719163)" by (intro date_field.less) simp_all
qed

interpretation stamp_field: fixed_field stamp_text stamp_of_text 26 representable
  unfolding stamp_text_def stamp_of_text_def representable_def
  by (rule fixed_field_pair_range [OF date_from_1970 time_field.fixed_field_axioms]) simp_all

lemma iso_reads_back: "representable t \<Longrightarrow> from_iso (iso t) = Some t"
  using stamp_field.width [of t] by (simp add: iso_def from_iso_def stamp_field.dec_enc)

lemma iso_less_iff: "representable t \<Longrightarrow> representable u \<Longrightarrow> iso t < iso u \<longleftrightarrow> t < u"
  by (simp add: iso_def stamp_field.enc_append_less)

section \<open>Properties\<close>

text \<open>C34: The stored text of a time stamp is faithful: for every moment from the year 1 to the year 9999 it
  has 32 characters, reads back as the same microsecond, and two texts compare as strings exactly as
  the moments compare, which is what the SQL statements rely on.\<close>

theorem iso_faithful:
  assumes "representable t"
  shows "length (iso t) = 32 \<and> from_iso (iso t) = Some t \<and>
    (representable u \<longrightarrow> (iso t < iso u \<longleftrightarrow> t < u) \<and> (iso t = iso u \<longleftrightarrow> t = u))"
proof (intro conjI impI)
  show "length (iso t) = 32" by (simp add: iso_def stamp_field.width [OF assms])
  show "from_iso (iso t) = Some t" by (rule iso_reads_back [OF assms])
  assume u: "representable u"
  show "iso t < iso u \<longleftrightarrow> t < u" by (rule iso_less_iff [OF assms u])
  show "iso t = iso u \<longleftrightarrow> t = u"
    using stamp_field.enc_eq_iff [OF assms u] by (simp add: iso_def)
qed

theorem iso_faithful_witness:
  "from_iso (iso 1709164800000001) = Some 1709164800000001 \<and> iso 1709164799999999 < iso 1709164800000001"
  using iso_faithful [of 1709164799999999 1709164800000001] iso_faithful [of 1709164800000001 0]
  by (simp add: representable_def)

lemma iso_of_leap_day: "iso 1709164800000001 = ''2024-02-29T00:00:00.000001+00:00''"
  by code_simp

end
