(* ===== verification/Columns.thy ===== *)
theory Columns
  imports Storage IsoTime
begin

text \<open>
  The tables of \<open>cachepilot_core/storage.py\<close> as SQLite holds them: cells, the column tuples, the values
  that the INSERT statements bind and the \<open>_row_to_*\<close> functions that read a row back. Theory Storage works
  on decoded rows; this theory shows that the encoding loses nothing and that a comparison of stored
  texts is the comparison of times used there. The schema and its migrations are in theory Schema.

  \<open>str\<close> of a \<open>Decimal\<close> depends on its exponent and not only on its value, so it is a parameter with the
  documented law that \<open>Decimal\<close> reads it back; \<open>json.dumps\<close> and \<open>json.loads\<close> are parameters likewise.
\<close>

section \<open>Cells\<close>

datatype sql_value = SNull | SInt int | SReal flt | SText string

datatype field_type = F_any | F_int | F_real | F_text | F_opt field_type

fun fits :: "field_type \<Rightarrow> sql_value \<Rightarrow> bool" where
  \<comment> \<open>The check of a model field; the affinity of the column has already turned numeric text into numbers.\<close>
  "fits F_any v = True"
| "fits F_int v = (case v of SInt _ \<Rightarrow> True | _ \<Rightarrow> False)"
| "fits F_real v = (case v of SReal _ \<Rightarrow> True | SInt _ \<Rightarrow> True | _ \<Rightarrow> False)"
| "fits F_text v = (case v of SText _ \<Rightarrow> True | _ \<Rightarrow> False)"
| "fits (F_opt f) v = (v = SNull \<or> fits f v)"

fun of_text :: "sql_value \<Rightarrow> string" where
  "of_text (SText s) = s"
| "of_text _ = []"

fun of_text_opt :: "sql_value \<Rightarrow> string option" where
  "of_text_opt (SText s) = Some s"
| "of_text_opt _ = None"

fun of_int_cell :: "sql_value \<Rightarrow> int" where
  "of_int_cell (SInt i) = i"
| "of_int_cell _ = 0"

fun of_int_opt :: "sql_value \<Rightarrow> int option" where
  "of_int_opt (SInt i) = Some i"
| "of_int_opt _ = None"

fun of_real_opt :: "sql_value \<Rightarrow> flt option" where
  "of_real_opt (SReal r) = Some r"
| "of_real_opt (SInt i) = Some (of_int i)"
| "of_real_opt _ = None"

definition of_real_cell :: "sql_value \<Rightarrow> flt" where
  "of_real_cell v = opt_or (of_real_opt v) 0"

fun py_bool :: "sql_value \<Rightarrow> bool" where
  "py_bool SNull = False"
| "py_bool (SInt i) = (i \<noteq> 0)"
| "py_bool (SReal r) = (r \<noteq> 0)"
| "py_bool (SText s) = (s \<noteq> [])"

fun opt_text :: "string option \<Rightarrow> sql_value" where
  "opt_text None = SNull"
| "opt_text (Some s) = SText s"

fun opt_int :: "int option \<Rightarrow> sql_value" where
  "opt_int None = SNull"
| "opt_int (Some i) = SInt i"

fun opt_real :: "flt option \<Rightarrow> sql_value" where
  "opt_real None = SNull"
| "opt_real (Some r) = SReal r"

definition bool_cell :: "bool \<Rightarrow> sql_value" where
  "bool_cell b = SInt (if b then 1 else 0)"

definition decimal_to_text :: "(flt \<Rightarrow> string) \<Rightarrow> flt option \<Rightarrow> sql_value" where
  "decimal_to_text dec_str c = opt_text (map_option dec_str c)"

fun text_to_decimal :: "sql_value \<Rightarrow> pyfloat option" where
  "text_to_decimal SNull = None"
| "text_to_decimal (SText s) = py_decimal_of_string s"
| "text_to_decimal (SInt i) = Some (Fin (of_int i))"
| "text_to_decimal (SReal r) = Some (Fin r)"

definition cost_cell :: "sql_value \<Rightarrow> py_error + flt option" where
  \<comment> \<open>A \<open>Decimal | None\<close> field of a model refuses an infinity and a NaN.\<close>
  "cost_cell v =
     (case text_to_decimal v of
        None \<Rightarrow> Inr None | Some (Fin c) \<Rightarrow> Inr (Some c) | Some _ \<Rightarrow> Inl ValidationError)"

definition time_cell :: "sql_value \<Rightarrow> py_error + timestamp" where
  "time_cell v =
     (case v of
        SText s \<Rightarrow> (case from_iso s of None \<Rightarrow> Inl ValueError | Some t \<Rightarrow> Inr t)
      | _ \<Rightarrow> Inl TypeError)"

fun outcome_value :: "outcome \<Rightarrow> string" where
  "outcome_value CONFIRMED_HIT = ''confirmed_hit''"
| "outcome_value MISS_REBUILT = ''miss_rebuilt''"
| "outcome_value SUCCESS_UNVERIFIED = ''success_unverified''"
| "outcome_value FAILED = ''failed''"

definition outcome_cell :: "sql_value \<Rightarrow> py_error + outcome" where
  "outcome_cell v =
     (case find (\<lambda>x. v = SText (outcome_value x)) [CONFIRMED_HIT, MISS_REBUILT, SUCCESS_UNVERIFIED, FAILED] of
        None \<Rightarrow> Inl ValueError | Some x \<Rightarrow> Inr x)"

definition verdict_cell :: "sql_value \<Rightarrow> py_error + route_miss_verdict" where
  "verdict_cell v =
     (case find (\<lambda>x. v = SText (verdict_value x)) [ROUTE_INSTABILITY, SHORT_TTL, CLEAN] of
        None \<Rightarrow> Inl ValueError | Some x \<Rightarrow> Inr x)"

section \<open>Columns\<close>

definition REQUEST_EVENT_COLUMNS :: "string list" where
  "REQUEST_EVENT_COLUMNS = [''id'', ''session_hash'', ''timestamp'', ''provider'', ''model'', ''route_hash'',
     ''request_fingerprint'', ''cache_fingerprint'', ''system_hash'', ''tools_hash'',
     ''history_hash'', ''input_tokens'', ''output_tokens'', ''cache_read_tokens'',
     ''cache_write_tokens'', ''cost_usd'', ''request_kind'', ''outcome'', ''tools_set_hash'']"

definition CHURN_EVENT_COLUMNS :: "string list" where
  "CHURN_EVENT_COLUMNS = [''id'', ''timestamp'', ''session_hash'', ''previous_cache_fingerprint'',
     ''new_cache_fingerprint'', ''provider'', ''model'', ''route_hash'', ''system_changed'',
     ''tools_changed'', ''history_changed'', ''route_changed'', ''cache_key_changed'',
     ''model_changed'', ''likely_cause'', ''confidence'', ''estimated_prefix_loss_tokens'',
     ''first_divergent_offset'', ''first_divergent_layer'']"

definition LEASE_COLUMNS :: "string list" where
  "LEASE_COLUMNS = [''id'', ''lease_id'', ''session_hash'', ''provider'', ''model'', ''api_mode'',
     ''base_url_hash'', ''auth_scope_hash'', ''route_fingerprint'', ''request_fingerprint'',
     ''cache_fingerprint'', ''system_fingerprint'', ''tools_fingerprint'',
     ''history_prefix_fingerprint'', ''last_real_request_at'', ''last_cache_touch_at'',
     ''last_confirmed_hit_at'', ''estimated_ttl_s'', ''ttl_confidence'',
     ''active_targets_json'', ''generation'', ''warm_count'', ''warm_cost_usd'',
     ''estimated_cold_resume_cost_usd'', ''estimated_cached_resume_cost_usd'', ''state'',
     ''updated_at'']"

definition PROFILE_COLUMNS :: "string list" where
  "PROFILE_COLUMNS = [''provider'', ''model'', ''api_mode'', ''endpoint_hash'', ''route_hash'',
     ''ttl_lower_s'', ''ttl_upper_s'', ''ttl_estimate_s'', ''ttl_confidence'',
     ''latency_p50_ms'', ''latency_p95_ms'', ''sample_count'', ''updated_at'',
     ''profile_key'']"

definition TTL_OBSERVATION_COLUMNS :: "string list" where
  "TTL_OBSERVATION_COLUMNS = [''id'', ''timestamp'', ''cache_fingerprint'', ''route_hash'', ''idle_age_s'',
     ''outcome'', ''clean'', ''provider'', ''model'', ''api_mode'', ''endpoint_hash'']"

definition ROUTE_EVENT_COLUMNS :: "string list" where
  "ROUTE_EVENT_COLUMNS = [''id'', ''timestamp'', ''session_hash'', ''cache_fingerprint'',
     ''request_fingerprint'', ''previous_route_hash'', ''new_route_hash'', ''gateway'',
     ''upstream_provider'', ''endpoint'', ''region'', ''deployment'', ''verdict'']"

section \<open>Request events\<close>

definition request_cells :: "(flt \<Rightarrow> string) \<Rightarrow> stored_request_event \<Rightarrow> sql_value list" where
  \<comment> \<open>The values \<open>record_request\<close> binds, in the order of the columns after \<open>id\<close>.\<close>
  "request_cells dec_str r =
     [opt_text (sr_session_hash r), SText (iso (sr_timestamp r)), SText (sr_provider r), SText (sr_model r),
      opt_text (sr_route_hash r), SText (sr_request_fingerprint r), SText (sr_cache_fingerprint r),
      opt_text (sr_system_hash r), opt_text (sr_tools_hash r), opt_text (sr_history_hash r),
      SInt (sr_input_tokens r), SInt (sr_output_tokens r), SInt (sr_cache_read_tokens r),
      SInt (sr_cache_write_tokens r), decimal_to_text dec_str (sr_cost_usd r), SText (sr_request_kind r),
      SText (outcome_value (sr_outcome r)), opt_text (sr_tools_set_hash r)]"

definition REQUEST_FIELDS :: "field_type list" where
  "REQUEST_FIELDS = [F_int, F_opt F_text, F_any, F_text, F_text, F_opt F_text, F_text, F_text, F_opt F_text,
     F_opt F_text, F_opt F_text, F_int, F_int, F_int, F_int, F_any, F_text, F_any, F_opt F_text]"

definition decode_request :: "sql_value list \<Rightarrow> py_error + stored_request_event" where
  \<comment> \<open>\<open>_row_to_request_event\<close>: the conversions of the arguments raise before the model is checked.\<close>
  "decode_request row =
     res_bind (time_cell (row ! 2)) (\<lambda>t.
     res_bind (outcome_cell (row ! 17)) (\<lambda>out.
     res_bind (cost_cell (row ! 15)) (\<lambda>c.
       if \<not> list_all2 fits REQUEST_FIELDS row then Inl ValidationError
       else Inr \<lparr>sr_id = of_int_cell (row ! 0), sr_session_hash = of_text_opt (row ! 1), sr_timestamp = t,
         sr_provider = of_text (row ! 3), sr_model = of_text (row ! 4), sr_route_hash = of_text_opt (row ! 5),
         sr_request_fingerprint = of_text (row ! 6), sr_cache_fingerprint = of_text (row ! 7),
         sr_system_hash = of_text_opt (row ! 8), sr_tools_hash = of_text_opt (row ! 9),
         sr_history_hash = of_text_opt (row ! 10), sr_input_tokens = of_int_cell (row ! 11),
         sr_output_tokens = of_int_cell (row ! 12), sr_cache_read_tokens = of_int_cell (row ! 13),
         sr_cache_write_tokens = of_int_cell (row ! 14), sr_cost_usd = c,
         sr_request_kind = of_text (row ! 16), sr_outcome = out, sr_tools_set_hash = of_text_opt (row ! 18)\<rparr>)))"

section \<open>Churn events\<close>

definition churn_cells :: "churn_event \<Rightarrow> sql_value list" where
  "churn_cells e =
     [SText (iso (ce_timestamp e)), opt_text (ce_session_hash e), SText (ce_previous_cache_fingerprint e),
      SText (ce_new_cache_fingerprint e), opt_text (ce_provider e), opt_text (ce_model e),
      opt_text (ce_route_hash e), bool_cell (ce_system_changed e), bool_cell (ce_tools_changed e),
      bool_cell (ce_history_changed e), bool_cell (ce_route_changed e), bool_cell (ce_cache_key_changed e),
      bool_cell (ce_model_changed e), opt_text (ce_likely_cause e), opt_real (ce_confidence e),
      opt_int (ce_estimated_prefix_loss_tokens e), opt_int (ce_first_divergent_offset e),
      opt_text (ce_first_divergent_layer e)]"

definition valid_churn_event :: "churn_event \<Rightarrow> bool" where
  "valid_churn_event e \<longleftrightarrow>
     ce_previous_cache_fingerprint e \<noteq> [] \<and> ce_new_cache_fingerprint e \<noteq> [] \<and>
     pred_option (\<lambda>c. 0 \<le> c \<and> c \<le> 1) (ce_confidence e) \<and>
     pred_option (\<lambda>n. 0 \<le> n) (ce_estimated_prefix_loss_tokens e) \<and>
     pred_option (\<lambda>n. 0 \<le> n) (ce_first_divergent_offset e)"

definition CHURN_FIELDS :: "field_type list" where
  "CHURN_FIELDS = [F_opt F_int, F_any, F_opt F_text, F_text, F_text, F_opt F_text, F_opt F_text, F_opt F_text,
     F_any, F_any, F_any, F_any, F_any, F_any, F_opt F_text, F_opt F_real, F_opt F_int, F_opt F_int, F_opt F_text]"

definition decode_churn :: "sql_value list \<Rightarrow> py_error + int \<times> churn_event" where
  "decode_churn row =
     res_bind (time_cell (row ! 1)) (\<lambda>t.
       let e = \<lparr>ce_timestamp = t, ce_session_hash = of_text_opt (row ! 2),
           ce_previous_cache_fingerprint = of_text (row ! 3), ce_new_cache_fingerprint = of_text (row ! 4),
           ce_provider = of_text_opt (row ! 5), ce_model = of_text_opt (row ! 6),
           ce_route_hash = of_text_opt (row ! 7), ce_system_changed = py_bool (row ! 8),
           ce_tools_changed = py_bool (row ! 9), ce_history_changed = py_bool (row ! 10),
           ce_route_changed = py_bool (row ! 11), ce_cache_key_changed = py_bool (row ! 12),
           ce_model_changed = py_bool (row ! 13), ce_likely_cause = of_text_opt (row ! 14),
           ce_confidence = of_real_opt (row ! 15), ce_estimated_prefix_loss_tokens = of_int_opt (row ! 16),
           ce_first_divergent_offset = of_int_opt (row ! 17), ce_first_divergent_layer = of_text_opt (row ! 18)\<rparr>
       in if list_all2 fits CHURN_FIELDS row \<and> valid_churn_event e then Inr (of_int_cell (row ! 0), e)
          else Inl ValidationError)"

section \<open>Leases\<close>

definition lease_cells :: "(string list \<Rightarrow> string) \<Rightarrow> (flt \<Rightarrow> string) \<Rightarrow> stored_lease \<Rightarrow> sql_value list" where
  \<comment> \<open>\<open>dumps\<close> is \<open>json.dumps\<close> on the sorted list of the target ids.\<close>
  "lease_cells dumps dec_str l =
     [SText (sl_lease_id l), opt_text (sl_session_hash l), SText (sl_provider l), SText (sl_model l),
      SText (sl_api_mode l), SText (sl_base_url_hash l), SText (sl_auth_scope_hash l),
      opt_text (sl_route_fingerprint l), SText (sl_request_fingerprint l), SText (sl_cache_fingerprint l),
      SText (sl_system_fingerprint l), SText (sl_tools_fingerprint l), SText (sl_history_prefix_fingerprint l),
      SReal (sl_last_real_request_at l), opt_real (sl_last_cache_touch_at l), opt_real (sl_last_confirmed_hit_at l),
      SReal (sl_estimated_ttl_s l), SReal (sl_ttl_confidence l), SText (dumps (sl_active_targets l)),
      SInt (sl_generation l), SInt (sl_warm_count l), SText (dec_str (sl_warm_cost_usd l)),
      decimal_to_text dec_str (sl_estimated_cold_resume_cost_usd l),
      decimal_to_text dec_str (sl_estimated_cached_resume_cost_usd l), SText (sl_state l),
      SText (iso (sl_updated_at l))]"

definition LEASE_FIELDS :: "field_type list" where
  "LEASE_FIELDS = [F_int, F_text, F_opt F_text, F_text, F_text, F_text, F_text, F_text, F_opt F_text, F_text, F_text,
     F_text, F_text, F_text, F_real, F_opt F_real, F_opt F_real, F_real, F_real, F_any, F_int, F_int, F_any, F_any,
     F_any, F_text, F_any]"

definition decode_lease :: "(string \<Rightarrow> py_error + string list) \<Rightarrow> sql_value list \<Rightarrow> py_error + int \<times> stored_lease" where
  \<comment> \<open>\<open>loads\<close> is \<open>tuple(json.loads(s))\<close> with the check that it holds strings.\<close>
  "decode_lease loads row =
     res_bind (case row ! 19 of SText s \<Rightarrow> loads s | _ \<Rightarrow> Inl TypeError) (\<lambda>targets.
     res_bind (time_cell (row ! 26)) (\<lambda>t.
     res_bind (cost_cell (row ! 22)) (\<lambda>warm.
     res_bind (cost_cell (row ! 23)) (\<lambda>cold.
     res_bind (cost_cell (row ! 24)) (\<lambda>cached.
       if \<not> list_all2 fits LEASE_FIELDS row then Inl ValidationError
       else Inr (of_int_cell (row ! 0),
        \<lparr>sl_lease_id = of_text (row ! 1), sl_session_hash = of_text_opt (row ! 2), sl_provider = of_text (row ! 3),
         sl_model = of_text (row ! 4), sl_api_mode = of_text (row ! 5), sl_base_url_hash = of_text (row ! 6),
         sl_auth_scope_hash = of_text (row ! 7), sl_route_fingerprint = of_text_opt (row ! 8),
         sl_request_fingerprint = of_text (row ! 9), sl_cache_fingerprint = of_text (row ! 10),
         sl_system_fingerprint = of_text (row ! 11), sl_tools_fingerprint = of_text (row ! 12),
         sl_history_prefix_fingerprint = of_text (row ! 13), sl_last_real_request_at = of_real_cell (row ! 14),
         sl_last_cache_touch_at = of_real_opt (row ! 15), sl_last_confirmed_hit_at = of_real_opt (row ! 16),
         sl_estimated_ttl_s = of_real_cell (row ! 17), sl_ttl_confidence = of_real_cell (row ! 18),
         sl_active_targets = targets, sl_generation = of_int_cell (row ! 20), sl_warm_count = of_int_cell (row ! 21),
         sl_warm_cost_usd = opt_or warm 0, sl_estimated_cold_resume_cost_usd = cold,
         sl_estimated_cached_resume_cost_usd = cached, sl_state = of_text (row ! 25), sl_updated_at = t\<rparr>))))))"

section \<open>Profiles\<close>

definition profile_cells :: "timestamp \<Rightarrow> ttl_profile \<Rightarrow> sql_value list" where
  \<comment> \<open>The latency columns are never learned. \<open>now\<close> stands for a missing time of update.\<close>
  "profile_cells now p =
     [SText (tp_provider p), SText (tp_model p), SText (tp_api_mode p), SText (tp_endpoint_hash p),
      opt_text (tp_route_hash p), opt_real (lower_bound_s p), opt_real (upper_bound_s p),
      opt_real (tp_estimated_ttl_s p), SReal (confidence p), SNull, SNull, SInt (sample_count p),
      SText (iso (opt_or (tp_updated_at p) now)), SText (profile_key p)]"

definition valid_profile :: "ttl_profile \<Rightarrow> bool" where
  "valid_profile p \<longleftrightarrow> tp_provider p \<noteq> [] \<and> tp_model p \<noteq> [] \<and> tp_api_mode p \<noteq> [] \<and> tp_endpoint_hash p \<noteq> [] \<and>
     CONFIDENCE_FLOOR \<le> confidence p \<and> confidence p \<le> CONFIDENCE_CEIL \<and> 0 \<le> sample_count p"

definition PROFILE_FIELDS :: "field_type list" where
  "PROFILE_FIELDS = [F_text, F_text, F_text, F_text, F_opt F_text, F_opt F_real, F_opt F_real, F_opt F_real, F_real,
     F_opt F_real, F_opt F_real, F_int, F_any, F_any]"

definition decode_profile :: "sql_value list \<Rightarrow> py_error + ttl_profile" where
  "decode_profile row =
     res_bind (time_cell (row ! 12)) (\<lambda>t.
       let p = \<lparr>tp_provider = of_text (row ! 0), tp_model = of_text (row ! 1), tp_api_mode = of_text (row ! 2),
           tp_endpoint_hash = of_text (row ! 3), tp_route_hash = of_text_opt (row ! 4),
           lower_bound_s = of_real_opt (row ! 5), upper_bound_s = of_real_opt (row ! 6),
           tp_estimated_ttl_s = of_real_opt (row ! 7), confidence = of_real_cell (row ! 8),
           sample_count = of_int_cell (row ! 11), tp_updated_at = Some t\<rparr>
       in if list_all2 fits PROFILE_FIELDS row \<and> valid_profile p then Inr p else Inl ValidationError)"

section \<open>TTL observations and route events\<close>

definition ttl_cells :: "stored_ttl_observation \<Rightarrow> sql_value list" where
  "ttl_cells r =
     [SText (iso (s_timestamp r)), SText (s_cache_fingerprint r), opt_text (s_route_hash r), opt_real (s_idle_age_s r),
      SText (outcome_value (s_outcome r)), bool_cell (s_clean r), opt_text (s_provider r), opt_text (s_model r),
      opt_text (s_api_mode r), opt_text (s_endpoint_hash r)]"

definition decode_ttl :: "sql_value list \<Rightarrow> py_error + stored_ttl_observation" where
  \<comment> \<open>A plain dataclass: the cells are taken unchecked, with the types of the columns.\<close>
  "decode_ttl row =
     res_bind (time_cell (row ! 1)) (\<lambda>t.
     res_bind (outcome_cell (row ! 5)) (\<lambda>out.
       Inr \<lparr>s_id = of_int_cell (row ! 0), s_timestamp = t, s_cache_fingerprint = of_text (row ! 2),
         s_route_hash = of_text_opt (row ! 3), s_idle_age_s = of_real_opt (row ! 4), s_outcome = out,
         s_clean = py_bool (row ! 6), s_provider = of_text_opt (row ! 7), s_model = of_text_opt (row ! 8),
         s_api_mode = of_text_opt (row ! 9), s_endpoint_hash = of_text_opt (row ! 10)\<rparr>))"

definition route_cells :: "route_change_event \<Rightarrow> sql_value list" where
  "route_cells e =
     [SText (iso (re_timestamp e)), opt_text (re_session_hash e), SText (re_cache_fingerprint e),
      opt_text (re_request_fingerprint e), opt_text (re_previous_route_hash e), opt_text (re_new_route_hash e),
      opt_text (ri_gateway (re_identity e)), opt_text (ri_upstream_provider (re_identity e)),
      opt_text (ri_endpoint (re_identity e)), opt_text (ri_region (re_identity e)),
      opt_text (ri_deployment (re_identity e)), SText (verdict_value (re_verdict e))]"

definition ROUTE_FIELDS :: "field_type list" where
  "ROUTE_FIELDS = [F_opt F_int, F_any, F_opt F_text, F_text, F_opt F_text, F_opt F_text, F_opt F_text, F_opt F_text,
     F_opt F_text, F_opt F_text, F_opt F_text, F_opt F_text, F_any]"

definition decode_route :: "sql_value list \<Rightarrow> py_error + int \<times> route_change_event" where
  "decode_route row =
     res_bind (time_cell (row ! 1)) (\<lambda>t.
     res_bind (verdict_cell (row ! 12)) (\<lambda>v.
       if list_all2 fits ROUTE_FIELDS row \<and> of_text (row ! 3) \<noteq> []
       then Inr (of_int_cell (row ! 0),
         \<lparr>re_timestamp = t, re_session_hash = of_text_opt (row ! 2), re_cache_fingerprint = of_text (row ! 3),
          re_request_fingerprint = of_text_opt (row ! 4), re_previous_route_hash = of_text_opt (row ! 5),
          re_new_route_hash = of_text_opt (row ! 6),
          re_identity = \<lparr>ri_gateway = of_text_opt (row ! 7), ri_upstream_provider = of_text_opt (row ! 8),
            ri_endpoint = of_text_opt (row ! 9), ri_region = of_text_opt (row ! 10),
            ri_deployment = of_text_opt (row ! 11)\<rparr>, re_verdict = v\<rparr>)
       else Inl ValidationError))"

section \<open>Reading back\<close>

lemma of_opt_text [simp]: "of_text_opt (opt_text x) = x" "(case opt_text x of SText _ \<Rightarrow> True | _ \<Rightarrow> False) = (x \<noteq> None)" "opt_text x = SNull \<longleftrightarrow> x = None"
  by (cases x; simp)+

lemma none_or_some [simp]: "x = None \<or> (\<exists>y. x = Some y)"
  by (cases x) auto

lemma opt_text_is: "opt_text x = SText s \<longleftrightarrow> x = Some s"
  by (cases x) auto

lemma of_opt_int [simp]: "of_int_opt (opt_int i) = i" "(case opt_int i of SInt _ \<Rightarrow> True | _ \<Rightarrow> False) = (i \<noteq> None)" "opt_int i = SNull \<longleftrightarrow> i = None"
  by (cases i; simp)+

lemma of_opt_real [simp]: "of_real_opt (opt_real r) = r" "(case opt_real r of SReal _ \<Rightarrow> True | SInt _ \<Rightarrow> True | _ \<Rightarrow> False) = (r \<noteq> None)" "opt_real r = SNull \<longleftrightarrow> r = None"
  by (cases r; simp)+

lemma of_bool_cell [simp]: "py_bool (bool_cell b) = b"
  by (simp add: bool_cell_def)

lemma of_iso [simp]: "representable t \<Longrightarrow> time_cell (SText (iso t)) = Inr t"
  by (simp add: time_cell_def iso_reads_back)

lemma of_outcome_value [simp]: "outcome_cell (SText (outcome_value x)) = Inr x"
  by (cases x) (simp_all add: outcome_cell_def)

lemma of_verdict_value [simp]: "verdict_cell (SText (verdict_value v)) = Inr v"
  by (cases v) (simp_all add: verdict_cell_def)

lemma of_cost_text:
  "pred_option (\<lambda>c. py_decimal_of_string (dec_str c) = Some (Fin c)) x \<Longrightarrow> cost_cell (decimal_to_text dec_str x) = Inr x"
  by (cases x) (simp_all add: cost_cell_def decimal_to_text_def)

lemmas row_nth = nth_Cons_numeral nth_Cons_0 nth_Cons_Suc numeral_eq_Suc

lemma request_roundtrip:
  assumes "representable (sr_timestamp r)"
    and "pred_option (\<lambda>c. py_decimal_of_string (dec_str c) = Some (Fin c)) (sr_cost_usd r)"
  shows "decode_request (SInt i # request_cells dec_str r) = Inr (r\<lparr>sr_id := i\<rparr>)"
  using assms by (simp add: decode_request_def request_cells_def REQUEST_FIELDS_def of_cost_text)

lemma churn_roundtrip:
  assumes "representable (ce_timestamp e)" and "valid_churn_event e"
  shows "decode_churn (SInt i # churn_cells e) = Inr (i, e)"
  using assms by (simp add: decode_churn_def churn_cells_def CHURN_FIELDS_def Let_def valid_churn_event_def)

lemma lease_roundtrip:
  assumes "representable (sl_updated_at l)" and "loads (dumps (sl_active_targets l)) = Inr (sl_active_targets l)"
    and "pred_option (\<lambda>c. py_decimal_of_string (dec_str c) = Some (Fin c)) (Some (sl_warm_cost_usd l))"
    and "pred_option (\<lambda>c. py_decimal_of_string (dec_str c) = Some (Fin c)) (sl_estimated_cold_resume_cost_usd l)"
    and "pred_option (\<lambda>c. py_decimal_of_string (dec_str c) = Some (Fin c)) (sl_estimated_cached_resume_cost_usd l)"
  shows "decode_lease loads (SInt i # lease_cells dumps dec_str l) = Inr (i, l)"
proof -
  have "cost_cell (SText (dec_str (sl_warm_cost_usd l))) = Inr (Some (sl_warm_cost_usd l))"
    using assms(3) by (simp add: cost_cell_def)
  then show ?thesis
    using assms by (simp add: decode_lease_def lease_cells_def LEASE_FIELDS_def of_cost_text of_real_cell_def)
qed

lemma profile_roundtrip:
  assumes "representable (opt_or (tp_updated_at p) now)" and "valid_profile p"
  shows "decode_profile (profile_cells now p) = Inr (p\<lparr>tp_updated_at := Some (opt_or (tp_updated_at p) now)\<rparr>)"
  using assms by (simp add: decode_profile_def profile_cells_def PROFILE_FIELDS_def of_real_cell_def valid_profile_def Let_def)

lemma ttl_roundtrip:
  "representable (s_timestamp r) \<Longrightarrow> decode_ttl (SInt i # ttl_cells r) = Inr (r\<lparr>s_id := i\<rparr>)"
  by (simp add: decode_ttl_def ttl_cells_def)

lemma route_roundtrip:
  assumes "representable (re_timestamp e)" and "re_cache_fingerprint e \<noteq> []"
  shows "decode_route (SInt i # route_cells e) = Inr (i, e)"
  using assms by (simp add: decode_route_def route_cells_def ROUTE_FIELDS_def)

section \<open>Reads over cells\<close>

fun decode_rows :: "('r \<Rightarrow> py_error + 'a) \<Rightarrow> 'r list \<Rightarrow> py_error + 'a list" where
  "decode_rows f [] = Inr []"
| "decode_rows f (r # rs) = res_bind (f r) (\<lambda>x. res_bind (decode_rows f rs) (\<lambda>xs. Inr (x # xs)))"

definition select_newest :: "nat \<Rightarrow> (sql_value list \<Rightarrow> bool) \<Rightarrow> sql_value list list \<Rightarrow> sql_value list list" where
  "select_newest n P rows = take n (rev (filter P rows))"

definition sql_recent_events :: "sql_value list list \<Rightarrow> nat \<Rightarrow> py_error + stored_request_event list" where
  "sql_recent_events rows limit = decode_rows decode_request (select_newest limit (\<lambda>_. True) rows)"

definition sql_churn_list :: "sql_value list list \<Rightarrow> nat \<Rightarrow> string option \<Rightarrow> py_error + (int \<times> churn_event) list" where
  "sql_churn_list rows limit session =
     decode_rows decode_churn
       (select_newest limit (\<lambda>row. case session of None \<Rightarrow> True | Some sh \<Rightarrow> row ! 2 = SText sh) rows)"

definition sql_churn_between :: "sql_value list list \<Rightarrow> string \<Rightarrow> timestamp \<Rightarrow> timestamp \<Rightarrow> bool" where
  "sql_churn_between rows fp start stop =
     list_ex (\<lambda>row. (row ! 3 = SText fp \<or> row ! 4 = SText fp) \<and>
       iso start \<le> of_text (row ! 1) \<and> of_text (row ! 1) \<le> iso stop) rows"

definition sql_last_route_event ::
  "sql_value list list \<Rightarrow> string \<Rightarrow> timestamp option \<Rightarrow> py_error + (int \<times> route_change_event) option" where
  "sql_last_route_event rows sh since =
     (case select_newest 1 (\<lambda>row. row ! 2 = SText sh \<and>
             (case since of None \<Rightarrow> True | Some t \<Rightarrow> iso t \<le> of_text (row ! 1))) rows of
        [] \<Rightarrow> Inr None
      | row # _ \<Rightarrow> res_bind (decode_route row) (\<lambda>e. Inr (Some e)))"

definition sql_list_profiles :: "sql_value list list \<Rightarrow> nat \<Rightarrow> py_error + ttl_profile list" where
  "sql_list_profiles rows limit =
     decode_rows decode_profile (take limit (rev (sort_key (\<lambda>row. of_text (row ! 12)) rows)))"

definition request_rows :: "(flt \<Rightarrow> string) \<Rightarrow> db \<Rightarrow> sql_value list list" where
  "request_rows dec_str d = map (\<lambda>(i, r). SInt i # request_cells dec_str r) (tb_rows (db_requests d))"

definition churn_rows :: "db \<Rightarrow> sql_value list list" where
  "churn_rows d = map (\<lambda>(i, e). SInt i # churn_cells e) (tb_rows (db_churn d))"

definition route_rows :: "db \<Rightarrow> sql_value list list" where
  "route_rows d = map (\<lambda>(i, e). SInt i # route_cells e) (tb_rows (db_routes d))"

definition profile_rows :: "db \<Rightarrow> sql_value list list" where
  "profile_rows d = map (\<lambda>(k, p). profile_cells 0 p) (db_profiles d)"

definition storable :: "(flt \<Rightarrow> string) \<Rightarrow> db \<Rightarrow> bool" where
  \<comment> \<open>Every row holds valid models, and every price has a text that \<open>Decimal\<close> reads back.\<close>
  "storable dec_str d \<longleftrightarrow>
     (\<forall>(i, r) \<in> set (tb_rows (db_requests d)). representable (sr_timestamp r) \<and>
        pred_option (\<lambda>c. py_decimal_of_string (dec_str c) = Some (Fin c)) (sr_cost_usd r)) \<and>
     (\<forall>(i, e) \<in> set (tb_rows (db_churn d)). representable (ce_timestamp e) \<and> valid_churn_event e) \<and>
     (\<forall>(i, e) \<in> set (tb_rows (db_routes d)). representable (re_timestamp e) \<and> re_cache_fingerprint e \<noteq> []) \<and>
     (\<forall>(k, p) \<in> set (db_profiles d). valid_profile p \<and> (\<exists>t. tp_updated_at p = Some t \<and> representable t))"

lemma decode_rows_map:
  "(\<And>r. r \<in> set rs \<Longrightarrow> f (g r) = Inr (h r)) \<Longrightarrow> decode_rows f (map g rs) = Inr (map h rs)"
  by (induction rs) simp_all

lemma select_newest_map: "select_newest n P (map g rs) = map g (take n (rev (filter (P \<circ> g) rs)))"
  by (simp add: select_newest_def filter_map rev_map take_map)

lemma set_newest: "set (take n (rev (filter P xs))) \<subseteq> set xs"
  by (auto dest: in_set_takeD)

lemma insort_key_cong:
  "(\<And>y. y \<in> set ys \<Longrightarrow> f x \<le> f y \<longleftrightarrow> g x \<le> g y) \<Longrightarrow> insort_key f x ys = insort_key g x ys"
  by (induction ys) auto

lemma sort_key_cong:
  "(\<And>x y. x \<in> set xs \<Longrightarrow> y \<in> set xs \<Longrightarrow> f x \<le> f y \<longleftrightarrow> g x \<le> g y) \<Longrightarrow> sort_key f xs = sort_key g xs"
proof (induction xs)
  case (Cons x xs)
  then have "sort_key f xs = sort_key g xs" by simp
  moreover have "insort_key f x (sort_key g xs) = insort_key g x (sort_key g xs)"
    using Cons.prems by (intro insort_key_cong) simp
  ultimately show ?case by simp
qed simp

lemma insort_key_map: "insort_key f (h x) (map h ys) = map h (insort_key (f \<circ> h) x ys)"
  by (induction ys) auto

lemma sort_key_map: "sort_key f (map h xs) = map h (sort_key (f \<circ> h) xs)"
  by (induction xs) (simp_all add: insort_key_map o_def)

lemma iso_le_iff: "representable t \<Longrightarrow> representable u \<Longrightarrow> iso t \<le> iso u \<longleftrightarrow> t \<le> u"
  using iso_less_iff [of u t] by (simp add: linorder_not_less [symmetric])

lemma storableD:
  assumes "storable dec_str d"
  shows "(i, r) \<in> set (tb_rows (db_requests d)) \<Longrightarrow> decode_request (SInt i # request_cells dec_str r) = Inr (r\<lparr>sr_id := i\<rparr>)"
    and "(i, e) \<in> set (tb_rows (db_churn d)) \<Longrightarrow> decode_churn (SInt i # churn_cells e) = Inr (i, e)"
    and "(i, v) \<in> set (tb_rows (db_routes d)) \<Longrightarrow> decode_route (SInt i # route_cells v) = Inr (i, v)"
    and "(k, p) \<in> set (db_profiles d) \<Longrightarrow> decode_profile (profile_cells 0 p) = Inr p"
proof -
  show "decode_request (SInt i # request_cells dec_str r) = Inr (r\<lparr>sr_id := i\<rparr>)" if "(i, r) \<in> set (tb_rows (db_requests d))"
    using assms that by (intro request_roundtrip) (auto simp: storable_def)
  show "decode_churn (SInt i # churn_cells e) = Inr (i, e)" if "(i, e) \<in> set (tb_rows (db_churn d))"
    using assms that by (intro churn_roundtrip) (auto simp: storable_def)
  show "decode_route (SInt i # route_cells v) = Inr (i, v)" if "(i, v) \<in> set (tb_rows (db_routes d))"
    using assms that by (intro route_roundtrip) (auto simp: storable_def)
  assume "(k, p) \<in> set (db_profiles d)"
  then obtain t where "valid_profile p" "tp_updated_at p = Some t" "representable t" using assms by (auto simp: storable_def)
  then show "decode_profile (profile_cells 0 p) = Inr p" using profile_roundtrip [of p 0] by simp
qed

lemma sql_recent_events_refines:
  assumes "storable dec_str d"
  shows "sql_recent_events (request_rows dec_str d) n = Inr (recent_events d n)"
proof -
  have "decode_request (case x of (i, r) \<Rightarrow> SInt i # request_cells dec_str r) = Inr (row_to_request_event x)"
    if "x \<in> set (tb_rows (db_requests d))" for x
    using that storableD(1) [OF assms, of "fst x" "snd x"] by (simp add: row_to_request_event_def split_beta)
  then show ?thesis
    unfolding sql_recent_events_def request_rows_def select_newest_map recent_events_def newest_def
    by (subst decode_rows_map [where h = row_to_request_event]) (auto simp: o_def split_beta dest!: in_set_takeD)
qed

lemma sql_churn_list_refines:
  "storable dec_str d \<Longrightarrow> sql_churn_list (churn_rows d) n session = Inr (churn_list d n session)"
proof -
  assume "storable dec_str d"
  note v = storableD(2) [OF this]
  have c: "((\<lambda>row. case session of None \<Rightarrow> True | Some sh \<Rightarrow> row ! 2 = SText sh) \<circ> (\<lambda>(i, e). SInt i # churn_cells e)) =
      (\<lambda>(i, e). case session of None \<Rightarrow> True | Some sh \<Rightarrow> ce_session_hash e = Some sh)"
    by (auto simp: churn_cells_def fun_eq_iff opt_text_is split: option.split)
  have "sql_churn_list (churn_rows d) n session =
      Inr (map (\<lambda>x. x) (take n (rev (filter (\<lambda>(i, e). case session of None \<Rightarrow> True | Some sh \<Rightarrow> ce_session_hash e = Some sh)
        (tb_rows (db_churn d))))))"
    unfolding sql_churn_list_def churn_rows_def select_newest_map c
    by (rule decode_rows_map) (auto simp: v dest!: in_set_takeD)
  then show ?thesis by (simp add: churn_list_def newest_def split: option.split)
qed

lemma sql_churn_between_refines:
  assumes "storable dec_str d" and "representable start" and "representable stop"
  shows "sql_churn_between (churn_rows d) fp start stop = churn_between d fp start stop"
proof -
  have "(\<exists>r \<in> set (tb_rows (db_churn d)). case r of (i, e) \<Rightarrow> (ce_previous_cache_fingerprint e = fp \<or> ce_new_cache_fingerprint e = fp) \<and>
        iso start \<le> iso (ce_timestamp e) \<and> iso (ce_timestamp e) \<le> iso stop) \<longleftrightarrow>
      (\<exists>r \<in> set (tb_rows (db_churn d)). case r of (i, e) \<Rightarrow> (ce_previous_cache_fingerprint e = fp \<or> ce_new_cache_fingerprint e = fp) \<and>
        start \<le> ce_timestamp e \<and> ce_timestamp e \<le> stop)"
    using assms by (intro bex_cong refl) (auto simp: storable_def iso_le_iff)
  then show ?thesis
    unfolding sql_churn_between_def churn_between_def churn_rows_def list_ex_iff
    by (simp add: churn_cells_def split_beta)
qed

lemma sql_last_route_event_refines:
  assumes "storable dec_str d" and "pred_option representable since"
  shows "sql_last_route_event (route_rows d) sh since = Inr (last_route_event_for_session d sh since)"
proof -
  define P where "P = (\<lambda>(i :: int, e :: route_change_event). re_session_hash e = Some sh \<and> (case since of None \<Rightarrow> True | Some t \<Rightarrow> t \<le> re_timestamp e))"
  have f: "filter ((\<lambda>row. row ! 2 = SText sh \<and> (case since of None \<Rightarrow> True | Some t \<Rightarrow> iso t \<le> of_text (row ! 1))) \<circ>
        (\<lambda>(i, e). SInt i # route_cells e)) (tb_rows (db_routes d)) = filter P (tb_rows (db_routes d))"
    using assms by (intro filter_cong refl)
      (auto simp: P_def route_cells_def opt_text_is storable_def iso_le_iff split: option.split)
  have l: "last_route_event_for_session d sh since = first_row (take 1 (rev (filter P (tb_rows (db_routes d)))))"
    by (simp add: last_route_event_for_session_def newest_def P_def)
  show ?thesis
  proof (cases "rev (filter P (tb_rows (db_routes d)))")
    case Nil
    then show ?thesis
      unfolding sql_last_route_event_def route_rows_def select_newest_map f l by (simp add: first_row_def)
  next
    case (Cons x xs)
    then have "x \<in> set (tb_rows (db_routes d))" by (metis filter_is_subset list.set_intros(1) set_rev subsetD)
    then have "decode_route (case x of (i, e) \<Rightarrow> SInt i # route_cells e) = Inr x"
      using storableD(3) [OF assms(1), of "fst x" "snd x"] by (simp add: split_beta)
    then show ?thesis
      unfolding sql_last_route_event_def route_rows_def select_newest_map f l Cons by (simp add: first_row_def)
  qed
qed

lemma sql_list_profiles_refines:
  assumes "storable dec_str d"
  shows "sql_list_profiles (profile_rows d) n = Inr (list_profiles d n)"
proof -
  have t: "\<exists>t. tp_updated_at p = Some t \<and> representable t" if "(k, p) \<in> set (db_profiles d)" for k p
    using assms that by (auto simp: storable_def)
  have k: "((\<lambda>row. of_text (row ! 12)) \<circ> (\<lambda>(k, p). profile_cells 0 p)) x = iso (opt_or (tp_updated_at (snd x)) 0)"
    for x :: "string \<times> ttl_profile"
    by (simp add: profile_cells_def split_beta)
  have s: "sort_key ((\<lambda>row. of_text (row ! 12)) \<circ> (\<lambda>(k, p). profile_cells 0 p)) (db_profiles d) =
      sort_key (\<lambda>x. opt_or (tp_updated_at (snd x)) 0) (db_profiles d)"
  proof (rule sort_key_cong, unfold k)
    fix x y assume "x \<in> set (db_profiles d)" "y \<in> set (db_profiles d)"
    then obtain a b where "tp_updated_at (snd x) = Some a" "representable a" "tp_updated_at (snd y) = Some b" "representable b"
      using t [of "fst x" "snd x"] t [of "fst y" "snd y"] by auto
    then show "iso (opt_or (tp_updated_at (snd x)) 0) \<le> iso (opt_or (tp_updated_at (snd y)) 0) \<longleftrightarrow>
        opt_or (tp_updated_at (snd x)) 0 \<le> opt_or (tp_updated_at (snd y)) 0"
      by (simp add: iso_le_iff)
  qed
  have d: "decode_profile (case x of (k, p) \<Rightarrow> profile_cells 0 p) = Inr (snd x)" if "x \<in> set (db_profiles d)" for x
    using that storableD(4) [OF assms, of "fst x" "snd x"] by (simp add: split_beta)
  have "sql_list_profiles (profile_rows d) n =
      decode_rows decode_profile (map (\<lambda>(k, p). profile_cells 0 p)
        (take n (rev (sort_key (\<lambda>x. opt_or (tp_updated_at (snd x)) 0) (db_profiles d)))))"
    unfolding sql_list_profiles_def profile_rows_def sort_key_map s by (simp add: rev_map take_map)
  also have "\<dots> = Inr (map snd (take n (rev (sort_key (\<lambda>x. opt_or (tp_updated_at (snd x)) 0) (db_profiles d)))))"
    using d by (intro decode_rows_map) (auto dest!: in_set_takeD)
  finally show ?thesis
    by (simp add: list_profiles_def sort_key_map o_def rev_map take_map)
qed

text \<open>C35: Reading the SQLite cells is reading the rows. For a database of valid models, every read that
  decodes rows or compares stored times - the recent requests, the churn list, the check for churn
  between two observations, the newest route event since a moment, the profiles by their time of
  update - succeeds on the cells and gives what the row-level store gives.\<close>

theorem sql_reads_refine:
  assumes "storable dec_str d" and "representable start" and "representable stop" and "pred_option representable since"
  shows "sql_recent_events (request_rows dec_str d) n = Inr (recent_events d n) \<and>
    sql_churn_list (churn_rows d) n session = Inr (churn_list d n session) \<and>
    sql_churn_between (churn_rows d) fp start stop = churn_between d fp start stop \<and>
    sql_last_route_event (route_rows d) sh since = Inr (last_route_event_for_session d sh since) \<and>
    sql_list_profiles (profile_rows d) n = Inr (list_profiles d n)"
  using assms sql_recent_events_refines sql_churn_list_refines sql_churn_between_refines
    sql_last_route_event_refines sql_list_profiles_refines by blast

definition priced_event :: telemetry_event where
  "priced_event = sample_event\<lparr>te_usage := empty_usage\<lparr>cost := Some (1 / 4)\<rparr>\<rparr>"

theorem sql_reads_refine_witness:
  "sql_recent_events (request_rows (\<lambda>c. ''0.25'') (fst (record_request fresh_db priced_event))) 1 =
     Inr (recent_events (fst (record_request fresh_db priced_event)) 1)"
proof -
  have "py_decimal_of_string ''0.25'' = Some (Fin (1 / 4))" by code_simp
  then have "storable (\<lambda>c. ''0.25'') (fst (record_request fresh_db priced_event))"
    by (simp add: storable_def record_request_def insert_row_def fresh_db_def empty_table_def request_row_def
        priced_event_def sample_event_def empty_usage_def representable_def)
  moreover have "representable 0" by (simp add: representable_def)
  ultimately show ?thesis using sql_reads_refine [of _ _ 0 0 None] by simp
qed

end
