(* ===== verification/Schema.thy ===== *)
theory Schema
  imports Columns
begin

text \<open>
  The schema and the migrations of \<open>cachepilot_core/storage.py\<close>: what \<open>connect\<close> does to a database file of
  any earlier release, the probe of the read-only openers, and the path of the file. A database is its
  tables by name, a table its column names and its rows by column; \<open>None\<close> is an exception of SQLite. Column
  types, indexes and the journal mode hold no data and are not modelled.
\<close>

section \<open>Tables by column\<close>

type_synonym sql_row = "(string, sql_value) dict"

record sql_table =
  st_columns :: "string list"
  st_rows :: "sql_row list"

type_synonym sql_db = "(string, sql_table) dict"

definition sql_cell :: "sql_row \<Rightarrow> string \<Rightarrow> sql_value" where
  \<comment> \<open>A row written before the column was added reads NULL.\<close>
  "sql_cell r c = opt_or (dget r c) SNull"

definition select_columns :: "string list \<Rightarrow> sql_table \<Rightarrow> sql_value list list option" where
  "select_columns cs t = (if set cs \<subseteq> set (st_columns t) then Some (map (\<lambda>r. map (sql_cell r) cs) (st_rows t)) else None)"

section \<open>The schema\<close>

definition CHURN_ENRICHMENT :: "string list" where
  "CHURN_ENRICHMENT = [''likely_cause'', ''confidence'', ''estimated_prefix_loss_tokens'', ''first_divergent_offset'',
     ''first_divergent_layer'']"

definition REQUEST_ENRICHMENT :: "string list" where
  "REQUEST_ENRICHMENT = [''tools_set_hash'']"

definition TTL_ENRICHMENT :: "string list" where
  "TTL_ENRICHMENT = [''provider'', ''model'', ''api_mode'', ''endpoint_hash'']"

definition SCHEMA :: "(string \<times> string list) list" where
  "SCHEMA = [(''request_events'', REQUEST_EVENT_COLUMNS), (''churn_events'', CHURN_EVENT_COLUMNS),
     (''leases'', LEASE_COLUMNS), (''provider_profiles'', PROFILE_COLUMNS),
     (''ttl_observations'', TTL_OBSERVATION_COLUMNS), (''route_events'', ROUTE_EVENT_COLUMNS)]"

definition create_table :: "sql_db \<Rightarrow> string \<times> string list \<Rightarrow> sql_db" where
  \<comment> \<open>\<open>CREATE TABLE IF NOT EXISTS\<close>\<close>
  "create_table d entry =
     (if dget d (fst entry) = None then dset d (fst entry) \<lparr>st_columns = snd entry, st_rows = []\<rparr> else d)"

definition add_column :: "string \<Rightarrow> string \<Rightarrow> sql_db \<Rightarrow> sql_db option" where
  \<comment> \<open>\<open>ALTER TABLE ADD COLUMN\<close>; the error for a duplicate is caught, the one for a missing table is not.\<close>
  "add_column name c d =
     (case dget d name of
        None \<Rightarrow> None
      | Some t \<Rightarrow> if c \<in> set (st_columns t) then Some d
                  else Some (dset d name (t\<lparr>st_columns := st_columns t @ [c]\<rparr>)))"

fun add_columns :: "string \<Rightarrow> string list \<Rightarrow> sql_db \<Rightarrow> sql_db option" where
  "add_columns name [] d = Some d"
| "add_columns name (c # cs) d = Option.bind (add_column name c d) (add_columns name cs)"

definition ensure_churn_columns :: "sql_db \<Rightarrow> sql_db option" where
  "ensure_churn_columns d = add_columns ''churn_events'' CHURN_ENRICHMENT d"

definition ensure_request_columns :: "sql_db \<Rightarrow> sql_db option" where
  "ensure_request_columns d =
     (if dget d ''request_events'' = None then Some d else add_columns ''request_events'' REQUEST_ENRICHMENT d)"

definition ensure_ttl_observation_columns :: "sql_db \<Rightarrow> sql_db option" where
  "ensure_ttl_observation_columns d =
     (if dget d ''ttl_observations'' = None then Some d else add_columns ''ttl_observations'' TTL_ENRICHMENT d)"

definition connect :: "sql_db \<Rightarrow> sql_db option" where
  "connect d =
     Option.bind (ensure_churn_columns (foldl create_table d SCHEMA)) (\<lambda>d.
     Option.bind (ensure_request_columns d) ensure_ttl_observation_columns)"

definition is_readable_sqlite :: "sql_db option \<Rightarrow> bool" where
  \<comment> \<open>The probe of the read-only openers; \<open>None\<close> is a file that is no database.\<close>
  "is_readable_sqlite file = (case file of None \<Rightarrow> False | Some d \<Rightarrow> list_all (\<lambda>(n, cs). dget d n \<noteq> None) SCHEMA)"

section \<open>The path\<close>

definition resolve_db_path :: "(string \<Rightarrow> string) \<Rightarrow> (string \<Rightarrow> string option) \<Rightarrow> string option \<Rightarrow> string" where
  \<comment> \<open>\<open>expanduser\<close> is a parameter.\<close>
  "resolve_db_path expanduser env db_path =
     (case db_path of
        Some p \<Rightarrow> expanduser p
      | None \<Rightarrow> expanduser (case env ''CACHEPILOT_TELEMETRY_DB'' of
                             Some (c # cs) \<Rightarrow> c # cs | _ \<Rightarrow> ''~/.hermes/cachepilot/cachepilot.db''))"

section \<open>Migrations\<close>

definition grow :: "sql_table option \<Rightarrow> string list \<Rightarrow> sql_table option" where
  \<comment> \<open>What a migration may do to a table: append the columns that are missing.\<close>
  "grow t cs = map_option (\<lambda>t. t\<lparr>st_columns := st_columns t @ filter (\<lambda>c. c \<notin> set (st_columns t)) cs\<rparr>) t"

lemma add_columns_grow:
  "dget d name = Some t \<Longrightarrow> distinct cs \<Longrightarrow>
   \<exists>d'. add_columns name cs d = Some d' \<and> dget d' name = grow (Some t) cs \<and> (\<forall>n. n \<noteq> name \<longrightarrow> dget d' n = dget d n)"
proof (induction cs arbitrary: d t)
  case Nil
  then show ?case by (simp add: grow_def)
next
  case (Cons c cs)
  show ?case
  proof (cases "c \<in> set (st_columns t)")
    case True
    then have "add_column name c d = Some d" using Cons.prems by (simp add: add_column_def)
    then show ?thesis using Cons.IH [OF Cons.prems(1)] Cons.prems(2) True by (simp add: grow_def)
  next
    case False
    define t1 where "t1 = t\<lparr>st_columns := st_columns t @ [c]\<rparr>"
    define d1 where "d1 = dset d name t1"
    have a: "add_column name c d = Some d1" using Cons.prems False by (simp add: add_column_def d1_def t1_def)
    have g1: "dget d1 name = Some t1" "\<And>n. n \<noteq> name \<Longrightarrow> dget d1 n = dget d n"
      by (simp_all add: d1_def update_conv)
    obtain d' where d': "add_columns name cs d1 = Some d'" "dget d' name = grow (Some t1) cs"
        "\<forall>n. n \<noteq> name \<longrightarrow> dget d' n = dget d1 n"
      using Cons.IH [OF g1(1)] Cons.prems(2) by auto
    have "filter (\<lambda>x. x \<noteq> c \<and> x \<notin> set (st_columns t)) cs = filter (\<lambda>x. x \<notin> set (st_columns t)) cs"
      using Cons.prems(2) by (intro filter_cong) auto
    then have "grow (Some t1) cs = grow (Some t) (c # cs)" using False by (simp add: grow_def t1_def)
    then show ?thesis using a d' g1 by auto
  qed
qed

lemma create_table_get:
  "dget (create_table d e) n = (if dget d n = None \<and> n = fst e then Some \<lparr>st_columns = snd e, st_rows = []\<rparr> else dget d n)"
  by (auto simp: create_table_def update_conv)

lemma create_tables_get:
  "distinct (map fst es) \<Longrightarrow>
   dget (foldl create_table d es) n =
     (case dget d n of Some t \<Rightarrow> Some t | None \<Rightarrow> map_option (\<lambda>cs. \<lparr>st_columns = cs, st_rows = []\<rparr>) (dget es n))"
proof (induction es arbitrary: d)
  case (Cons e es)
  have "dget es (fst e) = None" using Cons.prems by (simp add: map_of_eq_None_iff)
  then show ?case
    using Cons by (cases e) (auto simp: create_table_get split: option.split)
qed (simp split: option.split)

definition enrichment :: "string \<Rightarrow> string list" where
  "enrichment n = (if n = ''churn_events'' then CHURN_ENRICHMENT else if n = ''request_events'' then REQUEST_ENRICHMENT
     else if n = ''ttl_observations'' then TTL_ENRICHMENT else [])"

lemma grow_none: "grow t [] = t"
  by (cases t) (simp_all add: grow_def)

lemma SCHEMA_names: "distinct (map fst SCHEMA)"
  by (simp add: SCHEMA_def)

lemma connect_get:
  "\<exists>d'. connect d = Some d' \<and>
     (\<forall>n. dget d' n = grow (case dget d n of Some t \<Rightarrow> Some t
            | None \<Rightarrow> map_option (\<lambda>cs. \<lparr>st_columns = cs, st_rows = []\<rparr>) (dget SCHEMA n)) (enrichment n))"
proof -
  define d0 where "d0 = foldl create_table d SCHEMA"
  have g0: "dget d0 n = (case dget d n of Some t \<Rightarrow> Some t
      | None \<Rightarrow> map_option (\<lambda>cs. \<lparr>st_columns = cs, st_rows = []\<rparr>) (dget SCHEMA n))" for n
    unfolding d0_def by (rule create_tables_get [OF SCHEMA_names])
  have present: "\<exists>t. dget d0 n = Some t" if "dget SCHEMA n \<noteq> None" for n
    using that by (auto simp: g0 split: option.split)
  have p: "dget SCHEMA ''churn_events'' \<noteq> None" "dget SCHEMA ''request_events'' \<noteq> None" "dget SCHEMA ''ttl_observations'' \<noteq> None"
    by (simp_all add: SCHEMA_def)
  have dis: "distinct CHURN_ENRICHMENT" "distinct REQUEST_ENRICHMENT" "distinct TTL_ENRICHMENT"
    by (simp_all add: CHURN_ENRICHMENT_def REQUEST_ENRICHMENT_def TTL_ENRICHMENT_def)
  obtain tc where tc: "dget d0 ''churn_events'' = Some tc" using present [OF p(1)] by blast
  obtain d1 where d1: "ensure_churn_columns d0 = Some d1" "dget d1 ''churn_events'' = grow (Some tc) CHURN_ENRICHMENT"
      "\<forall>n. n \<noteq> ''churn_events'' \<longrightarrow> dget d1 n = dget d0 n"
    using add_columns_grow [OF tc dis(1)] by (auto simp: ensure_churn_columns_def)
  obtain tr where "dget d0 ''request_events'' = Some tr" using present [OF p(2)] by blast
  then have tr: "dget d1 ''request_events'' = Some tr" using d1(3) by simp
  obtain d2 where d2: "ensure_request_columns d1 = Some d2" "dget d2 ''request_events'' = grow (Some tr) REQUEST_ENRICHMENT"
      "\<forall>n. n \<noteq> ''request_events'' \<longrightarrow> dget d2 n = dget d1 n"
    using add_columns_grow [OF tr dis(2)] tr by (auto simp: ensure_request_columns_def)
  obtain tt where "dget d0 ''ttl_observations'' = Some tt" using present [OF p(3)] by blast
  then have tt: "dget d2 ''ttl_observations'' = Some tt" using d1(3) d2(3) by simp
  obtain d3 where d3: "ensure_ttl_observation_columns d2 = Some d3" "dget d3 ''ttl_observations'' = grow (Some tt) TTL_ENRICHMENT"
      "\<forall>n. n \<noteq> ''ttl_observations'' \<longrightarrow> dget d3 n = dget d2 n"
    using add_columns_grow [OF tt dis(3)] tt by (auto simp: ensure_ttl_observation_columns_def)
  have "connect d = Some d3" using d1(1) d2(1) d3(1) by (simp add: connect_def d0_def [symmetric])
  moreover have "dget d3 n = grow (dget d0 n) (enrichment n)" for n
    using d1 d2 d3 tc tr tt \<open>dget d0 ''request_events'' = Some tr\<close> \<open>dget d0 ''ttl_observations'' = Some tt\<close>
    by (cases "n = ''churn_events''"; cases "n = ''request_events''"; cases "n = ''ttl_observations''")
      (simp_all add: enrichment_def grow_none)
  ultimately show ?thesis using g0 by auto
qed

definition legacy :: "sql_db \<Rightarrow> bool" where
  \<comment> \<open>Every table of an earlier release that is there has the columns it was created with.\<close>
  "legacy d \<longleftrightarrow>
     (\<forall>(n, cs) \<in> set SCHEMA. pred_option (\<lambda>t. set cs - set (enrichment n) \<subseteq> set (st_columns t)) (dget d n))"

lemma add_columns_same: "dget d n = Some t \<Longrightarrow> set cs \<subseteq> set (st_columns t) \<Longrightarrow> add_columns n cs d = Some d"
  by (induction cs) (simp_all add: add_column_def)

lemma create_tables_same: "(\<And>e. e \<in> set es \<Longrightarrow> dget d (fst e) \<noteq> None) \<Longrightarrow> foldl create_table d es = d"
proof (induction es)
  case (Cons e es)
  have "create_table d e = d" using Cons.prems [of e] by (auto simp: create_table_def)
  moreover have "foldl create_table d es = d" using Cons.prems by (intro Cons.IH) simp
  ultimately show ?case by simp
qed simp

lemma connect_same:
  assumes "\<And>n cs. (n, cs) \<in> set SCHEMA \<Longrightarrow> \<exists>t. dget d n = Some t \<and> set cs \<subseteq> set (st_columns t)"
  shows "connect d = Some d"
proof -
  have "dget d (fst e) \<noteq> None" if "e \<in> set SCHEMA" for e using assms [of "fst e" "snd e"] that by auto
  then have c: "foldl create_table d SCHEMA = d" by (rule create_tables_same)
  have n: "(''churn_events'', CHURN_EVENT_COLUMNS) \<in> set SCHEMA" "(''request_events'', REQUEST_EVENT_COLUMNS) \<in> set SCHEMA"
      "(''ttl_observations'', TTL_OBSERVATION_COLUMNS) \<in> set SCHEMA"
    by (simp_all add: SCHEMA_def)
  have e: "set CHURN_ENRICHMENT \<subseteq> set CHURN_EVENT_COLUMNS" "set REQUEST_ENRICHMENT \<subseteq> set REQUEST_EVENT_COLUMNS"
      "set TTL_ENRICHMENT \<subseteq> set TTL_OBSERVATION_COLUMNS"
    by (simp_all add: CHURN_ENRICHMENT_def CHURN_EVENT_COLUMNS_def REQUEST_ENRICHMENT_def REQUEST_EVENT_COLUMNS_def
        TTL_ENRICHMENT_def TTL_OBSERVATION_COLUMNS_def)
  have "ensure_churn_columns d = Some d"
    using assms [OF n(1)] e(1) by (auto simp: ensure_churn_columns_def intro: add_columns_same)
  moreover have "ensure_request_columns d = Some d"
    using assms [OF n(2)] e(2) by (auto simp: ensure_request_columns_def intro: add_columns_same)
  moreover have "ensure_ttl_observation_columns d = Some d"
    using assms [OF n(3)] e(3) by (auto simp: ensure_ttl_observation_columns_def intro: add_columns_same)
  ultimately show ?thesis by (simp add: connect_def c)
qed

text \<open>C36: The migrations are complete and harmless. Opening a database of any earlier release, with any of
  the tables missing, succeeds; afterwards every table is there with every column that the statements
  select and exactly the rows it had; tables that are not the store's are untouched; and opening it
  again changes nothing.\<close>

theorem migrations_complete:
  assumes "legacy d"
  shows "\<exists>d'. connect d = Some d' \<and> connect d' = Some d' \<and>
    (\<forall>(n, cs) \<in> set SCHEMA. \<exists>t. dget d' n = Some t \<and> set cs \<subseteq> set (st_columns t) \<and>
       st_rows t = (case dget d n of None \<Rightarrow> [] | Some t0 \<Rightarrow> st_rows t0)) \<and>
    (\<forall>n. dget SCHEMA n = None \<longrightarrow> dget d' n = dget d n)"
proof -
  obtain d' where c: "connect d = Some d'" and g: "\<And>n. dget d' n = grow (case dget d n of Some t \<Rightarrow> Some t
      | None \<Rightarrow> map_option (\<lambda>cs. \<lparr>st_columns = cs, st_rows = []\<rparr>) (dget SCHEMA n)) (enrichment n)"
    using connect_get [of d] by blast
  have t: "\<exists>t. dget d' n = Some t \<and> set cs \<subseteq> set (st_columns t) \<and>
      st_rows t = (case dget d n of None \<Rightarrow> [] | Some t0 \<Rightarrow> st_rows t0)" if "(n, cs) \<in> set SCHEMA" for n cs
  proof (cases "dget d n")
    case None
    have "dget SCHEMA n = Some cs" using that by (rule map_of_is_SomeI [OF SCHEMA_names])
    then show ?thesis using g [of n] None by (simp add: grow_def)
  next
    case (Some t0)
    from assms that have "pred_option (\<lambda>t. set cs - set (enrichment n) \<subseteq> set (st_columns t)) (dget d n)"
      unfolding legacy_def by blast
    then have "set cs - set (enrichment n) \<subseteq> set (st_columns t0)" using Some by simp
    then show ?thesis using g [of n] Some by (auto simp: grow_def)
  qed
  have "dget d' n = dget d n" if "dget SCHEMA n = None" for n
  proof -
    have "enrichment n = []" using that by (auto simp: enrichment_def SCHEMA_def split: if_splits)
    then show ?thesis using g [of n] that by (simp add: grow_none split: option.split)
  qed
  moreover have "connect d' = Some d'" using t by (intro connect_same) blast
  ultimately show ?thesis using c t by blast
qed

definition legacy_sample :: sql_db where
  \<comment> \<open>A database from before the tool-set digest, with one request.\<close>
  "legacy_sample = map (\<lambda>(n, cs). (n, \<lparr>st_columns = filter (\<lambda>c. c \<notin> set (enrichment n)) cs,
     st_rows = (if n = ''request_events'' then [[(''id'', SInt 1)]] else [])\<rparr>)) SCHEMA"

theorem migrations_complete_witness:
  "\<exists>d' t. connect legacy_sample = Some d' \<and> dget d' ''request_events'' = Some t \<and>
     ''tools_set_hash'' \<in> set (st_columns t) \<and> st_rows t = [[(''id'', SInt 1)]]"
proof -
  have "legacy legacy_sample"
    by (simp add: legacy_def legacy_sample_def SCHEMA_def enrichment_def) auto
  moreover have "(''request_events'', REQUEST_EVENT_COLUMNS) \<in> set SCHEMA" by (simp add: SCHEMA_def)
  moreover have "''tools_set_hash'' \<in> set REQUEST_EVENT_COLUMNS" by (simp add: REQUEST_EVENT_COLUMNS_def)
  moreover have "dget legacy_sample ''request_events'' = Some \<lparr>st_columns =
      filter (\<lambda>c. c \<notin> set (enrichment ''request_events'')) REQUEST_EVENT_COLUMNS, st_rows = [[(''id'', SInt 1)]]\<rparr>"
    by (simp add: legacy_sample_def SCHEMA_def)
  ultimately show ?thesis using migrations_complete [of legacy_sample] by fastforce
qed

text \<open>A row of an earlier release reads back with the new fields unknown.\<close>

lemma legacy_churn_row:
  assumes "representable (ce_timestamp e)" and "valid_churn_event e"
  shows "decode_churn (map (sql_cell (zip (take 14 CHURN_EVENT_COLUMNS) (SInt i # take 13 (churn_cells e)))) CHURN_EVENT_COLUMNS) =
    Inr (i, e\<lparr>ce_likely_cause := None, ce_confidence := None, ce_estimated_prefix_loss_tokens := None,
      ce_first_divergent_offset := None, ce_first_divergent_layer := None\<rparr>)"
  using assms
  by (simp add: decode_churn_def churn_cells_def CHURN_EVENT_COLUMNS_def CHURN_FIELDS_def sql_cell_def Let_def valid_churn_event_def)

text \<open>
  The read-only openers accept a database that was not migrated yet, but the statements name the new
  columns, so the reads raise.
\<close>

lemma unmigrated_read_raises:
  "is_readable_sqlite (Some legacy_sample) \<and>
   (\<forall>t. dget legacy_sample ''request_events'' = Some t \<longrightarrow> select_columns REQUEST_EVENT_COLUMNS t = None)"
  by (simp add: is_readable_sqlite_def legacy_sample_def SCHEMA_def select_columns_def enrichment_def
      REQUEST_EVENT_COLUMNS_def REQUEST_ENRICHMENT_def)

end
