(* ===== verification/FakeProvider.thy ===== *)
theory FakeProvider
  imports Views
begin

text \<open>
  The offline provider of \<open>cachepilot_core/fake_provider.py\<close>: a prefix cache with a time to live, its
  answers and the HTTP response made of one. The generator of the latency jitter is a parameter, a
  function from the state to a draw and the next state; the \<open>httpx.Response\<close> is its JSON payload and its
  headers. Time stamps are aware, in microseconds.
\<close>

section \<open>Configuration and state\<close>

definition default_pricing :: pricing_table where
  "default_pricing = \<lparr>input_per_mtok = 80 / 100, output_per_mtok = 240 / 100, cache_read_per_mtok = 8 / 100,
     cache_write_per_mtok = 88 / 100\<rparr>"

record fake_config =
  fc_provider :: string
  fc_route :: string
  fc_deployment :: string
  fc_ttl_s :: flt
  fc_prefix_tokens :: int
  fc_latency_base_ms :: flt
  fc_latency_jitter_ms :: flt
  fc_pricing :: pricing_table
  fc_refresh_on_hit :: bool
  fc_completion_tokens :: "int option"
  fc_completion_min :: int
  fc_completion_max :: int
  fc_seed :: int

definition valid_fake_config :: "fake_config \<Rightarrow> bool" where
  "valid_fake_config c \<longleftrightarrow> 0 < fc_ttl_s c \<and> 1 \<le> fc_prefix_tokens c \<and> 0 \<le> fc_latency_base_ms c \<and>
     0 \<le> fc_latency_jitter_ms c \<and> valid_pricing (fc_pricing c) \<and> 1 \<le> fc_completion_min c \<and> 1 \<le> fc_completion_max c"

definition default_fake_config :: fake_config where
  "default_fake_config = \<lparr>fc_provider = ''fake-provider'', fc_route = ''fake-route-1'', fc_deployment = ''edge-fake-1'',
     fc_ttl_s = 300, fc_prefix_tokens = 4000, fc_latency_base_ms = 100, fc_latency_jitter_ms = 50,
     fc_pricing = default_pricing, fc_refresh_on_hit = False, fc_completion_tokens = None, fc_completion_min = 50,
     fc_completion_max = 500, fc_seed = 0\<rparr>"

record fake_result =
  fr_cache_fingerprint :: string
  fr_request_fingerprint :: string
  fr_provider :: string
  fr_model :: string
  fr_usage :: token_usage
  fr_latency_ms :: flt
  fr_route :: string
  fr_deployment :: string
  fr_cache_hit :: bool
  fr_expires_at :: "timestamp option"

record 'g fake_provider =
  fp_config :: fake_config
  fp_cache :: "(string, timestamp) dict"
  fp_rng :: 'g

definition fake_init :: "fake_config option \<Rightarrow> (int \<Rightarrow> 'g) \<Rightarrow> 'g fake_provider" where
  \<comment> \<open>\<open>random\<close> makes a generator of a seed.\<close>
  "fake_init config random =
     (let c = opt_or config default_fake_config in \<lparr>fp_config = c, fp_cache = [], fp_rng = random (fc_seed c)\<rparr>)"

section \<open>Completions\<close>

definition timedelta_s :: "flt \<Rightarrow> timestamp" where
  \<comment> \<open>\<open>timedelta(seconds=s)\<close>, to the nearest microsecond.\<close>
  "timedelta_s s = round_half_even (s * 1000000)"

definition is_cached :: "(pyfloat \<Rightarrow> string) \<Rightarrow> 'g fake_provider \<Rightarrow> canonical_request \<Rightarrow> timestamp \<Rightarrow> bool" where
  "is_cached frepr p req now =
     (case dget (fp_cache p) (cache_fingerprint frepr req) of None \<Rightarrow> False | Some e \<Rightarrow> now < e)"

definition first4_be :: "byte list \<Rightarrow> int" where
  \<comment> \<open>\<open>int.from_bytes(digest[:4], "big")\<close>\<close>
  "first4_be bs = foldl (\<lambda>a b. a * 256 + uint b) 0 (take 4 bs)"

definition fake_completion_tokens :: "fake_config \<Rightarrow> string \<Rightarrow> py_error + int" where
  "fake_completion_tokens c request_fp =
     (case fc_completion_tokens c of
        Some n \<Rightarrow> Inr n
      | None \<Rightarrow>
          (let span = fc_completion_max c - fc_completion_min c
           in if span = 0 then Inl ZeroDivisionError
              else Inr (fc_completion_min c + first4_be (sha256 (utf8 request_fp)) mod span)))"

definition fake_complete ::
  "(pyfloat \<Rightarrow> string) \<Rightarrow> ('g \<Rightarrow> flt \<Rightarrow> flt \<times> 'g) \<Rightarrow> 'g fake_provider \<Rightarrow> canonical_request \<Rightarrow> timestamp \<Rightarrow>
     (py_error + fake_result) \<times> 'g fake_provider" where
  "fake_complete frepr uniform p req now =
     (let c = fp_config p;
          cache_fp = cache_fingerprint frepr req;
          request_fp = request_fingerprint frepr req;
          hit = is_cached frepr p req now;
          (jitter, rng) = uniform (fp_rng p) (fc_latency_jitter_ms c);
          p = p\<lparr>fp_rng := rng\<rparr>
      in case fake_completion_tokens c request_fp of
           Inl e \<Rightarrow> (Inl e, p)
         | Inr completion \<Rightarrow>
             (case mk_usage (fc_prefix_tokens c) completion (if hit then fc_prefix_tokens c else 0)
                     (if hit then 0 else fc_prefix_tokens c) None of
                Inl e \<Rightarrow> (Inl e, p)
              | Inr usage \<Rightarrow>
                  (let touch = \<not> hit \<or> fc_refresh_on_hit c;
                       expires = (if touch then Some (now + timedelta_s (fc_ttl_s c)) else dget (fp_cache p) cache_fp);
                       p = (if touch then p\<lparr>fp_cache := dset (fp_cache p) cache_fp (now + timedelta_s (fc_ttl_s c))\<rparr> else p)
                   in (Inr \<lparr>fr_cache_fingerprint = cache_fp, fr_request_fingerprint = request_fp,
                         fr_provider = fc_provider c, fr_model = ci_model req, fr_usage = usage,
                         fr_latency_ms = fc_latency_base_ms c + jitter, fr_route = fc_route c,
                         fr_deployment = fc_deployment c, fr_cache_hit = hit, fr_expires_at = expires\<rparr>, p))))"

definition cost_of :: "'g fake_provider \<Rightarrow> fake_result \<Rightarrow> flt" where
  "cost_of p r = estimate_cost (fr_usage r) (fc_pricing (fp_config p))"

definition resume_costs :: "'g fake_provider \<Rightarrow> int \<Rightarrow> py_error + flt \<times> flt" where
  "resume_costs p completion =
     estimate_resume_costs (fc_prefix_tokens (fp_config p)) (fc_pricing (fp_config p)) completion"

section \<open>The HTTP response\<close>

definition response_payload :: "fake_result \<Rightarrow> json" where
  "response_payload r = JObj
     [(''id'', JStr (''fake-'' @ take 12 (fr_request_fingerprint r))), (''object'', JStr ''chat.completion''),
      (''model'', JStr (fr_model r)),
      (''choices'', JArr [JObj [(''index'', JInt 0),
         (''message'', JObj [(''role'', JStr ''assistant''), (''content'', JStr ''fake completion'')]),
         (''finish_reason'', JStr ''stop'')]]),
      (''usage'', JObj [(''prompt_tokens'', JInt (prompt_tokens (fr_usage r))),
         (''completion_tokens'', JInt (completion_tokens (fr_usage r))),
         (''prompt_tokens_details'', JObj [(''cached_tokens'', JInt (cache_read_tokens (fr_usage r)))]),
         (''cache_creation_input_tokens'', JInt (cache_write_tokens (fr_usage r)))])]"

definition response_headers :: "fake_result \<Rightarrow> (string \<times> string) list" where
  "response_headers r =
     [(''x-cachepilot-cache-hit'', if fr_cache_hit r then ''true'' else ''false''), (''x-cachepilot-route'', fr_route r),
      (''x-cachepilot-latency-ms'', fmt_fixed 3 (fr_latency_ms r)),
      (''x-cachepilot-cache-fingerprint'', fr_cache_fingerprint r), (''x-provider'', fr_provider r),
      (''x-served-by'', fr_deployment r)]"

section \<open>Properties\<close>

definition response_usage :: "fake_result \<Rightarrow> json" where
  "response_usage r = (case response_payload r of JObj kvs \<Rightarrow> usage_of_payload kvs | _ \<Rightarrow> JNull)"

text \<open>Equal bounds of the completion size pass the model's checks and fail at the first request.\<close>

lemma equal_bounds_raise:
  assumes "fc_completion_tokens (fp_config p) = None" and "fc_completion_max (fp_config p) = fc_completion_min (fp_config p)"
  shows "fst (fake_complete frepr uniform p req now) = Inl ZeroDivisionError"
  using assms by (simp add: fake_complete_def fake_completion_tokens_def Let_def split: prod.split)

lemma complete_Inr:
  assumes "fake_complete frepr uniform p req now = (Inr r, p')"
  shows "\<exists>n. fr_usage r = \<lparr>prompt_tokens = fc_prefix_tokens (fp_config p), completion_tokens = n,
        cache_read_tokens = (if is_cached frepr p req now then fc_prefix_tokens (fp_config p) else 0),
        cache_write_tokens = (if is_cached frepr p req now then 0 else fc_prefix_tokens (fp_config p)), cost = None\<rparr> \<and> 0 \<le> n"
    and "fr_cache_hit r = is_cached frepr p req now" and "fr_provider r = fc_provider (fp_config p)"
    and "fr_expires_at r = (if is_cached frepr p req now \<and> \<not> fc_refresh_on_hit (fp_config p) then dget (fp_cache p) (cache_fingerprint frepr req)
           else Some (now + timedelta_s (fc_ttl_s (fp_config p))))"
    and "fp_config p' = fp_config p"
    and "dget (fp_cache p') = (dget (fp_cache p)) (cache_fingerprint frepr req := fr_expires_at r)"
proof -
  obtain jitter rng where u: "uniform (fp_rng p) (fc_latency_jitter_ms (fp_config p)) = (jitter, rng)" by fastforce
  obtain n where n: "fake_completion_tokens (fp_config p) (request_fingerprint frepr req) = Inr n"
    using assms(1) by (cases "fake_completion_tokens (fp_config p) (request_fingerprint frepr req)") (auto simp: fake_complete_def u Let_def)
  obtain usage where us: "mk_usage (fc_prefix_tokens (fp_config p)) n (if is_cached frepr p req now then fc_prefix_tokens (fp_config p) else 0)
      (if is_cached frepr p req now then 0 else fc_prefix_tokens (fp_config p)) None = Inr usage"
    using assms(1) n by (cases "mk_usage (fc_prefix_tokens (fp_config p)) n (if is_cached frepr p req now then fc_prefix_tokens (fp_config p) else 0)
      (if is_cached frepr p req now then 0 else fc_prefix_tokens (fp_config p)) None") (auto simp: fake_complete_def u Let_def)
  have usage: "usage = \<lparr>prompt_tokens = fc_prefix_tokens (fp_config p), completion_tokens = n,
        cache_read_tokens = (if is_cached frepr p req now then fc_prefix_tokens (fp_config p) else 0),
        cache_write_tokens = (if is_cached frepr p req now then 0 else fc_prefix_tokens (fp_config p)), cost = None\<rparr> \<and> 0 \<le> n"
    using us by (auto simp: mk_usage_def finite_cost_def)
  have e: "fr_usage r = usage \<and> fr_cache_hit r = is_cached frepr p req now \<and> fr_provider r = fc_provider (fp_config p) \<and>
    fr_expires_at r = (if is_cached frepr p req now \<and> \<not> fc_refresh_on_hit (fp_config p) then dget (fp_cache p) (cache_fingerprint frepr req)
       else Some (now + timedelta_s (fc_ttl_s (fp_config p)))) \<and> fp_config p' = fp_config p \<and>
    dget (fp_cache p') = (dget (fp_cache p)) (cache_fingerprint frepr req := fr_expires_at r)"
    using assms(1) by (auto simp: fake_complete_def u n us Let_def update_conv fun_eq_iff)
  show "\<exists>n. fr_usage r = \<lparr>prompt_tokens = fc_prefix_tokens (fp_config p), completion_tokens = n,
        cache_read_tokens = (if is_cached frepr p req now then fc_prefix_tokens (fp_config p) else 0),
        cache_write_tokens = (if is_cached frepr p req now then 0 else fc_prefix_tokens (fp_config p)), cost = None\<rparr> \<and> 0 \<le> n"
    using e usage by blast
  show "fr_cache_hit r = is_cached frepr p req now" "fr_provider r = fc_provider (fp_config p)"
    "fr_expires_at r = (if is_cached frepr p req now \<and> \<not> fc_refresh_on_hit (fp_config p) then dget (fp_cache p) (cache_fingerprint frepr req)
       else Some (now + timedelta_s (fc_ttl_s (fp_config p))))" "fp_config p' = fp_config p"
    "dget (fp_cache p') = (dget (fp_cache p)) (cache_fingerprint frepr req := fr_expires_at r)"
    using e by blast+
qed

lemma complete_static:
  assumes "fake_complete frepr uniform p req now = (Inr r, p')"
  shows "fr_route r = fc_route (fp_config p)" "fr_deployment r = fc_deployment (fp_config p)"
    "fr_cache_fingerprint r = cache_fingerprint frepr req"
  using assms by (auto simp: fake_complete_def Let_def split: prod.splits sum.splits if_splits)

lemma complete_Inl:
  assumes "fake_complete frepr uniform p req now = (Inl e, p')"
  shows "fp_config p' = fp_config p" "fp_cache p' = fp_cache p"
  using assms by (auto simp: fake_complete_def Let_def split: prod.splits sum.splits if_splits)

lemma complete_succeeds:
  assumes "fc_completion_tokens (fp_config p) = Some n" and "0 \<le> n" and "valid_fake_config (fp_config p)"
  shows "\<exists>r p'. fake_complete frepr uniform p req now = (Inr r, p')"
proof -
  obtain jitter rng where u: "uniform (fp_rng p) (fc_latency_jitter_ms (fp_config p)) = (jitter, rng)" by fastforce
  define hit where "hit = is_cached frepr p req now"
  obtain usage where "mk_usage (fc_prefix_tokens (fp_config p)) n (if hit then fc_prefix_tokens (fp_config p) else 0)
      (if hit then 0 else fc_prefix_tokens (fp_config p)) None = Inr usage"
    using assms(2,3) by (simp add: mk_usage_def finite_cost_def valid_fake_config_def)
  then show ?thesis
    using assms(1) by (simp add: fake_complete_def fake_completion_tokens_def u Let_def hit_def [symmetric])
qed

lemma complete_read:
  assumes "fake_complete frepr uniform p req now = (Inr r, p')" and "valid_fake_config (fp_config p)"
    and "py_lower (fc_provider (fp_config p)) \<noteq> ''anthropic''"
  shows "normalize (response_payload r) (Some (fr_provider r)) = Inr (fr_usage r)"
    and "classify_outcome 200 (usage_has_cache_telemetry (response_usage r)) (cache_read_tokens (fr_usage r)) =
      (if is_cached frepr p req now then CONFIRMED_HIT else MISS_REBUILT)"
proof -
  note f = complete_Inr [OF assms(1)]
  obtain n where u: "fr_usage r = \<lparr>prompt_tokens = fc_prefix_tokens (fp_config p), completion_tokens = n,
        cache_read_tokens = (if is_cached frepr p req now then fc_prefix_tokens (fp_config p) else 0),
        cache_write_tokens = (if is_cached frepr p req now then 0 else fc_prefix_tokens (fp_config p)), cost = None\<rparr>"
      "0 \<le> n"
    using f(1) by blast
  have prefix: "1 \<le> fc_prefix_tokens (fp_config p)" using assms(2) by (simp add: valid_fake_config_def)
  show "normalize (response_payload r) (Some (fr_provider r)) = Inr (fr_usage r)"
    using assms(3) u prefix f(3)
    by (simp add: normalize_def response_payload_def usage_of_payload_def normalize_openai_def details_cached_def
        mk_usage_def non_negative_def finite_cost_def)
  have "usage_has_cache_telemetry (response_usage r)"
    by (simp add: response_usage_def response_payload_def usage_of_payload_def usage_has_cache_telemetry_def
        TELEMETRY_KEYS_def TELEMETRY_DETAILS_KEYS_def has_key_def)
  then show "classify_outcome 200 (usage_has_cache_telemetry (response_usage r)) (cache_read_tokens (fr_usage r)) =
      (if is_cached frepr p req now then CONFIRMED_HIT else MISS_REBUILT)"
    using u(1) prefix by (simp add: classify_outcome_def)
qed

text \<open>C40: The simulator and the relay's reading of it agree. A completion is a hit exactly when the prefix
  was cached at that moment; from its HTTP response the normaliser recovers the very usage record and the
  classifier the true outcome; afterwards the prefix is cached up to the reported expiry, which is a
  time to live from now unless a hit left it alone, and every other prefix is as before.\<close>

theorem simulated_outcome_is_read:
  assumes "fake_complete frepr uniform p req now = (Inr r, p')" and "valid_fake_config (fp_config p)"
    and "py_lower (fc_provider (fp_config p)) \<noteq> ''anthropic''"
  shows "normalize (response_payload r) (Some (fr_provider r)) = Inr (fr_usage r) \<and>
    classify_outcome 200 (usage_has_cache_telemetry (response_usage r)) (cache_read_tokens (fr_usage r)) =
      (if is_cached frepr p req now then CONFIRMED_HIT else MISS_REBUILT) \<and>
    (\<not> is_cached frepr p req now \<or> fc_refresh_on_hit (fp_config p) \<longrightarrow>
      fr_expires_at r = Some (now + timedelta_s (fc_ttl_s (fp_config p)))) \<and>
    (is_cached frepr p req now \<and> \<not> fc_refresh_on_hit (fp_config p) \<longrightarrow>
      fr_expires_at r = dget (fp_cache p) (cache_fingerprint frepr req)) \<and>
    is_cached frepr p' req' t =
      (if cache_fingerprint frepr req' = cache_fingerprint frepr req then pred_option (\<lambda>e. t < e) (fr_expires_at r) \<and> fr_expires_at r \<noteq> None
       else is_cached frepr p req' t)"
proof -
  note f = complete_Inr [OF assms(1)]
  have "is_cached frepr p' req' t =
      (if cache_fingerprint frepr req' = cache_fingerprint frepr req then pred_option (\<lambda>e. t < e) (fr_expires_at r) \<and> fr_expires_at r \<noteq> None
       else is_cached frepr p req' t)"
    unfolding is_cached_def f(6) by (cases "fr_expires_at r") auto
  then show ?thesis using f(4) complete_read [OF assms] by auto
qed

definition sample_provider :: "unit fake_provider" where
  "sample_provider = fake_init (Some (default_fake_config\<lparr>fc_completion_tokens := Some 5\<rparr>)) (\<lambda>_. ())"

definition sample_request_of :: "string \<Rightarrow> canonical_request" where
  "sample_request_of prompt = \<lparr>ci_provider = ''p'', ci_model = ''m'', ci_api_mode = CHAT, ci_endpoint = ''e'',
     ci_auth_scope = ''a'', ci_route = None, ci_prompt_key = prompt, ci_system_hash = ''s'', ci_tools_hash = ''t'',
     cr_max_tokens = None, cr_stream = False, cr_timeout_s = None, cr_tools_set_hash = None\<rparr>"

theorem simulated_outcome_is_read_witness:
  "\<exists>r p'. fake_complete (\<lambda>_. ''0'') (\<lambda>g j. (0, g)) sample_provider (sample_request_of ''k'') 0 = (Inr r, p') \<and>
    normalize (response_payload r) (Some (fr_provider r)) = Inr (fr_usage r) \<and>
    fr_expires_at r = Some 300000000 \<and> is_cached (\<lambda>_. ''0'') p' (sample_request_of ''k'') 299999999 \<and>
    \<not> is_cached (\<lambda>_. ''0'') p' (sample_request_of ''k'') 300000000"
proof -
  have c: "valid_fake_config (fp_config sample_provider)" "py_lower (fc_provider (fp_config sample_provider)) \<noteq> ''anthropic''"
    by (code_simp, code_simp)
  have miss: "\<not> is_cached (\<lambda>_. ''0'') sample_provider (sample_request_of ''k'') 0"
    by (simp add: is_cached_def sample_provider_def fake_init_def Let_def)
  have "timedelta_s (fc_ttl_s (fp_config sample_provider)) = 300000000" by code_simp
  moreover obtain r p' where e: "fake_complete (\<lambda>_. ''0'') (\<lambda>g j. (0, g)) sample_provider (sample_request_of ''k'') 0 = (Inr r, p')"
    using complete_succeeds [OF _ _ c(1), of 5] by (fastforce simp: sample_provider_def fake_init_def Let_def default_fake_config_def)
  ultimately show ?thesis
    using simulated_outcome_is_read [OF e c, of "sample_request_of ''k''" 299999999]
      simulated_outcome_is_read [OF e c, of "sample_request_of ''k''" 300000000] miss
    by auto
qed

end
