(* ===== verification/Simulation.thy ===== *)
theory Simulation
  imports FakeProvider
begin

text \<open>
  The parts at work together: the simulated provider answers a sequence of requests, the relay reads each
  answer (normaliser, outcome, route of the response headers) and feeds it to the learner over the
  telemetry database, as \<open>_feed_ttl_learner\<close> of the observer does. The question is whether what is learned
  is the time to live the provider was configured with.
\<close>

section \<open>A run\<close>

definition read_outcome :: "fake_result \<Rightarrow> outcome" where
  \<comment> \<open>What the relay makes of the answer, which has status 200.\<close>
  "read_outcome r =
     (case normalize (response_payload r) (Some (fr_provider r)) of
        Inl e \<Rightarrow> FAILED
      | Inr u \<Rightarrow> classify_outcome 200 (usage_has_cache_telemetry (response_usage r)) (cache_read_tokens u))"

definition answer_event :: "(pyfloat \<Rightarrow> string) \<Rightarrow> string \<Rightarrow> canonical_request \<Rightarrow> timestamp \<Rightarrow> fake_result \<Rightarrow> telemetry_event" where
  "answer_event frepr url req t r =
     event_of frepr t req (fr_usage r) (read_outcome r) (route_hash (observed_route_identity url (response_headers r))) None None"

fun run_requests ::
  "(pyfloat \<Rightarrow> string) \<Rightarrow> ('g \<Rightarrow> flt \<Rightarrow> flt \<times> 'g) \<Rightarrow> string \<Rightarrow> 'g fake_provider \<Rightarrow> db \<Rightarrow>
     (canonical_request \<times> timestamp) list \<Rightarrow> 'g fake_provider \<times> db" where
  "run_requests frepr uniform url p d [] = (p, d)"
| "run_requests frepr uniform url p d ((req, t) # xs) =
     (case fake_complete frepr uniform p req t of
        (Inl e, p) \<Rightarrow> run_requests frepr uniform url p d xs
      | (Inr r, p) \<Rightarrow> run_requests frepr uniform url p (feed_ttl_learner d req (answer_event frepr url req t r)) xs)"

definition true_ttl :: "fake_config \<Rightarrow> timestamp" where
  "true_ttl c = timedelta_s (fc_ttl_s c)"

section \<open>Learning from faithful evidence\<close>

lemma sound_for_bounds: "bounds_of q = bounds_of p \<Longrightarrow> sound_for T q \<longleftrightarrow> sound_for T p"
  by (simp add: bounds_of_def sound_for_def)

lemma sound_for_new: "new_profile pr m am eh rh = Inr p \<Longrightarrow> sound_for T p"
  by (auto simp: new_profile_def sound_for_def split: if_splits)

context ttl_store
begin

lemma learn_last_obs_other:
  assumes "invar s" and "f \<noteq> o_cache_fingerprint obs"
  shows "last_obs (fst (learn_here s obs)) f = last_obs s f"
proof -
  have "last_obs (after_record s obs) f = last_obs s f"
    using assms(2) last_record_other by (simp add: observation_row_def)
  with assms(1) show ?thesis by (cases rule: learn_cases [of s obs]) (simp_all add: last_upsert)
qed

lemma learn_keeps_sound:
  assumes "invar s" and "0 \<le> T" and "\<And>k q. profile_for s k = Some q \<Longrightarrow> sound_for T q"
    and "\<And>a. age_here s obs = (Some a, True) \<Longrightarrow> evidence_for T (o_outcome obs) (Some a)"
    and "profile_for (fst (learn_here s obs)) k = Some q"
  shows "sound_for T q"
proof (cases "k = obs_key obs \<and> snd (age_here s obs)")
  case False
  then have "map_option bounds_of (profile_for (fst (learn_here s obs)) k) = map_option bounds_of (profile_for s k)"
    using learn_frame [OF assms(1)] learn_unclean_bounds [OF assms(1)] by metis
  then obtain q0 where "profile_for s k = Some q0" "bounds_of q = bounds_of q0"
    using assms(5) by (cases "profile_for s k") auto
  then show ?thesis using assms(3) sound_for_bounds by blast
next
  case True
  show ?thesis
    using assms(1)
  proof (cases rule: learn_cases [of s obs])
    case recorded
    then show ?thesis using assms(3,5) by (simp add: profile_record)
  next
    case (refined p0 idle)
    let ?p = "(observe p0 (o_outcome obs) (Some idle))\<lparr>tp_updated_at := Some (o_timestamp obs)\<rparr>"
    have key: "profile_key ?p = k" using refined(4) True by (simp add: observe_identity)
    obtain q' where "profile_for (upsert_profile (after_record s obs) ?p) k = Some q'" "learned_cols q' = learned_cols ?p"
      using profile_same [OF invar_record [OF assms(1)], of ?p] unfolding key by auto
    then have "learned_cols q = learned_cols ?p" using assms(5) unfolding refined(5) by simp
    moreover have "sound_for T p0" using refined(3) assms(3) sound_for_new by blast
    then have "sound_for T (observe p0 (o_outcome obs) (Some idle))"
      using sound_observe assms(2,4) refined(1,2) by (metis prod.collapse)
    ultimately show ?thesis by (simp add: learned_cols_def sound_for_def)
  next
    case (restarted p0)
    then show ?thesis using True by simp
  qed
qed

end

section \<open>The invariant of a run\<close>

definition run_inv :: "'g fake_provider \<Rightarrow> db \<Rightarrow> timestamp \<Rightarrow> bool" where
  \<comment> \<open>The expiry of every prefix is a time to live after its last observation.\<close>
  "run_inv p d now \<longleftrightarrow> wf_db d \<and>
     (\<forall>k q. profile_for d k = Some q \<longrightarrow> sound_for (total_seconds (true_ttl (fp_config p))) q) \<and>
     (\<forall>fp prev. last_ttl_observation d fp = Some prev \<longrightarrow>
        s_timestamp prev \<le> now \<and> dget (fp_cache p) fp = Some (s_timestamp prev + true_ttl (fp_config p)))"

lemma true_ttl_nonneg: "valid_fake_config c \<Longrightarrow> 0 \<le> true_ttl c"
  using round_half_even_mono [of 0 "fc_ttl_s c * 1000000"] round_half_even_of_int [of 0]
  by (simp add: true_ttl_def timedelta_s_def valid_fake_config_def)

lemma read_outcome_eq:
  assumes "fake_complete frepr uniform p req t = (Inr r, p')" and "valid_fake_config (fp_config p)"
    and "py_lower (fc_provider (fp_config p)) \<noteq> ''anthropic''"
  shows "read_outcome r = (if is_cached frepr p req t then CONFIRMED_HIT else MISS_REBUILT)"
  using complete_read [OF assms] by (simp add: read_outcome_def)

lemma answer_evidence:
  assumes "fake_complete frepr uniform p req t = (Inr r, p')" and "valid_fake_config (fp_config p)"
    and "py_lower (fc_provider (fp_config p)) \<noteq> ''anthropic''" and "run_inv p d now"
    and "pair_age churn_between d (last_ttl_observation d (cache_fingerprint frepr req))
           \<lparr>o_outcome = read_outcome r, o_cache_fingerprint = cache_fingerprint frepr req, o_route_hash = rh,
            o_provider = a1, o_model = a2, o_api_mode = a3, o_endpoint = a4, o_timestamp = t\<rparr> = (Some a, True)"
  shows "evidence_for (total_seconds (true_ttl (fp_config p))) (read_outcome r) (Some a)"
proof -
  obtain prev where prev: "last_ttl_observation d (cache_fingerprint frepr req) = Some prev"
    and a: "a = total_seconds (t - s_timestamp prev)"
    using assms(5) by (auto simp: pair_age_def Let_def split: option.splits if_splits)
  have "is_cached frepr p req t \<longleftrightarrow> t < s_timestamp prev + true_ttl (fp_config p)"
    using prev assms(4) by (simp add: run_inv_def is_cached_def)
  then show ?thesis
    unfolding read_outcome_eq [OF assms(1-3)] a
    by (simp add: evidence_for_def total_seconds_def divide_right_mono)
qed

lemma run_step:
  assumes "fake_complete frepr uniform p req t = (Inr r, p')" and "valid_fake_config (fp_config p)"
    and "py_lower (fc_provider (fp_config p)) \<noteq> ''anthropic''" and "fc_refresh_on_hit (fp_config p)"
    and "run_inv p d now" and "now \<le> t"
  shows "run_inv p' (feed_ttl_learner d req (answer_event frepr url req t r)) t"
proof -
  note f = complete_Inr [OF assms(1)]
  let ?fp = "cache_fingerprint frepr req" and ?T = "true_ttl (fp_config p)"
  define obs where "obs = \<lparr>o_outcome = read_outcome r, o_cache_fingerprint = ?fp,
      o_route_hash = route_hash (observed_route_identity url (response_headers r)),
      o_provider = ci_provider req, o_model = ci_model req, o_api_mode = api_mode_value (ci_api_mode req),
      o_endpoint = ci_endpoint req, o_timestamp = t\<rparr>"
  have d': "feed_ttl_learner d req (answer_event frepr url req t r) = fst (learn_db t d obs)"
    by (simp add: feed_ttl_learner_def answer_event_def event_of_def obs_def)
  have inv: "wf_db d" using assms(5) by (simp add: run_inv_def)
  have expiry: "fr_expires_at r = Some (t + ?T)" using f(4) assms(4) by (simp add: true_ttl_def)
  have "sound_for (total_seconds ?T) q" if "profile_for (fst (learn_db t d obs)) k = Some q" for k q
    using that unfolding learn_db_def
  proof (rule store.learn_keeps_sound [OF inv, rotated -1])
    show "0 \<le> total_seconds ?T" using true_ttl_nonneg [OF assms(2)] by (simp add: total_seconds_def)
    show "\<And>k q. profile_for d k = Some q \<Longrightarrow> sound_for (total_seconds ?T) q"
      using assms(5) by (simp add: run_inv_def)
    show "evidence_for (total_seconds ?T) (o_outcome obs) (Some a)"
      if "pair_age churn_between d (last_ttl_observation d (o_cache_fingerprint obs)) obs = (Some a, True)" for a
      using that answer_evidence [OF assms(1-3,5)] unfolding obs_def by simp
  qed
  moreover have "s_timestamp prev \<le> t \<and> dget (fp_cache p') fp = Some (s_timestamp prev + ?T)"
    if "last_ttl_observation (fst (learn_db t d obs)) fp = Some prev" for fp prev
  proof (cases "fp = ?fp")
    case True
    obtain row where "last_ttl_observation (fst (learn_db t d obs)) ?fp = Some row" "s_timestamp row = t"
      using store.learn_last_obs [OF inv, of t obs] by (auto simp: learn_db_def obs_def)
    then show ?thesis using that True f(6) expiry by simp
  next
    case False
    then have "last_ttl_observation d fp = Some prev"
      using that store.learn_last_obs_other [OF inv, of fp obs t] by (simp add: learn_db_def obs_def)
    then show ?thesis using assms(5,6) False f(6) unfolding run_inv_def by force
  qed
  ultimately show ?thesis
    using store.learn_invar [OF inv, of t obs] f(5) unfolding d' run_inv_def by (simp add: learn_db_def)
qed

lemma run_keeps_inv:
  assumes "run_inv p d now" and "valid_fake_config (fp_config p)" and "fc_refresh_on_hit (fp_config p)"
    and "py_lower (fc_provider (fp_config p)) \<noteq> ''anthropic''"
    and "sorted (map snd xs)" and "\<forall>(req, t) \<in> set xs. now \<le> t"
  shows "\<exists>now'. run_inv (fst (run_requests frepr uniform url p d xs)) (snd (run_requests frepr uniform url p d xs)) now' \<and>
    fp_config (fst (run_requests frepr uniform url p d xs)) = fp_config p"
  using assms
proof (induction xs arbitrary: p d now)
  case (Cons x xs)
  obtain req t where x: "x = (req, t)" by (cases x)
  obtain res p' where c: "fake_complete frepr uniform p req t = (res, p')" by fastforce
  show ?case
  proof (cases res)
    case (Inl e)
    note c = c [unfolded Inl]
    have p': "run_inv p' d now" "fp_config p' = fp_config p"
      using Cons.prems(1) complete_Inl [OF c] by (simp_all add: run_inv_def)
    show ?thesis using Cons.IH [OF p'(1)] Cons.prems(2-6) p'(2) by (simp add: x c)
  next
    case (Inr r)
    note c = c [unfolded Inr]
    have "now \<le> t" using Cons.prems(6) x by simp
    note p' = run_step [OF c Cons.prems(2,4,3,1) this, of url] complete_Inr(5) [OF c]
    show ?thesis using Cons.IH [OF p'(1)] Cons.prems(2-6) p'(2) by (simp add: x c split_beta)
  qed
qed auto

lemma run_inv_start: "run_inv p fresh_db now"
  using wf_fresh_db by (simp add: run_inv_def fresh_db_def profile_for_def last_ttl_observation_def empty_table_def newest_def first_row_def)

section \<open>Two consecutive answers\<close>

lemma same_route:
  assumes "fr_provider r = fr_provider r'" and "fr_deployment r = fr_deployment r'"
  shows "observed_route_identity url (response_headers r) = observed_route_identity url (response_headers r')"
  using assms
  by (simp add: observed_route_identity_def response_headers_def lower_headers_def first_present_def py_lower_def
      lower_char_def code_def HEADER_UPSTREAM_PROVIDER_def HEADER_REGION_def HEADER_DEPLOYMENT_def Let_def)

lemma learned_after_miss:
  assumes "wf_db d" and "db_churn d = empty_table" and "o_outcome obs = MISS_REBUILT"
    and "last_ttl_observation d (o_cache_fingerprint obs) = Some prev" and "s_timestamp prev < o_timestamp obs"
    and "s_route_hash prev = o_route_hash obs"
    and "o_provider obs \<noteq> []" and "o_model obs \<noteq> []" and "o_api_mode obs \<noteq> []"
  shows "\<exists>q u. profile_for (fst (learn_db now d obs)) (obs_key obs) = Some q \<and> upper_bound_s q = Some u \<and>
    u \<le> total_seconds (o_timestamp obs - s_timestamp prev)"
proof -
  let ?a = "total_seconds (o_timestamp obs - s_timestamp prev)"
  have "0 < ?a" using assms(5) by (simp add: total_seconds_def)
  then have age: "pair_age churn_between d (last_ttl_observation d (o_cache_fingerprint obs)) obs = (Some ?a, True)"
    using assms(2,4,6) by (simp add: pair_age_def Let_def churn_between_def empty_table_def)
  have upper: "\<exists>u. upper_bound_s (observe p MISS_REBUILT (Some ?a)) = Some u \<and> u \<le> ?a" for p
    using \<open>0 < ?a\<close> by (simp add: observe_defs split: option.split)
  obtain p0 where "\<exists>q. profile_for (fst (learn_db now d obs)) (obs_key obs) = Some q \<and>
      bounds_of q = bounds_of (observe p0 MISS_REBUILT (Some ?a))"
  proof (cases "profile_for d (obs_key obs)")
    case None
    obtain p0 where "new_profile (o_provider obs) (o_model obs) (o_api_mode obs) (endpoint_hash (o_endpoint obs))
        (o_route_hash obs) = Inr p0"
      using assms(7-9) hexdigest_sha_nonempty by (simp add: new_profile_def endpoint_hash_def)
    from store.learn_clean_first [OF assms(1) age None this, of now] that show ?thesis
      unfolding learn_db_def assms(3) by blast
  next
    case (Some p0)
    from store.learn_clean_refines [OF assms(1) age Some, of now] that show ?thesis
      unfolding learn_db_def assms(3) by blast
  qed
  then show ?thesis using upper [of p0] by (force simp: bounds_of_def)
qed

lemma observed_last:
  fixes url :: string
  assumes "fake_complete frepr uniform p req t = (Inr r, p')" and "wf_db d" and "db_churn d = empty_table"
  defines "d' \<equiv> feed_ttl_learner d req (answer_event frepr url req t r)"
  shows "wf_db d'" "db_churn d' = empty_table"
    "\<exists>row. last_ttl_observation d' (cache_fingerprint frepr req) = Some row \<and> s_timestamp row = t \<and>
      s_route_hash row = route_hash (observed_route_identity url (response_headers r))"
proof -
  define obs where "obs = \<lparr>o_outcome = read_outcome r, o_cache_fingerprint = cache_fingerprint frepr req,
      o_route_hash = route_hash (observed_route_identity url (response_headers r)),
      o_provider = ci_provider req, o_model = ci_model req, o_api_mode = api_mode_value (ci_api_mode req),
      o_endpoint = ci_endpoint req, o_timestamp = t\<rparr>"
  have d': "d' = fst (learn_db t d obs)"
    by (simp add: d'_def feed_ttl_learner_def answer_event_def event_of_def obs_def)
  show "wf_db d'" unfolding d' learn_db_def by (rule store.learn_invar [OF assms(2)])
  show "db_churn d' = empty_table" unfolding d' by (simp add: learn_db_frame assms(3))
  show "\<exists>row. last_ttl_observation d' (cache_fingerprint frepr req) = Some row \<and> s_timestamp row = t \<and>
      s_route_hash row = route_hash (observed_route_identity url (response_headers r))"
    using store.learn_last_obs [OF assms(2), of t obs] unfolding d' learn_db_def by (auto simp: obs_def)
qed

lemma second_miss_learned:
  assumes "fake_complete frepr uniform p req t = (Inr r, p1)" and "wf_db d" and "db_churn d = empty_table"
    and "fake_complete frepr uniform p1 req t' = (Inr r', p2)" and "t < t'" and "read_outcome r' = MISS_REBUILT"
    and "valid_identity req"
  shows "\<exists>k q u. profile_for (feed_ttl_learner (feed_ttl_learner d req (answer_event frepr url req t r)) req
      (answer_event frepr url req t' r')) k = Some q \<and> upper_bound_s q = Some u \<and> u \<le> total_seconds (t' - t)"
proof -
  note l = observed_last [OF assms(1-3), of url]
  obtain row where row: "last_ttl_observation (feed_ttl_learner d req (answer_event frepr url req t r)) (cache_fingerprint frepr req) = Some row"
    "s_timestamp row = t" "s_route_hash row = route_hash (observed_route_identity url (response_headers r))"
    using l(3) by blast
  define obs where "obs = \<lparr>o_outcome = read_outcome r', o_cache_fingerprint = cache_fingerprint frepr req,
      o_route_hash = route_hash (observed_route_identity url (response_headers r')),
      o_provider = ci_provider req, o_model = ci_model req, o_api_mode = api_mode_value (ci_api_mode req),
      o_endpoint = ci_endpoint req, o_timestamp = t'\<rparr>"
  have "observed_route_identity url (response_headers r) = observed_route_identity url (response_headers r')"
    using complete_static [OF assms(1)] complete_static [OF assms(4)] complete_Inr(3,5) [OF assms(1)] complete_Inr(3) [OF assms(4)]
    by (intro same_route) simp_all
  moreover have "ci_provider req \<noteq> []" "ci_model req \<noteq> []" "api_mode_value (ci_api_mode req) \<noteq> []"
    using assms(7) by (simp_all add: valid_identity_def) (cases "ci_api_mode req"; simp)
  ultimately show ?thesis
    using learned_after_miss [OF l(1,2), of obs row t'] row assms(5,6)
    by (fastforce simp: feed_ttl_learner_def answer_event_def event_of_def obs_def)
qed

section \<open>What is learned\<close>


definition refreshing_provider :: "int fake_provider" where
  "refreshing_provider = fake_init (Some (default_fake_config\<lparr>fc_completion_tokens := Some 5, fc_refresh_on_hit := True\<rparr>)) (\<lambda>seed. seed)"

lemma sample_identity: "valid_identity (sample_request_of ''k'')"
  by (simp add: valid_identity_def sample_request_of_def)


text \<open>The learner measures an age from the last observation. When a hit does not extend the life (the default
  of the simulator) the age of the next miss is counted from that hit, and the learned upper bound falls
  below the true time to live, although no observation was wrong.\<close>

lemma hits_without_refresh_mislead:
  assumes "valid_fake_config (fp_config p)" and "\<not> fc_refresh_on_hit (fp_config p)" and "fc_completion_tokens (fp_config p) = Some n"
    and "0 \<le> n" and "py_lower (fc_provider (fp_config p)) \<noteq> ''anthropic''" and "fp_cache p = []" and "valid_identity req"
    and "t0 < t1" and "t1 < t0 + true_ttl (fp_config p)" and "t0 + true_ttl (fp_config p) \<le> t2"
    and "t2 < t1 + true_ttl (fp_config p)"
  shows "\<exists>k q u. profile_for (snd (run_requests frepr uniform url p fresh_db [(req, t0), (req, t1), (req, t2)])) k = Some q \<and>
    upper_bound_s q = Some u \<and> u < total_seconds (true_ttl (fp_config p))"
proof -
  let ?fp = "cache_fingerprint frepr req" and ?T = "true_ttl (fp_config p)"
  obtain r0 p1 where r0: "fake_complete frepr uniform p req t0 = (Inr r0, p1)" using complete_succeeds assms(1,3,4) by blast
  note f0 = complete_Inr [OF r0]
  obtain r1 p2 where r1: "fake_complete frepr uniform p1 req t1 = (Inr r1, p2)"
    using complete_succeeds [where p = p1 and n = n and req = req and now = t1 and frepr = frepr and uniform = uniform]
      assms(1,3,4) f0(5) by auto
  note f1 = complete_Inr [OF r1]
  obtain r2 p3 where r2: "fake_complete frepr uniform p2 req t2 = (Inr r2, p3)"
    using complete_succeeds [where p = p2 and n = n and req = req and now = t2 and frepr = frepr and uniform = uniform]
      assms(1,3,4) f0(5) f1(5) by auto
  have "fr_expires_at r0 = Some (t0 + ?T)" using f0(4) assms(6) by (simp add: is_cached_def true_ttl_def)
  then have "fr_expires_at r1 = Some (t0 + ?T)"
    using f1(4) f0(5,6) assms(2,9) by (simp add: is_cached_def true_ttl_def)
  then have "\<not> is_cached frepr p2 req t2" using assms(10) by (simp add: is_cached_def f1(6))
  then have miss: "read_outcome r2 = MISS_REBUILT" using read_outcome_eq [OF r2] assms(1,5) f0(5) f1(5) by simp
  note l = observed_last [OF r0 wf_fresh_db, of url]
  have "t1 < t2" using assms(9,10) by simp
  from second_miss_learned [OF r1 l(1,2) r2 this miss assms(7), of url]
  obtain k q u where q: "profile_for (snd (run_requests frepr uniform url p fresh_db [(req, t0), (req, t1), (req, t2)])) k = Some q"
    "upper_bound_s q = Some u" "u \<le> total_seconds (t2 - t1)"
    by (auto simp: r0 r1 r2 fresh_db_def)
  have "total_seconds (t2 - t1) < total_seconds ?T" using assms(11) by (simp add: total_seconds_def divide_strict_right_mono)
  then show ?thesis using q by force
qed

end
