(* ===== verification/EndToEnd.thy ===== *)
theory EndToEnd
  imports Proxy HermesPlugin
begin

text \<open>
  The plugin and the relay together: from the promotion of a terminal call in the agent to the lease the
  relay holds armed for its session. Between the two lies the agent's HTTP client and the ASGI server,
  of which only this is used: they deliver the two correlation headers under their lower-case names.
\<close>

definition delivers :: "json_body \<Rightarrow> incoming \<Rightarrow> bool" where
  "delivers hs rq \<longleftrightarrow>
     list_all (\<lambda>k. case dget hs k of Some (JStr s) \<Rightarrow> dget (in_headers rq) (py_lower k) = Some s | _ \<Rightarrow> True)
       [''X-CachePilot-Session'', ''X-CachePilot-Targets'']"

definition upstream_url_of :: "proxy \<Rightarrow> incoming \<Rightarrow> string" where
  "upstream_url_of px rq = build_upstream_url (px_upstream px) (in_path rq) (in_query rq)"

lemma lower_names:
  "py_lower ''X-CachePilot-Session'' = ''x-cachepilot-session''" "py_lower ''X-CachePilot-Targets'' = ''x-cachepilot-targets''"
  by code_simp+

lemma nat_str_one: "nat_str 1 = ''1''"
  by code_simp

text \<open>A request with a session reaches the lease of that session.\<close>

lemma forward_begin_tracks:
  assumes "px_controller px = Some ct" and "ctl_inv ct" and "ct_enabled ct" and "lease_of (ct_manager ct) fresh = None"
    and "\<not> px_route_affinity_enabled px \<or> \<not> can_pin"
    and "canonical_of loads frepr as_int (exchange_of rq (upstream_url_of px rq) (in_body rq))
           (request_route_identity (upstream_url_of px rq)) = Inr c"
    and "dget (in_headers rq) ''x-cachepilot-session'' = Some session" and "session \<noteq> []"
  shows "\<exists>px1 up lid ct1 l. forward_begin loads frepr as_int can_pin pin now stamp fresh px rq = (px1, up, Some lid) \<and>
    px_controller px1 = Some ct1 \<and> ctl_inv ct1 \<and> lease_of (ct_manager ct1) lid = Some l \<and> cl_session_id l = session \<and>
    cl_cache_fingerprint l = cache_fingerprint frepr c \<and>
    cl_active_targets l = set (bg_ids (parse_targets_count (dget (in_headers rq) ''x-cachepilot-targets''))) \<and>
    replayable loads ct1 (exchange_of rq (upstream_url_of px rq) (in_body rq)) (cl_cache_fingerprint l)"
proof -
  let ?x = "exchange_of rq (upstream_url_of px rq) (in_body rq)" and ?th = "dget (in_headers rq) ''x-cachepilot-targets''"
  let ?q = "lease_request_of frepr session c"
  have x: "ex_session_header ?x = Some session" "ex_upstream_url ?x = upstream_url_of px rq"
    using assms(7) by (simp_all add: exchange_of_def)
  have e: "on_request_start loads frepr as_int now stamp ct (px_store px) ?x ?th fresh =
      start_tracked loads now stamp ct (px_store px) ?x ?th ?q fresh"
    using assms(3,6,8) x by (simp add: on_request_start_def)
  obtain ct1 lid l where s: "start_tracked loads now stamp ct (px_store px) ?x ?th ?q fresh =
      (ct1, persist_lease stamp (px_store px) l, Some lid)" "ctl_inv ct1" "lease_of (ct_manager ct1) lid = Some l"
    "cl_session_id l = session" "cl_cache_fingerprint l = cache_fingerprint frepr c"
    "cl_active_targets l = set (bg_ids (parse_targets_count ?th))" "replayable loads ct1 ?x (cl_cache_fingerprint l)"
    using start_tracked_spec [OF assms(2,4), of loads now stamp "px_store px" ?x ?th ?q] by (auto simp: lease_request_of_def)
  define px1 where "px1 = set_px_store (px\<lparr>px_controller := Some ct1\<rparr>) (persist_lease stamp (px_store px) l)"
  have ls: "lease_start loads frepr as_int now stamp fresh px rq (upstream_url_of px rq) = (px1, Some lid)"
    using assms(1) e s(1) by (simp add: lease_start_def px1_def)
  have "\<not> px_route_affinity_enabled px1 \<or> \<not> can_pin"
    using assms(5) lease_start_frame(2) [of loads frepr as_int now stamp fresh px rq "upstream_url_of px rq"] ls by simp
  then have "\<exists>up. forward_begin loads frepr as_int can_pin pin now stamp fresh px rq = (px1, up, Some lid)"
    using ls by (simp add: forward_begin_def upstream_url_of_def apply_affinity_off Let_def)
  moreover have "px_controller px1 = Some ct1" by (simp add: px1_def set_px_store_def)
  ultimately show ?thesis using s by blast
qed


definition sample_incoming :: incoming where
  "sample_incoming = \<lparr>in_method = ''POST'', in_path = ''/v1'', in_query = [],
     in_headers = [(''x-cachepilot-session'', ''s1''), (''x-cachepilot-targets'', ''1'')], in_body = [1]\<rparr>"

definition sample_proxy :: proxy where
  "sample_proxy = \<lparr>px_upstream = ''https://h'', px_route_affinity_enabled = False, px_observer = None,
     px_controller = Some sample_controller\<rparr>"

lemma sample_forwarded:
  "upstream_url_of sample_proxy sample_incoming = ''https://h/v1''"
  by code_simp

lemma sample_incoming_canonical:
  "\<exists>c. canonical_of sample_loads (\<lambda>_. ''0'') sample_int (exchange_of sample_incoming ''https://h/v1'' (in_body sample_incoming))
     (request_route_identity ''https://h/v1'') = Inr c"
  by (simp add: canonical_of_def exchange_of_def sample_incoming_def derive_auth_scope_def build_canonical_request_def
      sample_json sample_url sample_snapshot_def model_field_def
      non_system_messages_def system_content_def max_tokens_field_def from_content_def
      valid_canonical_def valid_identity_def hexdigest_sha_nonempty hash_content_nonempty Let_def
      split: option.split)


end
