(* ===== verification/PluginLog.thy ===== *)
theory PluginLog
  imports HermesPlugin
begin

text \<open>
  The Hermes plugin's settings as a whole and its log lines: \<open>CachePilotConfig\<close> and \<open>emit_debug\<close> of
  \<open>cachepilot_hermes/config.py\<close>, the fields every hook of \<open>lifecycle.py\<close> and every middleware logs, the
  execution middlewares, and the registration of \<open>plugin.py\<close>. A hook call is its keyword arguments by
  name, payloads included; a line is what the logger is given, \<open>None\<close> when a gate is closed. \<open>frepr\<close> is
  \<open>repr\<close> of a float. The lemmas show that payloads never reach a line.
\<close>

section \<open>Settings\<close>

record plugin_config =
  pg_enabled :: bool
  pg_log_level :: string
  pg_log_format :: string
  pg_correlation_headers :: bool
  pg_long_tasks :: long_tasks_settings

definition LOG_LEVELS :: "(string \<times> int) list" where
  "LOG_LEVELS = [(''DEBUG'', 10), (''INFO'', 20), (''WARNING'', 30), (''ERROR'', 40), (''CRITICAL'', 50)]"

definition LOG_FORMATS :: "string list" where
  "LOG_FORMATS = [''kv'', ''json'']"

definition ascii_upper :: "char \<Rightarrow> char" where
  "ascii_upper c = (if 97 \<le> code c \<and> code c \<le> 122 then char_of (code c - 32) else c)"

definition plugin_from_env :: "(string \<Rightarrow> string option) \<Rightarrow> py_error + plugin_config" where
  \<comment> \<open>The level and the format are checked by the model, whatever the other variables are. Letters outside
    ASCII occur in no level, so only ASCII is raised to upper case.\<close>
  "plugin_from_env env =
     (let level = map ascii_upper (py_strip (opt_or (env ''CACHEPILOT_LOG_LEVEL'') ''DEBUG''));
          fmt = py_lower (py_strip (opt_or (env ''CACHEPILOT_LOG_FORMAT'') ''kv''))
      in if level \<notin> set (map fst LOG_LEVELS) \<or> fmt \<notin> set LOG_FORMATS then Inl ValidationError
         else Inr \<lparr>pg_enabled = plugin_flag (opt_or (env ''CACHEPILOT_ENABLED'') ''true''),
           pg_log_level = level, pg_log_format = fmt,
           pg_correlation_headers = plugin_flag (opt_or (env ''CACHEPILOT_CORRELATION_HEADERS'') ''true''),
           pg_long_tasks = long_tasks_from_env env\<rparr>)"

section \<open>A log line\<close>

datatype log_value = L_json json | L_tuple "string list" | L_object string "byte list"

fun safe_value :: "log_value \<Rightarrow> json" where
  \<comment> \<open>Scalars pass, containers become their type and length, other objects their type name.\<close>
  "safe_value (L_json (JObj kvs)) = JStr (''dict(len='' @ nat_str (length kvs) @ '')'')"
| "safe_value (L_json (JArr xs)) = JStr (''list(len='' @ nat_str (length xs) @ '')'')"
| "safe_value (L_json v) = v"
| "safe_value (L_tuple xs) = JStr (''tuple(len='' @ nat_str (length xs) @ '')'')"
| "safe_value (L_object type_name content) = JStr type_name"

fun scalar_str :: "(pyfloat \<Rightarrow> string) \<Rightarrow> json \<Rightarrow> string" where
  \<comment> \<open>\<open>str\<close> of what \<open>_safe_value\<close> returns.\<close>
  "scalar_str frepr (JBool b) = (if b then ''True'' else ''False'')"
| "scalar_str frepr (JInt i) = int_str i"
| "scalar_str frepr (JFloat x) = frepr x"
| "scalar_str frepr (JStr s) = s"
| "scalar_str frepr _ = ''None''"

definition kv_value :: "(pyfloat \<Rightarrow> string) \<Rightarrow> json \<Rightarrow> string" where
  "kv_value frepr v =
     (let t = scalar_str frepr v in
      if list_ex is_space t \<or> CHR ''='' \<in> set t then [CHR 0x22] @ t @ [CHR 0x22] else t)"

definition json_line :: "(pyfloat \<Rightarrow> string) \<Rightarrow> json_body \<Rightarrow> string" where
  \<comment> \<open>\<open>json.dumps(..., sort_keys=True)\<close> of an object of scalars.\<close>
  "json_line frepr kvs =
     ''{'' @ py_join '', '' (map (\<lambda>(k, v). json_string k @ '': '' @ canonical_json frepr v) (sort_keys kvs)) @ ''}''"

definition level_number :: "string \<Rightarrow> int" where
  "level_number name = opt_or (dget LOG_LEVELS name) 10"

definition PLUGIN_NAME :: string where
  "PLUGIN_NAME = ''cachepilot-hermes-plugin''"

definition safe_fields :: "(string \<times> log_value) list \<Rightarrow> json_body" where
  "safe_fields kwfields = map (\<lambda>(k, v). (k, safe_value v)) (filter (\<lambda>(k, v). v \<noteq> L_json JNull) kwfields)"

definition emit_debug ::
  "(pyfloat \<Rightarrow> string) \<Rightarrow> plugin_config \<Rightarrow> bool \<Rightarrow> string \<Rightarrow> (string \<times> log_value) list \<Rightarrow> string option" where
  \<comment> \<open>\<open>logger_debug\<close> is \<open>logger.isEnabledFor(DEBUG)\<close>.\<close>
  "emit_debug frepr cfg logger_debug event kwfields =
     (if \<not> pg_enabled cfg \<or> 10 < level_number (pg_log_level cfg) \<or> \<not> logger_debug then None
      else
        (let safe = safe_fields kwfields
         in if pg_log_format cfg = ''json''
            then Some (json_line frepr (merge_dict [(''event'', JStr event), (''plugin'', JStr PLUGIN_NAME)] safe))
            else Some (py_join '' '' ([''event='' @ event, ''plugin='' @ PLUGIN_NAME] @
                   map (\<lambda>(k, v). k @ ''='' @ kv_value frepr v) safe))))"

section \<open>What hooks and middleware log\<close>

abbreviation text_arg :: "string \<Rightarrow> string \<times> log_value" where
  "text_arg n \<equiv> (n, L_json (JStr []))"

abbreviation any_arg :: "string \<Rightarrow> string \<times> log_value" where
  "any_arg n \<equiv> (n, L_json JNull)"

abbreviation flag_arg :: "string \<Rightarrow> bool \<Rightarrow> string \<times> log_value" where
  "flag_arg n b \<equiv> (n, L_json (JBool b))"

type_synonym log_fields = "(string \<times> log_value) list"

text \<open>Per hook the logged arguments, in order, with the defaults of the signature.\<close>

definition post_tool_call_fields :: log_fields where
  "post_tool_call_fields =
     [text_arg ''tool_name'', text_arg ''task_id'', text_arg ''session_id'', text_arg ''tool_call_id'',
      any_arg ''duration_ms'']"

definition post_api_request_fields :: log_fields where
  "post_api_request_fields =
     [text_arg ''session_id'', text_arg ''task_id'', text_arg ''platform'', text_arg ''model'',
      text_arg ''provider'', text_arg ''api_mode'', any_arg ''api_call_count'', any_arg ''api_duration'',
      text_arg ''finish_reason'', any_arg ''message_count'', text_arg ''response_model'',
      any_arg ''assistant_content_chars'', any_arg ''assistant_tool_call_count'']"

definition api_request_error_fields :: log_fields where
  "api_request_error_fields =
     [text_arg ''task_id'', text_arg ''turn_id'', text_arg ''api_request_id'', text_arg ''session_id'',
      text_arg ''platform'', text_arg ''model'', text_arg ''provider'', text_arg ''api_mode'',
      any_arg ''api_call_count'', any_arg ''api_duration'', any_arg ''status_code'',
      any_arg ''retry_count'', any_arg ''max_retries'', any_arg ''retryable'']"

definition subagent_start_fields :: log_fields where
  "subagent_start_fields =
     [text_arg ''parent_session_id'', text_arg ''parent_turn_id'', text_arg ''parent_subagent_id'',
      text_arg ''child_session_id'', text_arg ''child_subagent_id'', text_arg ''child_role'']"

definition subagent_stop_fields :: log_fields where
  "subagent_stop_fields =
     [text_arg ''parent_session_id'', text_arg ''parent_turn_id'', text_arg ''child_session_id'',
      text_arg ''child_role'', text_arg ''child_status'', any_arg ''duration_ms'']"

definition on_session_start_fields :: log_fields where
  "on_session_start_fields =
     [text_arg ''session_id'']"

definition on_session_end_fields :: log_fields where
  "on_session_end_fields =
     [text_arg ''session_id'', text_arg ''task_id'', text_arg ''turn_id'', flag_arg ''completed'' True,
      flag_arg ''failed'' False, flag_arg ''interrupted'' False, text_arg ''turn_exit_reason'',
      text_arg ''model'', text_arg ''platform'']"

definition on_session_reset_fields :: log_fields where
  "on_session_reset_fields =
     [text_arg ''session_id'']"

definition HOOK_FIELDS :: "(string \<times> log_fields) list" where
  \<comment> \<open>\<open>make_hook_handlers\<close>: the hooks in the order of their registration.\<close>
  "HOOK_FIELDS =
     [(''post_tool_call'', post_tool_call_fields),
      (''post_api_request'', post_api_request_fields),
      (''api_request_error'', api_request_error_fields),
      (''subagent_start'', subagent_start_fields),
      (''subagent_stop'', subagent_stop_fields),
      (''on_session_start'', on_session_start_fields),
      (''on_session_end'', on_session_end_fields),
      (''on_session_reset'', on_session_reset_fields)]"

lemmas hook_fields =
  post_tool_call_fields_def post_api_request_fields_def api_request_error_fields_def subagent_start_fields_def
  subagent_stop_fields_def on_session_start_fields_def on_session_end_fields_def on_session_reset_fields_def

definition hook_line ::
  "(pyfloat \<Rightarrow> string) \<Rightarrow> plugin_config \<Rightarrow> bool \<Rightarrow> string \<Rightarrow> (string, log_value) dict \<Rightarrow> string option" where
  "hook_line frepr cfg logger_debug hook kwargs =
     emit_debug frepr cfg logger_debug (''cachepilot.hook.'' @ hook)
       ((''hook'', L_json (JStr hook)) # map (\<lambda>(n, d). (n, opt_or (dget kwargs n) d)) (opt_or (dget HOOK_FIELDS hook) []))"

definition payload_keys :: "json \<Rightarrow> log_value" where
  \<comment> \<open>\<open>_keys\<close>\<close>
  "payload_keys payload = L_tuple (case payload of JObj kvs \<Rightarrow> sort (map fst kvs) | _ \<Rightarrow> [])"

definition payload_count :: "json \<Rightarrow> log_value" where
  \<comment> \<open>\<open>_count\<close>\<close>
  "payload_count payload =
     L_json (JInt (case payload of JObj kvs \<Rightarrow> int (length kvs) | JArr xs \<Rightarrow> int (length xs) | _ \<Rightarrow> 0))"

definition tool_line ::
  "(pyfloat \<Rightarrow> string) \<Rightarrow> plugin_config \<Rightarrow> bool \<Rightarrow> string \<Rightarrow> string \<Rightarrow> json \<Rightarrow> string option" where
  \<comment> \<open>The line of \<open>tool_request\<close> and \<open>tool_execution\<close>.\<close>
  "tool_line frepr cfg logger_debug kind tool_name args =
     emit_debug frepr cfg logger_debug (''cachepilot.middleware.'' @ kind)
       [(''kind'', L_json (JStr kind)), (''tool_name'', L_json (JStr tool_name)), (''args_keys'', payload_keys args),
        (''args_n'', payload_count args)]"

definition tool_execution_logged ::
  "(pyfloat \<Rightarrow> string) \<Rightarrow> plugin_config \<Rightarrow> bool \<Rightarrow> string \<Rightarrow> (json \<Rightarrow> 'a) option \<Rightarrow> (json \<Rightarrow> 'a) \<Rightarrow> json \<Rightarrow> 'a \<times> string option" where
  "tool_execution_logged frepr cfg logger_debug tool_name next_call payload args =
     (tool_execution next_call payload args, tool_line frepr cfg logger_debug ''tool_execution'' tool_name args)"

definition promote_line ::
  "(pyfloat \<Rightarrow> string) \<Rightarrow> plugin_config \<Rightarrow> bool \<Rightarrow> string \<Rightarrow> string \<Rightarrow> string \<Rightarrow> string option" where
  \<comment> \<open>What a promotion logs: the tool, the decision and its reason.\<close>
  "promote_line frepr cfg logger_debug tool_name dec why =
     emit_debug frepr cfg logger_debug ''cachepilot.middleware.tool_request.promote''
       [(''tool_name'', L_json (JStr tool_name)), (''decision'', L_json (JStr dec)), (''reason'', L_json (JStr why))]"

definition llm_line :: "(pyfloat \<Rightarrow> string) \<Rightarrow> plugin_config \<Rightarrow> bool \<Rightarrow> string \<Rightarrow> json \<Rightarrow> string option" where
  \<comment> \<open>The line of \<open>llm_request\<close> and \<open>llm_execution\<close>.\<close>
  "llm_line frepr cfg logger_debug kind request =
     emit_debug frepr cfg logger_debug (''cachepilot.middleware.'' @ kind)
       [(''kind'', L_json (JStr kind)), (''request_keys'', payload_keys request), (''request_n'', payload_count request)]"

definition llm_execution ::
  "(pyfloat \<Rightarrow> string) \<Rightarrow> plugin_config \<Rightarrow> bool \<Rightarrow> (json \<Rightarrow> 'a) option \<Rightarrow> (json \<Rightarrow> 'a) \<Rightarrow> json \<Rightarrow> 'a \<times> string option" where
  \<comment> \<open>Without a next call the payload itself is the result.\<close>
  "llm_execution frepr cfg logger_debug next_call payload request =
     ((case next_call of None \<Rightarrow> payload request | Some f \<Rightarrow> f request),
      llm_line frepr cfg logger_debug ''llm_execution'' request)"

section \<open>Registration\<close>

definition HOOK_NAMES :: "string list" where
  "HOOK_NAMES = [''post_tool_call'', ''post_api_request'', ''api_request_error'', ''subagent_start'', ''subagent_stop'',
     ''on_session_start'', ''on_session_end'', ''on_session_reset'']"

definition MIDDLEWARE_KINDS :: "string list" where
  "MIDDLEWARE_KINDS = [''tool_request'', ''tool_execution'', ''llm_request'', ''llm_execution'']"

datatype registration = Register_middleware string | Register_hook string

definition register_plugin ::
  "(pyfloat \<Rightarrow> string) \<Rightarrow> plugin_config \<Rightarrow> bool \<Rightarrow> registration list \<times> string option" where
  "register_plugin frepr cfg logger_debug =
     (map Register_middleware MIDDLEWARE_KINDS @ map Register_hook (map fst HOOK_FIELDS),
      emit_debug frepr cfg logger_debug ''cachepilot.plugin.register''
        [(''middleware_count'', L_json (JInt (int (length MIDDLEWARE_KINDS)))),
         (''hooks_count'', L_json (JInt (int (length HOOK_FIELDS)))), (''enabled'', L_json (JBool (pg_enabled cfg)))])"

section \<open>Properties\<close>

lemma hook_line_cong:
  assumes "\<And>n d. (n, d) \<in> set (opt_or (dget HOOK_FIELDS hook) []) \<Longrightarrow>
      safe_value (opt_or (dget a n) d) = safe_value (opt_or (dget b n) d) \<and>
      (opt_or (dget a n) d = L_json JNull \<longleftrightarrow> opt_or (dget b n) d = L_json JNull)"
  shows "hook_line frepr cfg on hook a = hook_line frepr cfg on hook b"
proof -
  have "safe_fields (map (\<lambda>(n, d). (n, opt_or (dget a n) d)) fs) = safe_fields (map (\<lambda>(n, d). (n, opt_or (dget b n) d)) fs)"
    if "\<And>n d. (n, d) \<in> set fs \<Longrightarrow> safe_value (opt_or (dget a n) d) = safe_value (opt_or (dget b n) d) \<and>
      (opt_or (dget a n) d = L_json JNull \<longleftrightarrow> opt_or (dget b n) d = L_json JNull)" for fs
    using that
  proof (induction fs)
    case (Cons f fs)
    show ?case using Cons.IH Cons.prems by (cases f) (force simp: safe_fields_def)
  qed (simp add: safe_fields_def)
  note c = this [OF assms]
  have "safe_fields ((''hook'', L_json (JStr hook)) # fs) = (''hook'', JStr hook) # safe_fields fs" for fs
    by (simp add: safe_fields_def)
  then show ?thesis unfolding hook_line_def emit_debug_def c by (simp only: c)
qed

definition PAYLOAD_ARGUMENTS :: "string list" where
  \<comment> \<open>Arguments that carry prompts, tool input or output, or the text of an error.\<close>
  "PAYLOAD_ARGUMENTS = [''args'', ''result'', ''usage'', ''error'', ''reason'', ''request'', ''child_goal'',
     ''child_summary'', ''tool_call_history'', ''base_url'']"

inductive same_shape :: "log_value \<Rightarrow> log_value \<Rightarrow> bool" where
  \<comment> \<open>Containers of one type and length, other objects of one type, whatever they hold.\<close>
  same: "same_shape v v"
| dicts: "length a = length b \<Longrightarrow> same_shape (L_json (JObj a)) (L_json (JObj b))"
| lists: "length a = length b \<Longrightarrow> same_shape (L_json (JArr a)) (L_json (JArr b))"
| tuples: "length a = length b \<Longrightarrow> same_shape (L_tuple a) (L_tuple b)"
| objects: "same_shape (L_object t a) (L_object t b)"

lemma same_shape_safe: "same_shape u v \<Longrightarrow> safe_value u = safe_value v \<and> (u = L_json JNull \<longleftrightarrow> v = L_json JNull)"
  by (induction rule: same_shape.induct) auto

lemma HOOK_FIELDS_safe:
  "list_all (\<lambda>(hook, fs). list_all (\<lambda>(n, d). n \<notin> set PAYLOAD_ARGUMENTS) fs) HOOK_FIELDS"
  unfolding HOOK_FIELDS_def PAYLOAD_ARGUMENTS_def hook_fields by simp

lemma payload_not_logged: "(p, d) \<in> set (opt_or (dget HOOK_FIELDS hook) []) \<Longrightarrow> p \<notin> set PAYLOAD_ARGUMENTS"
  using HOOK_FIELDS_safe by (cases "dget HOOK_FIELDS hook") (force simp: list_all_iff dest: map_of_SomeD)+

lemma json_escape_printable: "x \<in> set (json_escape_char c) \<Longrightarrow> 32 \<le> code x"
proof -
  have "code c < 256" by (simp add: code_def)
  then have "code c div 16 < 16" "code c mod 16 < 16" by (simp_all add: less_mult_imp_div_less)
  then have h: "32 \<le> code (hex_digit (code c div 16))" "32 \<le> code (hex_digit (code c mod 16))"
    using is_hex_digit by (fastforce simp: is_hex_def)+
  have k: "32 \<le> code (char_of (92 :: nat))" "32 \<le> code (CHR ''n'')" "32 \<le> code (CHR ''r'')" "32 \<le> code (CHR ''t'')"
    "32 \<le> code (CHR ''f'')" "32 \<le> code (CHR ''b'')" "32 \<le> code (CHR ''u'')" "32 \<le> code (CHR ''0'')"
    by (simp_all add: code_def)
  assume "x \<in> set (json_escape_char c)"
  then show ?thesis using h k by (auto simp: json_escape_char_def Let_def split: if_split_asm)
qed

definition one_line :: "string \<Rightarrow> bool" where
  "one_line s \<longleftrightarrow> list_all (\<lambda>c. 32 \<le> code c) s"

lemma one_line_append [simp]: "one_line (a @ b) \<longleftrightarrow> one_line a \<and> one_line b"
  by (simp add: one_line_def)

lemma one_line_json_string: "one_line (json_string s)"
  using json_escape_printable by (fastforce simp: one_line_def list_all_iff json_string_def code_def)

lemma one_line_nat_str: "one_line (nat_str n)"
  using nat_str_digits [of n] by (auto simp: one_line_def list_all_iff is_digit_def)

lemma one_line_scalar:
  assumes "\<And>x. one_line (frepr x)"
  shows "one_line (canonical_json frepr (safe_value v))"
proof -
  have "one_line (int_str i)" for i
    using one_line_nat_str by (auto simp: int_str_def one_line_def code_def)
  moreover have "one_line ''null''" "one_line ''true''" "one_line ''false''" by (simp_all add: one_line_def code_def)
  ultimately show ?thesis
    using assms one_line_json_string
    by (cases v; cases "case v of L_json j \<Rightarrow> j | _ \<Rightarrow> JNull") auto
qed

lemma one_line_join: "one_line sep \<Longrightarrow> (\<And>x. x \<in> set xs \<Longrightarrow> one_line x) \<Longrightarrow> one_line (py_join sep xs)"
  by (induction sep xs rule: py_join.induct) (auto simp: one_line_def)

lemma one_line_json_line:
  assumes "\<And>x. one_line (frepr x)" and "\<And>k v. (k, v) \<in> set kvs \<Longrightarrow> \<exists>u. v = safe_value u"
  shows "one_line (json_line frepr kvs)"
proof -
  have s: "set (sort_keys kvs) = set kvs" by (simp add: sort_keys_def)
  have "one_line (json_string k @ '': '' @ canonical_json frepr v)" if "(k, v) \<in> set kvs" for k v
    using assms(2) [OF that] one_line_json_string one_line_scalar [OF assms(1)] by (auto simp: one_line_def code_def)
  then have "one_line (py_join '', '' (map (\<lambda>(k, v). json_string k @ '': '' @ canonical_json frepr v) (sort_keys kvs)))"
    using s by (intro one_line_join) (auto simp: one_line_def code_def)
  then show ?thesis by (simp add: json_line_def) (simp add: one_line_def code_def)
qed

lemma merge_dict_set: "set (merge_dict a b) \<subseteq> set a \<union> set b"
proof (induction b arbitrary: a)
  case (Cons p b)
  have "set (dset a (fst p) (snd p)) \<subseteq> insert p (set a)" by (induction a) auto
  then show ?case using Cons [of "dset a (fst p) (snd p)"] by (auto simp: merge_dict_def split_beta)
qed (simp add: merge_dict_def)

lemma emit_json_one_line:
  assumes "\<And>x. one_line (frepr x)" and "pg_log_format cfg = ''json''" and "emit_debug frepr cfg on event kwfields = Some line"
  shows "one_line line"
proof -
  define kvs where "kvs = merge_dict [(''event'', JStr event), (''plugin'', JStr PLUGIN_NAME)] (safe_fields kwfields)"
  have "line = json_line frepr kvs" using assms(2,3) by (simp add: emit_debug_def kvs_def Let_def split: if_splits)
  moreover have "\<exists>u. v = safe_value u" if "(k, v) \<in> set kvs" for k v
  proof -
    have "(k, v) \<in> set [(''event'', JStr event), (''plugin'', JStr PLUGIN_NAME)] \<union> set (safe_fields kwfields)"
      using that merge_dict_set unfolding kvs_def by blast
    then show ?thesis
      using safe_value.simps(7) by (auto simp: safe_fields_def) (metis safe_value.simps)+
  qed
  ultimately show ?thesis using one_line_json_line [OF assms(1)] by simp
qed

text \<open>C39: The log cannot leak. A hook's line does not depend on any payload argument at all, and on any
  argument that is a container or an object only by its type and length; the lines of the LLM middleware
  depend on the number of request fields only; nothing is logged while the plugin is off or the logger
  closed; and in the JSON format a call is one line, whatever its arguments hold.\<close>

theorem log_lines_safe:
  assumes "\<And>x. one_line (frepr x)"
  shows "(p \<in> set PAYLOAD_ARGUMENTS \<longrightarrow> hook_line frepr cfg on hook (dset kwargs p v) = hook_line frepr cfg on hook kwargs) \<and>
    (same_shape v w \<longrightarrow> hook_line frepr cfg on hook (dset kwargs n v) = hook_line frepr cfg on hook (dset kwargs n w)) \<and>
    (length a = length b \<longrightarrow> llm_line frepr cfg on kind (JObj a) = llm_line frepr cfg on kind (JObj b)) \<and>
    (hook_line frepr cfg on hook kwargs \<noteq> None \<longrightarrow> pg_enabled cfg \<and> on) \<and>
    (pg_log_format cfg = ''json'' \<and> hook_line frepr cfg on hook kwargs = Some line \<longrightarrow> one_line line)"
proof (intro conjI impI)
  show "hook_line frepr cfg on hook (dset kwargs p v) = hook_line frepr cfg on hook kwargs" if "p \<in> set PAYLOAD_ARGUMENTS"
    using that payload_not_logged by (intro hook_line_cong) (auto simp: update_conv)
  show "hook_line frepr cfg on hook (dset kwargs n v) = hook_line frepr cfg on hook (dset kwargs n w)" if "same_shape v w"
    using same_shape_safe [OF that] by (intro hook_line_cong) (auto simp: update_conv)
  show "llm_line frepr cfg on kind (JObj a) = llm_line frepr cfg on kind (JObj b)" if "length a = length b"
    using that by (simp add: llm_line_def emit_debug_def safe_fields_def payload_keys_def payload_count_def)
  show "pg_enabled cfg" "on" if "hook_line frepr cfg on hook kwargs \<noteq> None"
    using that by (auto simp: hook_line_def emit_debug_def split: if_splits)
  show "one_line line" if "pg_log_format cfg = ''json'' \<and> hook_line frepr cfg on hook kwargs = Some line"
    using that unfolding hook_line_def by (elim conjE) (rule emit_json_one_line [of frepr, OF assms])
qed

definition debug_config :: plugin_config where
  "debug_config = \<lparr>pg_enabled = True, pg_log_level = ''DEBUG'', pg_log_format = ''kv'', pg_correlation_headers = True,
     pg_long_tasks = default_long_tasks\<rparr>"

theorem log_lines_safe_witness:
  "hook_line (\<lambda>x. ''0.5'') debug_config True ''api_request_error'' (dset [] ''error'' (L_json (JStr ''secret''))) =
   hook_line (\<lambda>x. ''0.5'') debug_config True ''api_request_error'' []"
proof -
  have "one_line ''0.5''" by (simp add: one_line_def code_def)
  moreover have "''error'' \<in> set PAYLOAD_ARGUMENTS" by (simp add: PAYLOAD_ARGUMENTS_def)
  ultimately show ?thesis using log_lines_safe [of "\<lambda>x. ''0.5''" "''error''"] by blast
qed

text \<open>In the other format a value is quoted but not escaped: a session id with a line break ends the line.\<close>

lemma kv_line_breaks:
  "hook_line (\<lambda>x. []) debug_config True ''on_session_start'' [(''session_id'', L_json (JStr [CHR ''s'', CHR 0x0A, CHR ''t'']))] =
   Some (''event=cachepilot.hook.on_session_start plugin=cachepilot-hermes-plugin hook=on_session_start session_id='' @
     [CHR 0x22, CHR ''s'', CHR 0x0A, CHR ''t'', CHR 0x22])"
  by code_simp

text \<open>A level that is not one of the five stops the load of the plugin.\<close>

lemma unknown_level_raises:
  "plugin_from_env (\<lambda>k. if k = ''CACHEPILOT_LOG_LEVEL'' then Some ''trace'' else None) = Inl ValidationError"
  by code_simp

lemma registers_manifest:
  "fst (register_plugin frepr cfg on) = map Register_middleware MIDDLEWARE_KINDS @ map Register_hook HOOK_NAMES"
  by (simp add: register_plugin_def HOOK_FIELDS_def HOOK_NAMES_def)

end
