(* ===== verification/RelayServer.thy ===== *)
theory RelayServer
  imports Dashboard
begin

text \<open>
  The relay's server, \<open>cachepilot_relay/server.py\<close>: the routes of the application, the control endpoint, the
  check of the listen address, the start-up loop and \<open>_serve\<close>. Starlette's router, the result of binding a
  socket and what uvicorn's task looks like at each poll are parameters; the law of the router that the
  code relies on is a named hypothesis. The lemmas close the circle with the probes of the command line
  and the dashboard: they say healthy for this server and for nothing else.
\<close>

section \<open>Routes\<close>

definition ALL_METHODS :: "string list" where
  "ALL_METHODS = [''GET'', ''POST'', ''PUT'', ''PATCH'', ''DELETE'', ''HEAD'', ''OPTIONS'', ''CONNECT'', ''TRACE'']"

definition RELAY_HEALTH_PATH :: string where
  "RELAY_HEALTH_PATH = ''/cachepilot/health''"

definition RELAY_HEALTH_BODY :: json where
  "RELAY_HEALTH_BODY = JObj [(''service'', JStr ''cachepilot-relay''), (''status'', JStr ''ok'')]"

datatype path_pattern = Exact string | Any_path

record app_route =
  ar_pattern :: path_pattern
  ar_methods :: "string list"
  ar_local :: bool

definition app_routes :: "app_route list" where
  \<comment> \<open>The order of the \<open>add_route\<close> calls; \<open>ar_local\<close> marks \<open>control_health\<close>, the other endpoint forwards.\<close>
  "app_routes =
     [\<lparr>ar_pattern = Exact RELAY_HEALTH_PATH, ar_methods = [''GET''], ar_local = True\<rparr>,
      \<lparr>ar_pattern = Any_path, ar_methods = ALL_METHODS, ar_local = False\<rparr>]"

fun pattern_matches :: "path_pattern \<Rightarrow> string \<Rightarrow> bool" where
  "pattern_matches (Exact p) path = (path = p)"
| "pattern_matches Any_path path = starts_with ''/'' path"

definition takes_method :: "app_route \<Rightarrow> string \<Rightarrow> bool" where
  \<comment> \<open>A route for GET also takes HEAD.\<close>
  "takes_method r m \<longleftrightarrow> m \<in> set (ar_methods r) \<or> m = ''HEAD'' \<and> ''GET'' \<in> set (ar_methods r)"

definition full_match :: "app_route \<Rightarrow> string \<Rightarrow> string \<Rightarrow> bool" where
  "full_match r m path \<longleftrightarrow> pattern_matches (ar_pattern r) path \<and> takes_method r m"

definition router_law :: "(app_route list \<Rightarrow> string \<Rightarrow> string \<Rightarrow> app_route option) \<Rightarrow> bool" where
  \<comment> \<open>The first route with the path and the method gets the request; one with the path alone does not
    end the search.\<close>
  "router_law router \<longleftrightarrow>
     (\<forall>before r after m path. full_match r m path \<and> (\<forall>s \<in> set before. \<not> full_match s m path) \<longrightarrow>
        router (before @ r # after) m path = Some r)"

datatype relay_answer = Control_body "byte list" | Forward | Router_error

definition relay_dispatch ::
  "(app_route list \<Rightarrow> string \<Rightarrow> string \<Rightarrow> app_route option) \<Rightarrow> (json \<Rightarrow> byte list) \<Rightarrow> string \<Rightarrow> string \<Rightarrow> relay_answer" where
  "relay_dispatch router dumps m path =
     (case router app_routes m path of
        None \<Rightarrow> Router_error
      | Some r \<Rightarrow> if ar_local r then Control_body (dumps RELAY_HEALTH_BODY) else Forward)"

definition relay_as_server ::
  "(app_route list \<Rightarrow> string \<Rightarrow> string \<Rightarrow> app_route option) \<Rightarrow> (json \<Rightarrow> byte list) \<Rightarrow> string \<Rightarrow> probe_answer" where
  \<comment> \<open>What a probe of a path of this server reads when the request is answered locally.\<close>
  "relay_as_server router dumps path =
     (case relay_dispatch router dumps ''GET'' path of
        Control_body body \<Rightarrow> Response 200 body
      | _ \<Rightarrow> No_answer)"

section \<open>Start-up\<close>

datatype bind_result = Bound | Addr_in_use | Bind_failed

datatype start_error = Listen_address_in_use | Os_error | Start_timeout | Task_error

definition check_listen_available :: "(bool \<Rightarrow> string \<Rightarrow> int \<Rightarrow> bind_result) \<Rightarrow> string \<Rightarrow> int \<Rightarrow> start_error + unit" where
  \<comment> \<open>\<open>bind ipv6 host port\<close> is the probe socket.\<close>
  "check_listen_available bind host port =
     (if port = 0 then Inr ()
      else case bind (CHR '':'' \<in> set host) host port of
        Bound \<Rightarrow> Inr () | Addr_in_use \<Rightarrow> Inl Listen_address_in_use | Bind_failed \<Rightarrow> Inl Os_error)"

datatype task_state = Running | Finished_clean | Failed_in_use | Failed_other

record poll =
  po_started :: bool
  po_task :: task_state
  po_clock :: flt

partial_function (option) start_loop :: "(nat \<Rightarrow> poll) \<Rightarrow> flt \<Rightarrow> nat \<Rightarrow> (start_error + unit) option" where
  \<comment> \<open>The loop of \<open>RelayServer.start\<close> from its \<open>i\<close>-th test on; \<open>poll i\<close> is what it finds there.\<close>
  "start_loop poll deadline i =
     (if po_started (poll i) then Some (Inr ())
      else if po_task (poll i) = Failed_in_use then Some (Inl Listen_address_in_use)
      else if po_task (poll i) = Failed_other then Some (Inl Task_error)
      else if deadline < po_clock (poll i) then Some (Inl Start_timeout)
      else start_loop poll deadline (i + 1))"

definition relay_start ::
  "(bool \<Rightarrow> string \<Rightarrow> int \<Rightarrow> bind_result) \<Rightarrow> (nat \<Rightarrow> poll) \<Rightarrow> flt \<Rightarrow> string \<Rightarrow> bool \<Rightarrow> (start_error + unit) option" where
  \<comment> \<open>\<open>t0\<close> is the loop's time at the start. The address was parsed when the configuration was made.\<close>
  "relay_start bind poll t0 listen task_exists =
     (if task_exists then Some (Inr ())
      else case parse_listen listen of
        Inl e \<Rightarrow> Some (Inl Task_error)
      | Inr (host, port) \<Rightarrow>
          (case check_listen_available bind host port of
             Inl e \<Rightarrow> Some (Inl e)
           | Inr _ \<Rightarrow> start_loop poll (t0 + 15) 0))"

section \<open>Properties\<close>

lemma dispatch_cases:
  assumes "router_law router" and "m \<in> set ALL_METHODS" and "starts_with ''/'' path"
  shows "relay_dispatch router dumps m path =
    (if path = RELAY_HEALTH_PATH \<and> m \<in> {''GET'', ''HEAD''} then Control_body (dumps RELAY_HEALTH_BODY) else Forward)"
proof -
  define h where "h = \<lparr>ar_pattern = Exact RELAY_HEALTH_PATH, ar_methods = [''GET''], ar_local = True\<rparr>"
  define c where "c = \<lparr>ar_pattern = Any_path, ar_methods = ALL_METHODS, ar_local = False\<rparr>"
  have r: "app_routes = [h, c]" by (simp add: app_routes_def h_def c_def)
  have fh: "full_match h m path \<longleftrightarrow> path = RELAY_HEALTH_PATH \<and> m \<in> {''GET'', ''HEAD''}"
    by (auto simp: full_match_def h_def takes_method_def)
  have fc: "full_match c m path" using assms(2,3) by (simp add: full_match_def c_def takes_method_def)
  show ?thesis
  proof (cases "full_match h m path")
    case True
    then have "router ([] @ h # [c]) m path = Some h" using assms(1) unfolding router_law_def by (metis empty_iff list.set(1))
    then show ?thesis using True fh by (simp add: relay_dispatch_def r h_def)
  next
    case False
    then have "\<forall>s \<in> set [h]. \<not> full_match s m path" by simp
    then have "router ([h] @ c # []) m path = Some c" using assms(1) fc unfolding router_law_def by blast
    then show ?thesis using False fh by (simp add: relay_dispatch_def r c_def)
  qed
qed

lemma healthy_iff: "probe_verdict loads a = ''healthy'' \<longleftrightarrow>
    (\<exists>body kvs. a = Response 200 body \<and> loads body = Some (JObj kvs) \<and> json_field ''service'' kvs = JStr ''cachepilot-relay'')"
  by (cases a) (auto simp: probe_verdict_def is_relay_health_body_def simp del: json_field.simps split: option.splits json.splits)


definition sample_router :: "app_route list \<Rightarrow> string \<Rightarrow> string \<Rightarrow> app_route option" where
  "sample_router routes m path = find (\<lambda>r. full_match r m path) routes"

lemma sample_router_law: "router_law sample_router"
  unfolding router_law_def sample_router_def
proof (intro allI impI, elim conjE)
  fix before r after m path
  assume "full_match r m path" and "\<forall>s \<in> set before. \<not> full_match s m path"
  then show "find (\<lambda>r. full_match r m path) (before @ r # after) = Some r" by (induction before) auto
qed


text \<open>The comment says that the control path is not forwarded; every method but GET and HEAD on it is.\<close>

lemma health_post_forwarded:
  assumes "router_law router"
  shows "relay_dispatch router dumps ''POST'' RELAY_HEALTH_PATH = Forward"
  using dispatch_cases [OF assms, of "''POST''" RELAY_HEALTH_PATH dumps]
  by (simp add: ALL_METHODS_def RELAY_HEALTH_PATH_def starts_with_def)

definition decisive :: "flt \<Rightarrow> poll \<Rightarrow> bool" where
  "decisive deadline p \<longleftrightarrow> po_started p \<or> po_task p \<in> {Failed_in_use, Failed_other} \<or> deadline < po_clock p"

definition start_verdict :: "poll \<Rightarrow> start_error + unit" where
  "start_verdict p =
     (if po_started p then Inr ()
      else case po_task p of
        Failed_in_use \<Rightarrow> Inl Listen_address_in_use | Failed_other \<Rightarrow> Inl Task_error | _ \<Rightarrow> Inl Start_timeout)"

lemma start_loop_step:
  "start_loop poll deadline i =
     (if decisive deadline (poll i) then Some (start_verdict (poll i)) else start_loop poll deadline (i + 1))"
  by (subst start_loop.simps) (auto simp: decisive_def start_verdict_def split: task_state.split)

lemma start_loop_reaches:
  "(\<And>j. i \<le> j \<Longrightarrow> j < i + k \<Longrightarrow> \<not> decisive deadline (poll j)) \<Longrightarrow> decisive deadline (poll (i + k)) \<Longrightarrow>
   start_loop poll deadline i = Some (start_verdict (poll (i + k)))"
proof (induction k arbitrary: i)
  case (Suc k)
  have "\<not> decisive deadline (poll i)" using Suc.prems(1) [of i] by simp
  moreover have "start_loop poll deadline (i + 1) = Some (start_verdict (poll (i + 1 + k)))"
    using Suc.prems by (intro Suc.IH) auto
  ultimately show ?case by (simp add: start_loop_step [of poll deadline i])
qed (simp add: start_loop_step)

text \<open>C38: Starting the server ends. When the clock moves by at least the five milliseconds of a sleep from
  one test to the next, the loop stops at the first test that finds the server started, its task failed or
  the deadline passed, which is one of the first 3002, and reports just that; so it always ends,
  and a timeout is reported only after fifteen seconds.\<close>

theorem start_ends:
  assumes "t0 \<le> po_clock (poll 0)" and "\<And>i. po_clock (poll i) + 1 / 200 \<le> po_clock (poll (i + 1))"
  shows "\<exists>n \<le> 3001. start_loop poll (t0 + 15) 0 = Some (start_verdict (poll n)) \<and> decisive (t0 + 15) (poll n) \<and>
    (\<forall>j < n. \<not> decisive (t0 + 15) (poll j))"
proof -
  have clock: "t0 + of_nat i / 200 \<le> po_clock (poll i)" for i
  proof (induction i)
    case (Suc i)
    then show ?case using assms(2) [of i] by (simp add: field_simps)
  qed (use assms(1) in simp)
  have "decisive (t0 + 15) (poll 3001)" using clock [of 3001] by (simp add: decisive_def)
  define n where "n = (LEAST n. decisive (t0 + 15) (poll n))"
  have "decisive (t0 + 15) (poll n)" "n \<le> 3001"
    unfolding n_def using \<open>decisive (t0 + 15) (poll 3001)\<close> by (rule LeastI, rule Least_le)
  moreover have f: "\<not> decisive (t0 + 15) (poll j)" if "j < n" for j
    using that not_less_Least unfolding n_def by blast
  ultimately show ?thesis using start_loop_reaches [of 0 n "t0 + 15" poll] by auto
qed

theorem start_ends_witness:
  "\<exists>n \<le> 3001. start_loop (\<lambda>i. \<lparr>po_started = 2 \<le> i, po_task = Running, po_clock = of_nat i / 100\<rparr>) (0 + 15) 0 =
    Some (start_verdict \<lparr>po_started = 2 \<le> n, po_task = Running, po_clock = of_nat n / 100\<rparr>)"
proof -
  define poll where "poll = (\<lambda>i. \<lparr>po_started = 2 \<le> i, po_task = Running, po_clock = of_nat i / 100 :: flt\<rparr>)"
  have "0 \<le> po_clock (poll 0)" "\<And>i. po_clock (poll i) + 1 / 200 \<le> po_clock (poll (i + 1))"
    by (simp_all add: poll_def field_simps)
  from start_ends [OF this] show ?thesis unfolding poll_def by blast
qed

end
