(* ===== verification/Spec2Isabelle.thy ===== *)
theory Spec2Isabelle
  imports Usage Telemetry Pricing Economics RouteAffinity Ttl TtlLearner Identity Snapshots
    Adapters LeaseConfig Leases LeaseLaws LeaseWarming LeaseSched RouteIntel Storage Observation Regex Churn Observer Controller ControllerLaws Proxy
    DurationHistory HermesTargets Classifier HermesPlugin Survival Topology RelayConfig Views Dashboard Schema FakeProvider Simulation EndToEnd PluginLog RelayServer
begin

text \<open>
  CachePilot keeps a provider's prompt cache warm while an agent waits for a long tool call. This library
  is a model of the program in HOL, translated from the Python sources under \<open>src/\<close>, with the theorems
  that make it correct. \<open>core\<close>, \<open>relay\<close>, \<open>hermes\<close> and \<open>cli\<close> stand for the packages
  \<open>packages/core/src/cachepilot_core\<close>, \<open>packages/relay/src/cachepilot_relay\<close>,
  \<open>packages/hermes-plugin/src/cachepilot_hermes\<close> and \<open>packages/cli/src/cachepilot_cli\<close>.

  \<^bold>\<open>The program.\<close> The plugin runs inside the agent. Its hooks and middleware promote a long terminal call
  to the background, register a target for it, and put the session and the number of its targets into
  correlation headers of each provider request. The relay receives the request, removes those headers,
  tells the lease controller that a real request begins, forwards the request, mirrors the answer, lets
  the observer record what the answer proves, and tells the controller how the request ended. The
  observer writes telemetry, prompt churn and route changes to one SQLite database and feeds the TTL
  learner there. The lease manager holds one lease per cache identity and session; its scheduler sends a
  bounded replay of the last request when a lease is due, a target is active, the economic gate passes
  and no real request is in flight. The command line and the dashboard read the database.

  \<^bold>\<open>Theories.\<close> Each names its source in its first text.

  \<^item> Foundations: Prelude (numbers, insertion-ordered dictionaries, JSON, exceptions, theorem collections),
    PyText (\<open>str\<close>, number parsing, \<open>shlex\<close>), Regex (the patterns the code uses, with their grammar), Hashing
    (UTF-8, executable SHA-256, canonical JSON).
  \<^item> Decisions: Usage, Telemetry, Pricing, Economics, RouteAffinity, RouteIntel, Survival (core modules
    \<open>usage\<close>, \<open>telemetry\<close>, \<open>pricing\<close>, \<open>economics\<close>, \<open>route_affinity\<close>, \<open>route_intel\<close>, \<open>survival\<close>).
  \<^item> Learning: Ttl and TtlLearner (core \<open>ttl\<close>): the profile, the resolver, and the learner over the locale
    \<open>ttl_store\<close>, the store protocol of the code.
  \<^item> Identity and replay: Identity (core \<open>identity\<close>, \<open>fingerprint\<close>), Snapshots (core \<open>snapshots\<close>, locale
    \<open>snapshot_store\<close>), Adapters (core \<open>adapters\<close>, relay \<open>warm_executor\<close>; the adapter protocol is the locale
    \<open>cache_adapter\<close>).
  \<^item> Leases (core \<open>leases\<close>): LeaseConfig (settings and environment), Leases (every operation, each coroutine
    cut at its awaits), LeaseLaws and LeaseWarming (invariants and functional laws), LeaseSched (the event
    loop as a labelled transition system, locale \<open>transition_system\<close>, with its invariants).
  \<^item> Storage (core \<open>storage\<close>): Storage (tables and statements on decoded rows; it interprets \<open>ttl_store\<close>),
    IsoTime (the text form of a time, locale of fixed-width text fields), Columns (rows as SQLite cells and
    the statements over cells), Schema (tables, migrations, the probe of the read-only openers).
  \<^item> Relay: Observation and Observer (relay \<open>observation\<close>), Churn (core \<open>churn\<close>), Topology (core \<open>topology\<close>),
    Controller and ControllerLaws (relay \<open>lease_controller\<close>), Proxy (relay \<open>proxy\<close>), RelayConfig and
    RelayServer (relay \<open>config\<close>, \<open>server\<close>).
  \<^item> Plugin: HermesTargets (hermes \<open>session\<close>, \<open>targets\<close>, locale \<open>target_bag\<close>), DurationHistory, Classifier,
    HermesPlugin (hermes \<open>lifecycle\<close>, \<open>tool_middleware\<close>, \<open>llm_middleware\<close>, \<open>plugin\<close>), PluginLog (settings and
    log lines of the same files).
  \<^item> Readers: Views (cli \<open>main\<close>, \<open>churn\<close>), Dashboard (\<open>dashboard/backend/server.py\<close>).
  \<^item> Whole: FakeProvider (core \<open>fake_provider\<close>) and Simulation, which runs the simulator, the relay's reading,
    the learner and the database together; EndToEnd, from the plugin's promotion to the relay's lease.

  \<^bold>\<open>State.\<close> An object is a record, a method a function from the record and its arguments to the record and
  the result; an exception is \<open>Inl\<close> of a \<open>py_error\<close>. A dictionary is the association list of its insertion
  order. A coroutine is the sequence of its segments between awaits, since nothing else runs inside one:
  \<open>evaluate_lease\<close> is \<open>evaluate_head\<close>, \<open>under_lock\<close>, \<open>finish_warm\<close>; \<open>forward\<close> is \<open>forward_begin\<close>, \<open>forward_end\<close>.
  LeaseSched interleaves the segments of any number of evaluations with every other method in any order,
  and ControllerLaws shows that the handlers of the relay are runs of that system. Methods that hold a
  thread lock for their whole body (registry, store, plugin state) are single steps.

  \<^bold>\<open>What is shown.\<close>

  \<^item> Safety of warming: a cache identity is locked exactly while one warm of it is in flight, a warm is sent
    exactly when every guard allows it and is still authorised when it begins, at most two unverified
    warms pass before the breaker opens, spending stays within the budget, and the deadline lies before
    the expiry (LeaseSched, LeaseWarming, Economics). Progress: a session that waits with cache evidence is
    warmed from some moment on, exactly when the gate passes (ControllerLaws); and a promotion in the
    plugin leads to an armed lease of its session in the relay (EndToEnd).
  \<^item> Honesty: hits, touches and refreshes only on provider evidence, failures fail closed, a miss blamed on
    the route never reaches the bounds, the readers show an absent or foreign database as an empty one and
    never write (Adapters, Proxy, Observer, Storage, Views, Dashboard).
  \<^item> Transparency and secrecy: what is forwarded and mirrored, independently of observation and leases; the
    correlation headers never leave; payloads never reach a log line (Proxy, PluginLog).
  \<^item> Learning: bounds learned from faithful evidence bracket the true time to live; over the simulator and
    the database this holds end to end when hits extend the life, and fails when they do not (Ttl,
    Storage, Simulation). The survival curve is the Kaplan-Meier product limit (Survival).
  \<^item> Refinements: the target registry is a multiset, the duration learner a fold of its log, the statements
    over cells are the statements over rows, stored times compare like times, migrations lose no row
    (HermesTargets, DurationHistory, Columns, IsoTime, Schema).
  \<^item> Divergences of code and documentation that the model brought out are lemmas next to the definitions
    they are about, stated on the smallest input that shows them.

  \<^bold>\<open>Bounds.\<close> No definition has fuel: recursion is structural or has a measure. The only loop without one is
  the start of the server, \<open>start_loop\<close>, a partial function whose end within 3002 tests is proved from a
  clock that moves by the five milliseconds of a sleep at each. SHA-256 works on 32-bit words; Python's
  integers are \<open>int\<close>.

  \<^bold>\<open>Parameters.\<close> What is not under \<open>src/\<close> is an argument: \<open>json.loads\<close> on bytes, \<open>json.dumps\<close> where its layout
  is not fixed, \<open>repr\<close> and the \<open>:g\<close> format of floats, \<open>str\<close> of a \<open>Decimal\<close>, pydantic's reading of a JSON value
  as an integer, \<open>uuid5\<close>, the HTTP client as the result of one call, Starlette's router, the bind of a
  socket, the file system and the probe of the dashboard, the random generator of the simulator, and
  every clock. A law such a parameter must obey is a hypothesis of the theorem that needs it
  (\<open>router_law\<close>, the reading back of dumped JSON and of decimal texts), and its witness instantiates it.

  \<^bold>\<open>Not modelled.\<close>

  \<^item> Rounding: floats and decimals that take part in arithmetic are exact rationals; infinities and NaN
    are written out where text or JSON can bring them in (type \<open>pyfloat\<close>).
  \<^item> Text with code points from 256 on; \<open>strftime\<close> in the local time zone.
  \<^item> \<open>argparse\<close>, sockets, uvicorn, Starlette and asyncio themselves; the chunks of a streamed body (the
    body is one value; whether it is streamed is modelled); cancellation of a running handler.
  \<^item> SQLite as an engine: the connection object, busy timeouts, WAL mode, indexes and column affinities;
    a database that stops answering is a flag or an absent value.
  \<^item> The dashboard's reply of status 500 to an unforeseen exception and its browser front end, the package
    manifests, the test suites, the benchmark and the end-to-end scripts under \<open>benchmarks\<close> and
    \<open>e2e-output\<close>.
\<close>

end
